theory Spec2Isabelle
  imports Complex_Main "HOL-Library.Word"
begin

unbundle bit_operations_syntax

section \<open>The WebAudio mixer of OpenRCT2 (openrct2-ui/audio/WebAudioMixer.cpp)\<close>

text \<open>
  The mixer owns a list of live channels, a registry from channel identifiers to weak
  references, and a pool of audio sources. Channels are objects shared between the mixer
  (its list holds \<open>shared_ptr\<close>s) and the caller (who gets a \<open>shared_ptr\<close> from \<open>Play\<close>), so
  the model keeps them in an explicit store: an address is a natural number, the store maps
  addresses to channel records, and the list, the registry and the caller hold addresses.

  Numbers: \<open>int32_t _nextChannelId\<close> and the channel identifiers are \<open>32 word\<close> (read as
  signed with \<open>sint\<close>; the increment wraps, as the 32-bit addition of the WebAssembly target
  does). \<open>float\<close> and \<open>double\<close> quantities (volumes, gains, rates, pan) are modelled as
  \<open>real\<close>: rounding is not modelled. A quotient whose divisor may be zero is the exception:
  its result is a \<open>double\<close> value below, which can be \<open>NaN\<close> or infinite.
\<close>

subsection \<open>Formats, sources, backend commands\<close>

datatype MixerGroup = Sound | RideMusic | TitleMusic

text \<open>
  \<open>SDL_AudioFormat\<close>: the two sample formats the backend takes natively, and any other one
  (carrying its sample width in bytes).
\<close>

datatype SDL_AudioFormat = AUDIO_U8 | AUDIO_S16SYS | AUDIO_OTHER nat

record AudioFormat =
  freq :: int
  format :: SDL_AudioFormat
  channels :: int

text \<open>
  Modelled from the spec: \<open>AudioFormat::GetBytesPerSecond\<close> (AudioFormat.h is not among the
  sources). The spec's glossary: bytes-per-second is sample rate \<times> channel count \<times>
  bytes-per-sample.
\<close>

fun BytesPerSample :: "SDL_AudioFormat \<Rightarrow> int" where
  "BytesPerSample AUDIO_U8 = 1"
| "BytesPerSample AUDIO_S16SYS = 2"
| "BytesPerSample (AUDIO_OTHER n) = int n"

definition GetBytesPerSecond :: "AudioFormat \<Rightarrow> int" where
  "GetBytesPerSecond f = freq f * channels f * BytesPerSample (format f)"

text \<open>The value-initialised \<open>AudioFormat _format{}\<close> of a channel.\<close>

definition AudioFormat_zero :: AudioFormat where
  "AudioFormat_zero = \<lparr>freq = 0, format = AUDIO_OTHER 0, channels = 0\<rparr>"

text \<open>
  A \<open>double\<close> as the result of a division: IEEE-754 division does not trap, \<open>x / 0\<close> is an
  infinity and \<open>0 / 0\<close> is NaN. (HOL's own \<open>a / 0 = 0\<close> would hide a division by zero.)
\<close>

datatype double = Finite real | NaN | PosInf | NegInf

definition double_div :: "real \<Rightarrow> real \<Rightarrow> double" where
  "double_div a b =
     (if b \<noteq> 0 then Finite (a / b)
      else if a = 0 then NaN
      else if 0 < a then PosInf else NegInf)"

text \<open>
  An \<open>SDLAudioSource\<close> as the mixer sees it: its format, its PCM payload (\<open>GetLength\<close> bytes,
  delivered by \<open>Read\<close>) and its released flag. \<open>IAudioSource*\<close> is an \<open>IAudioSource option\<close>
  (\<open>None\<close> is \<open>nullptr\<close>); a source of another concrete class fails the \<open>dynamic_cast\<close>.
\<close>

record SDLAudioSource =
  src_format :: AudioFormat
  src_pcm :: "8 word list"
  src_released :: bool

datatype IAudioSource = SDLSource SDLAudioSource | ForeignSource

fun dynamic_cast_SDLAudioSource :: "IAudioSource \<Rightarrow> SDLAudioSource option" where
  "dynamic_cast_SDLAudioSource (SDLSource s) = Some s"
| "dynamic_cast_SDLAudioSource ForeignSource = None"

text \<open>
  The commands sent to the JavaScript backend, in the order of their C parameters.
\<close>

datatype BackendCommand =
    WebAudioPlayChannel "32 word" int int int "real list" int real real real double
  | WebAudioUpdateChannel "32 word" real real real double int
  | WebAudioStopChannel "32 word"

text \<open>
  What the mixer reads from outside itself: the sound configuration, the scene, the
  constant \<open>kMixerVolumeMax\<close> (declared in a header that is not among the sources, hence a
  parameter), the backend's playback position and SDL's sample conversion
  (\<open>SDL_BuildAudioCVT\<close> followed by \<open>SDL_ConvertAudio\<close>; \<open>None\<close> when either fails).
\<close>

record Environment =
  soundVolume :: int
  rideMusicVolume :: int
  masterVolume :: int
  masterSoundEnabled :: bool
  titleSequence :: bool
  kMixerVolumeMax :: int
  WebAudioGetOffsetSeconds :: "32 word \<Rightarrow> real"
  SDL_ConvertAudio :: "AudioFormat \<Rightarrow> 8 word list \<Rightarrow> 8 word list option"

subsection \<open>Channels and the mixer state\<close>

record WebAudioChannel =
  c_channelId :: "32 word"
  c_source :: "IAudioSource option"
  c_format :: AudioFormat
  c_offsetBytes :: "64 word"
  c_group :: MixerGroup
  c_rate :: real
  c_loop :: int
  c_volume :: int
  c_volume_l :: real
  c_volume_r :: real
  c_oldvolume_l :: real
  c_oldvolume_r :: real
  c_oldvolume :: int
  c_pan :: real
  c_stopping :: bool
  c_done :: bool
  c_deleteondone :: bool

text \<open>The default member initialisers of \<open>WebAudioChannel\<close>.\<close>

definition WebAudioChannel_fields :: "32 word \<Rightarrow> WebAudioChannel" where
  "WebAudioChannel_fields channelId =
     \<lparr>c_channelId = channelId, c_source = None, c_format = AudioFormat_zero,
      c_offsetBytes = 0, c_group = Sound, c_rate = 0, c_loop = 0, c_volume = 1,
      c_volume_l = 0, c_volume_r = 0, c_oldvolume_l = 0, c_oldvolume_r = 0,
      c_oldvolume = 0, c_pan = 0, c_stopping = False, c_done = True,
      c_deleteondone = False\<rparr>"

text \<open>
  The mixer with the objects it shares. \<open>m_channels\<close> is \<open>std::list<shared_ptr>\<close>,
  \<open>m_channelMap\<close> is \<open>unordered_map<int32_t, weak_ptr>\<close>, \<open>m_mutex\<close> says whether \<open>_mutex\<close>
  is held. \<open>heap\<close> is the store of channel objects and \<open>allocated\<close> the next free address;
  \<open>held\<close> lists the addresses the caller still holds a \<open>shared_ptr\<close> to; \<open>backend\<close> is the log
  of commands sent so far. \<open>lock_violations\<close> is ghost state: it counts the structural
  mutations of the three containers made while the mutex was not held, and the attempts
  to lock the (non-recursive) mutex while it was held.
\<close>

record WebAudioMixer =
  m_nextChannelId :: "32 word"
  m_volume :: real
  m_settingSoundVolume :: int
  m_settingMusicVolume :: int
  m_adjustSoundVolume :: real
  m_adjustMusicVolume :: real
  m_mutex :: bool
  m_channels :: "nat list"
  m_channelMap :: "32 word \<rightharpoonup> nat"
  m_sources :: "SDLAudioSource list"
  heap :: "nat \<Rightarrow> WebAudioChannel"
  allocated :: nat
  held :: "nat list"
  backend :: "BackendCommand list"
  lock_violations :: nat

definition WebAudioMixer_new :: WebAudioMixer where
  "WebAudioMixer_new =
     \<lparr>m_nextChannelId = 1, m_volume = 1, m_settingSoundVolume = - 1,
      m_settingMusicVolume = - 1, m_adjustSoundVolume = 1, m_adjustMusicVolume = 1,
      m_mutex = False, m_channels = [], m_channelMap = Map.empty, m_sources = [],
      heap = (\<lambda>_. WebAudioChannel_fields 0), allocated = 0, held = [], backend = [],
      lock_violations = 0\<rparr>"

subsection \<open>The mutex and the registry\<close>

definition lock_guard :: "WebAudioMixer \<Rightarrow> WebAudioMixer" where
  "lock_guard m =
     (if m_mutex m then m\<lparr>lock_violations := Suc (lock_violations m)\<rparr>
      else m\<lparr>m_mutex := True\<rparr>)"

definition unlock :: "WebAudioMixer \<Rightarrow> WebAudioMixer" where
  "unlock m = m\<lparr>m_mutex := False\<rparr>"

text \<open>Every insertion into or removal from a container passes through \<open>structural\<close>.\<close>

definition structural :: "WebAudioMixer \<Rightarrow> WebAudioMixer" where
  "structural m =
     (if m_mutex m then m else m\<lparr>lock_violations := Suc (lock_violations m)\<rparr>)"

definition RegisterChannel :: "32 word \<Rightarrow> nat \<Rightarrow> WebAudioMixer \<Rightarrow> WebAudioMixer" where
  "RegisterChannel channelId channel m =
     (structural m)\<lparr>m_channelMap := (m_channelMap m)(channelId \<mapsto> channel)\<rparr>"

text \<open>
  A \<open>weak_ptr\<close> locks while some \<open>shared_ptr\<close> to the object exists: in the mixer's list or
  in the caller's hands.
\<close>

definition weak_lock :: "WebAudioMixer \<Rightarrow> nat \<Rightarrow> nat option" where
  "weak_lock m a = (if a \<in> set (m_channels m) \<or> a \<in> set (held m) then Some a else None)"

definition FindChannel :: "32 word \<Rightarrow> WebAudioMixer \<Rightarrow> nat option" where
  "FindChannel channelId m =
     (case m_channelMap m channelId of
        None \<Rightarrow> None
      | Some a \<Rightarrow> weak_lock m a)"

definition RemoveChannel :: "32 word \<Rightarrow> WebAudioMixer \<Rightarrow> WebAudioMixer" where
  "RemoveChannel channelId m =
     (structural m)\<lparr>m_channelMap := (m_channelMap m)(channelId := None)\<rparr>"

subsection \<open>Volume adjustment\<close>

text \<open>\<open>powf(x, 10.f / 6.f)\<close>; the configuration values are percentages, so \<open>x\<close> is not negative.\<close>

definition perceptual :: "int \<Rightarrow> real" where
  "perceptual setting = (real_of_int setting / 100) powr (10 / 6)"

definition UpdateAdjustedSound :: "Environment \<Rightarrow> WebAudioMixer \<Rightarrow> WebAudioMixer" where
  "UpdateAdjustedSound env m =
     (let m1 = (if m_settingSoundVolume m \<noteq> soundVolume env
                then m\<lparr>m_settingSoundVolume := soundVolume env,
                       m_adjustSoundVolume := perceptual (soundVolume env)\<rparr>
                else m)
      in if m_settingMusicVolume m1 \<noteq> rideMusicVolume env
         then m1\<lparr>m_settingMusicVolume := rideMusicVolume env,
                 m_adjustMusicVolume := perceptual (rideMusicVolume env)\<rparr>
         else m1)"

definition GetAdjustedVolume :: "Environment \<Rightarrow> WebAudioMixer \<Rightarrow> WebAudioChannel \<Rightarrow> real" where
  "GetAdjustedVolume env m channel =
     (let volumeAdjust0 = m_volume m *
            (if masterSoundEnabled env then real_of_int (masterVolume env) / 100 else 0);
          volumeAdjust =
            (case c_group channel of
               Sound \<Rightarrow>
                 (let v = volumeAdjust0 * m_adjustSoundVolume m
                  in if titleSequence env then min v 0.75 else v)
             | RideMusic \<Rightarrow> volumeAdjust0 * m_adjustMusicVolume m
             | TitleMusic \<Rightarrow> volumeAdjust0 * m_adjustMusicVolume m)
      in (real_of_int (c_volume channel) * volumeAdjust) / real_of_int (kMixerVolumeMax env))"

definition emit :: "BackendCommand \<Rightarrow> WebAudioMixer \<Rightarrow> WebAudioMixer" where
  "emit cmd m = m\<lparr>backend := backend m @ [cmd]\<rparr>"

definition UpdateChannel :: "Environment \<Rightarrow> nat \<Rightarrow> bool \<Rightarrow> WebAudioMixer \<Rightarrow> WebAudioMixer" where
  "UpdateChannel env a restart m =
     (if c_done (heap m a) then m
      else
        let m1 = UpdateAdjustedSound env m;
            channel = heap m1 a;
            adjustedVolume = GetAdjustedVolume env m1 channel;
            bytesPerSecond = GetBytesPerSecond (c_format channel);
            offsetSeconds =
              (if bytesPerSecond > 0
               then Finite (real (unat (c_offsetBytes channel)) / real_of_int bytesPerSecond)
               else Finite 0)
        in emit (WebAudioUpdateChannel (c_channelId channel) (c_rate channel) adjustedVolume
                   (c_pan channel) offsetSeconds (if restart then 1 else 0)) m1)"

text \<open>
  \<open>static_cast<uint64_t>(seconds * bytesPerSecond)\<close>; the cast of a negative product is
  undefined in C++ and is not given a meaning here beyond the wrap of \<open>word_of_int\<close>.
\<close>

definition GetChannelOffsetBytes :: "Environment \<Rightarrow> WebAudioMixer \<Rightarrow> nat \<Rightarrow> 64 word" where
  "GetChannelOffsetBytes env m a =
     (let bytesPerSecond = GetBytesPerSecond (c_format (heap m a))
      in if bytesPerSecond = 0 then 0
         else word_of_int \<lfloor>WebAudioGetOffsetSeconds env (c_channelId (heap m a))
                             * real_of_int bytesPerSecond\<rfloor>)"

subsection \<open>The methods of \<open>WebAudioChannel\<close>\<close>

text \<open>
  A method of the channel at address \<open>a\<close> updates the object in the store and, where the
  source calls \<open>_mixer.UpdateChannel(*this, ...)\<close>, runs the mixer's \<open>UpdateChannel\<close>.
\<close>

definition modify :: "nat \<Rightarrow> (WebAudioChannel \<Rightarrow> WebAudioChannel) \<Rightarrow> WebAudioMixer \<Rightarrow> WebAudioMixer" where
  "modify a f m = m\<lparr>heap := (heap m)(a := f (heap m a))\<rparr>"

text \<open>\<open>std::clamp(v, lo, hi)\<close>.\<close>

definition clamp :: "'a::linorder \<Rightarrow> 'a \<Rightarrow> 'a \<Rightarrow> 'a" where
  "clamp v lo hi = (if v < lo then lo else if hi < v then hi else v)"

definition SetGroup :: "Environment \<Rightarrow> nat \<Rightarrow> MixerGroup \<Rightarrow> WebAudioMixer \<Rightarrow> WebAudioMixer" where
  "SetGroup env a g m = UpdateChannel env a False (modify a (\<lambda>c. c\<lparr>c_group := g\<rparr>) m)"

definition SetRate :: "Environment \<Rightarrow> nat \<Rightarrow> real \<Rightarrow> WebAudioMixer \<Rightarrow> WebAudioMixer" where
  "SetRate env a rate m =
     UpdateChannel env a False (modify a (\<lambda>c. c\<lparr>c_rate := max 0.001 rate\<rparr>) m)"

definition GetOffset :: "Environment \<Rightarrow> nat \<Rightarrow> WebAudioMixer \<Rightarrow> 64 word" where
  "GetOffset env a m = GetChannelOffsetBytes env m a"

definition SetOffset :: "Environment \<Rightarrow> nat \<Rightarrow> 64 word \<Rightarrow> WebAudioMixer \<Rightarrow> WebAudioMixer \<times> bool" where
  "SetOffset env a offset m =
     (if GetBytesPerSecond (c_format (heap m a)) = 0 then (m, False)
      else (UpdateChannel env a True (modify a (\<lambda>c. c\<lparr>c_offsetBytes := offset\<rparr>) m), True))"

definition SetLoop :: "nat \<Rightarrow> int \<Rightarrow> WebAudioMixer \<Rightarrow> WebAudioMixer" where
  "SetLoop a v m = modify a (\<lambda>c. c\<lparr>c_loop := v\<rparr>) m"

definition SetVolume_channel :: "Environment \<Rightarrow> nat \<Rightarrow> int \<Rightarrow> WebAudioMixer \<Rightarrow> WebAudioMixer" where
  "SetVolume_channel env a v m =
     UpdateChannel env a False
       (modify a (\<lambda>c. c\<lparr>c_volume := clamp v 0 (kMixerVolumeMax env)\<rparr>) m)"

text \<open>
  \<open>SetPan\<close>: the gains of the two sides from the clamped pan. \<open>pan_gains p\<close> is the pair
  (\<open>_volume_l\<close>, \<open>_volume_r\<close>) the method stores for the clamped pan \<open>p\<close>.
\<close>

definition pan_gains :: "real \<Rightarrow> real \<times> real" where
  "pan_gains p =
     (let decibels = (\<bar>p - 0.5\<bar> * 2) * 100;
          attenuation = 10 powr (decibels / 20)
      in if p \<le> 0.5 then (1, 1 / attenuation) else (1 / attenuation, 1))"

definition SetPan :: "Environment \<Rightarrow> nat \<Rightarrow> real \<Rightarrow> WebAudioMixer \<Rightarrow> WebAudioMixer" where
  "SetPan env a pan m =
     UpdateChannel env a False
       (modify a (\<lambda>c. let p = clamp pan 0 1
                       in c\<lparr>c_pan := p, c_volume_l := fst (pan_gains p),
                            c_volume_r := snd (pan_gains p)\<rparr>) m)"

definition SetStopping :: "nat \<Rightarrow> bool \<Rightarrow> WebAudioMixer \<Rightarrow> WebAudioMixer" where
  "SetStopping a v m = modify a (\<lambda>c. c\<lparr>c_stopping := v\<rparr>) m"

definition SetDone :: "nat \<Rightarrow> bool \<Rightarrow> WebAudioMixer \<Rightarrow> WebAudioMixer" where
  "SetDone a v m = modify a (\<lambda>c. c\<lparr>c_done := v\<rparr>) m"

definition SetDeleteOnDone :: "nat \<Rightarrow> bool \<Rightarrow> WebAudioMixer \<Rightarrow> WebAudioMixer" where
  "SetDeleteOnDone a v m = modify a (\<lambda>c. c\<lparr>c_deleteondone := v\<rparr>) m"

definition Play_channel :: "nat \<Rightarrow> IAudioSource option \<Rightarrow> int \<Rightarrow> WebAudioMixer \<Rightarrow> WebAudioMixer" where
  "Play_channel a source loop m =
     modify a (\<lambda>c. c\<lparr>c_source := source, c_loop := loop, c_offsetBytes := 0,
                      c_done := False\<rparr>) m"

definition Stop :: "nat \<Rightarrow> WebAudioMixer \<Rightarrow> WebAudioMixer" where
  "Stop a m = SetStopping a True m"

definition UpdateOldVolume :: "nat \<Rightarrow> WebAudioMixer \<Rightarrow> WebAudioMixer" where
  "UpdateOldVolume a m =
     modify a (\<lambda>c. c\<lparr>c_oldvolume := c_volume c, c_oldvolume_l := c_volume_l c,
                      c_oldvolume_r := c_volume_r c\<rparr>) m"

definition SetFormat :: "nat \<Rightarrow> AudioFormat \<Rightarrow> WebAudioMixer \<Rightarrow> WebAudioMixer" where
  "SetFormat a f m = modify a (\<lambda>c. c\<lparr>c_format := f\<rparr>) m"

text \<open>
  \<open>std::make_shared<WebAudioChannel>(*this, channelId)\<close>: a fresh object with the default
  member initialisers, on which the constructor body runs \<open>SetRate(1)\<close>,
  \<open>SetVolume(kMixerVolumeMax)\<close> and \<open>SetPan(0.5f)\<close>. Returns the new address.
\<close>

definition make_shared_WebAudioChannel ::
    "Environment \<Rightarrow> 32 word \<Rightarrow> WebAudioMixer \<Rightarrow> WebAudioMixer \<times> nat" where
  "make_shared_WebAudioChannel env channelId m =
     (let a = allocated m;
          m1 = m\<lparr>heap := (heap m)(a := WebAudioChannel_fields channelId),
                 allocated := Suc a\<rparr>;
          m2 = SetRate env a 1 m1;
          m3 = SetVolume_channel env a (kMixerVolumeMax env) m2;
          m4 = SetPan env a 0.5 m3
      in (m4, a))"

subsection \<open>Reading and converting the samples\<close>

definition ReadAllPcmData :: "SDLAudioSource \<Rightarrow> 8 word list" where
  "ReadAllPcmData source = src_pcm source"

definition ConvertToS16 ::
    "Environment \<Rightarrow> AudioFormat \<Rightarrow> 8 word list \<Rightarrow> (AudioFormat \<times> 8 word list) option" where
  "ConvertToS16 env fmt data =
     (if format fmt = AUDIO_S16SYS then Some (fmt, data)
      else case SDL_ConvertAudio env fmt data of
             None \<Rightarrow> None
           | Some buffer \<Rightarrow> Some (fmt\<lparr>format := AUDIO_S16SYS\<rparr>, buffer))"

text \<open>
  The 16-bit samples are read through a \<open>reinterpret_cast\<close> of the byte buffer, little endian
  on the WebAssembly target; a trailing odd byte is dropped (\<open>size / sizeof(int16_t)\<close>).
\<close>

fun pcm16 :: "8 word list \<Rightarrow> 16 word list" where
  "pcm16 (lo # hi # rest) = word_cat hi lo # pcm16 rest"
| "pcm16 _ = []"

definition ConvertToFloat :: "AudioFormat \<Rightarrow> 8 word list \<Rightarrow> real list" where
  "ConvertToFloat fmt data =
     (if format fmt = AUDIO_U8
      then map (\<lambda>b. (real_of_int (uint b) - 128) / 128) data
      else map (\<lambda>s. real_of_int (sint s) / 32768) (pcm16 data))"

subsection \<open>The mixer's operations\<close>

definition push_back_channel :: "nat \<Rightarrow> WebAudioMixer \<Rightarrow> WebAudioMixer" where
  "push_back_channel a m = (structural m)\<lparr>m_channels := m_channels m @ [a]\<rparr>"

text \<open>
  \<open>Play\<close>, in two parts: \<open>Play\<close> itself is the validation and decoding of the source
  (up to the frame count, \<open>static_cast<int32_t>(floatData.size() / channels)\<close>), and
  \<open>Play_locked\<close> is the rest of the function body, from the \<open>lock_guard\<close> to the \<open>return\<close>.
  The start offset is the one quotient of the file that is not guarded: \<open>double_div\<close>.
  The returned \<open>shared_ptr\<close> is in the caller's hands from then on.
\<close>

definition frame_count :: "real list \<Rightarrow> int \<Rightarrow> int" where
  "frame_count floatData chans = sint (word_of_nat (length floatData div nat chans) :: 32 word)"

definition Play_locked ::
    "Environment \<Rightarrow> IAudioSource option \<Rightarrow> int \<Rightarrow> bool \<Rightarrow> AudioFormat \<Rightarrow> real list \<Rightarrow> int \<Rightarrow> int
       \<Rightarrow> WebAudioMixer \<Rightarrow> WebAudioMixer \<times> nat option" where
  "Play_locked env source loop deleteondone fmt floatData chans frames m =
     (let m1 = lock_guard m;
          channelId = m_nextChannelId m1;
          m2 = m1\<lparr>m_nextChannelId := channelId + 1\<rparr>;
          (m3, channel) = make_shared_WebAudioChannel env channelId m2;
          m4 = SetFormat channel fmt m3;
          m5 = Play_channel channel source loop m4;
          m6 = SetDeleteOnDone channel deleteondone m5;
          m7 = push_back_channel channel m6;
          m8 = RegisterChannel channelId channel m7;
          m9 = UpdateAdjustedSound env m8;
          adjustedVolume = GetAdjustedVolume env m9 (heap m9 channel);
          offsetSeconds =
            double_div (real (unat (c_offsetBytes (heap m9 channel))))
              (real_of_int (GetBytesPerSecond fmt));
          m10 = emit (WebAudioPlayChannel channelId chans frames (freq fmt)
                        floatData loop (c_rate (heap m9 channel))
                        adjustedVolume (c_pan (heap m9 channel))
                        offsetSeconds) m9
      in (unlock (m10\<lparr>held := channel # held m10\<rparr>), Some channel))"

definition Play ::
    "Environment \<Rightarrow> IAudioSource option \<Rightarrow> int \<Rightarrow> bool \<Rightarrow> WebAudioMixer
       \<Rightarrow> WebAudioMixer \<times> nat option" where
  "Play env source loop deleteondone m =
     (case source of
        None \<Rightarrow> (m, None)
      | Some src \<Rightarrow>
        (case dynamic_cast_SDLAudioSource src of
           None \<Rightarrow> (m, None)
         | Some sdlSource \<Rightarrow>
           (case (if format (src_format sdlSource) \<noteq> AUDIO_S16SYS
                     \<and> format (src_format sdlSource) \<noteq> AUDIO_U8
                  then ConvertToS16 env (src_format sdlSource) (ReadAllPcmData sdlSource)
                  else Some (src_format sdlSource, ReadAllPcmData sdlSource)) of
              None \<Rightarrow> (m, None)
            | Some (fmt, pcmData) \<Rightarrow>
                let floatData = ConvertToFloat fmt pcmData;
                    chans = channels fmt
                in if chans \<le> 0 then (m, None)
                   else
                     let frames = frame_count floatData chans
                     in if frames \<le> 0 then (m, None)
                        else Play_locked env source loop deleteondone fmt floatData
                               chans frames m)))"

text \<open>
  \<open>Tick\<close>: the loop over \<open>_channels\<close> with an erasing iterator. \<open>kept\<close> are the entries
  already passed, \<open>a # rest\<close> the entries from the iterator on; erasing the current entry
  leaves \<open>kept @ rest\<close> in the list.
\<close>

fun Tick_loop :: "Environment \<Rightarrow> nat list \<Rightarrow> nat list \<Rightarrow> WebAudioMixer \<Rightarrow> WebAudioMixer" where
  "Tick_loop env kept [] m = m"
| "Tick_loop env kept (a # rest) m =
     (if c_stopping (heap m a)
      then
        let m1 = emit (WebAudioStopChannel (c_channelId (heap m a))) m;
            m2 = SetDone a True m1;
            m3 = RemoveChannel (c_channelId (heap m2 a)) m2;
            m4 = (structural m3)\<lparr>m_channels := kept @ rest\<rparr>
        in Tick_loop env kept rest m4
      else
        Tick_loop env (kept @ [a]) rest
          (if \<not> c_done (heap m a) then UpdateChannel env a False m else m))"

definition sweep_sources :: "WebAudioMixer \<Rightarrow> WebAudioMixer" where
  "sweep_sources m =
     (structural m)\<lparr>m_sources := filter (\<lambda>source. \<not> src_released source) (m_sources m)\<rparr>"

definition Tick :: "Environment \<Rightarrow> WebAudioMixer \<Rightarrow> WebAudioMixer" where
  "Tick env m =
     (let m1 = UpdateAdjustedSound env m;
          m2 = lock_guard m1;
          m3 = Tick_loop env [] (m_channels m2) m2;
          m4 = sweep_sources m3
      in unlock m4)"

definition SetVolume :: "Environment \<Rightarrow> real \<Rightarrow> WebAudioMixer \<Rightarrow> WebAudioMixer" where
  "SetVolume env v m = Tick env (m\<lparr>m_volume := v\<rparr>)"

definition OnChannelEnded :: "32 word \<Rightarrow> WebAudioMixer \<Rightarrow> WebAudioMixer" where
  "OnChannelEnded channelId m =
     (let m1 = lock_guard m
      in case FindChannel channelId m1 of
           None \<Rightarrow> unlock m1
         | Some channel \<Rightarrow>
             let m2 = SetDone channel True m1;
                 m3 = (structural m2)\<lparr>m_channels :=
                        filter (\<lambda>entry. c_channelId (heap m2 entry) \<noteq> channelId)
                          (m_channels m2)\<rparr>;
                 m4 = RemoveChannel channelId m3
             in unlock m4)"

definition Close :: "WebAudioMixer \<Rightarrow> WebAudioMixer" where
  "Close m =
     (let m1 = lock_guard m;
          m2 = fold (\<lambda>channel. emit (WebAudioStopChannel (c_channelId (heap m1 channel))))
                 (m_channels m1) m1;
          m3 = (structural m2)\<lparr>m_channels := []\<rparr>;
          m4 = (structural m3)\<lparr>m_channelMap := Map.empty\<rparr>;
          m5 = (structural m4)\<lparr>m_sources := []\<rparr>
      in unlock m5)"

definition AddSource :: "SDLAudioSource option \<Rightarrow> WebAudioMixer \<Rightarrow> WebAudioMixer" where
  "AddSource source m =
     (let m1 = lock_guard m
      in case source of
           Some s \<Rightarrow> unlock ((structural m1)\<lparr>m_sources := m_sources m1 @ [s]\<rparr>)
         | None \<Rightarrow> unlock m1)"

subsection \<open>Sequences of calls\<close>

text \<open>
  The calls a program can make: the mixer's public operations, the backend's completion
  callback, and the methods of a channel called through a reference the caller holds
  (\<open>Ch...\<close>, with the channel's address). \<open>ChRelease\<close> drops the caller's reference.
  \<open>SrcRelease i\<close> marks the \<open>i\<close>-th pooled source as released. Each call comes with the
  environment it runs in.
\<close>

datatype Operation =
    OpPlay "IAudioSource option" int bool
  | OpTick
  | OpOnChannelEnded "32 word"
  | OpClose
  | OpSetVolume real
  | OpAddSource "SDLAudioSource option"
  | SrcRelease nat
  | ChSetGroup nat MixerGroup
  | ChSetRate nat real
  | ChSetOffset nat "64 word"
  | ChSetLoop nat int
  | ChSetVolume nat int
  | ChSetPan nat real
  | ChSetStopping nat bool
  | ChSetDone nat bool
  | ChSetDeleteOnDone nat bool
  | ChPlay nat "IAudioSource option" int
  | ChStop nat
  | ChUpdateOldVolume nat
  | ChRelease nat

fun channel_call :: "Environment \<Rightarrow> Operation \<Rightarrow> WebAudioMixer \<Rightarrow> WebAudioMixer" where
  "channel_call env (ChSetGroup a g) m = SetGroup env a g m"
| "channel_call env (ChSetRate a r) m = SetRate env a r m"
| "channel_call env (ChSetOffset a off) m = fst (SetOffset env a off m)"
| "channel_call env (ChSetLoop a v) m = SetLoop a v m"
| "channel_call env (ChSetVolume a v) m = SetVolume_channel env a v m"
| "channel_call env (ChSetPan a p) m = SetPan env a p m"
| "channel_call env (ChSetStopping a v) m = SetStopping a v m"
| "channel_call env (ChSetDone a v) m = SetDone a v m"
| "channel_call env (ChSetDeleteOnDone a v) m = SetDeleteOnDone a v m"
| "channel_call env (ChPlay a s l) m = Play_channel a s l m"
| "channel_call env (ChStop a) m = Stop a m"
| "channel_call env (ChUpdateOldVolume a) m = UpdateOldVolume a m"
| "channel_call env (ChRelease a) m = m\<lparr>held := removeAll a (held m)\<rparr>"
| "channel_call env _ m = m"

fun receiver :: "Operation \<Rightarrow> nat option" where
  "receiver (ChSetGroup a _) = Some a"
| "receiver (ChSetRate a _) = Some a"
| "receiver (ChSetOffset a _) = Some a"
| "receiver (ChSetLoop a _) = Some a"
| "receiver (ChSetVolume a _) = Some a"
| "receiver (ChSetPan a _) = Some a"
| "receiver (ChSetStopping a _) = Some a"
| "receiver (ChSetDone a _) = Some a"
| "receiver (ChSetDeleteOnDone a _) = Some a"
| "receiver (ChPlay a _ _) = Some a"
| "receiver (ChStop a) = Some a"
| "receiver (ChUpdateOldVolume a) = Some a"
| "receiver (ChRelease a) = Some a"
| "receiver _ = None"

definition release_source :: "nat \<Rightarrow> WebAudioMixer \<Rightarrow> WebAudioMixer" where
  "release_source i m =
     (if i < length (m_sources m)
      then m\<lparr>m_sources := (m_sources m)[i := (m_sources m ! i)\<lparr>src_released := True\<rparr>]\<rparr>
      else m)"

text \<open>
  One call. A channel method can only be called through a reference the caller holds;
  a call on any other address is not a call the program can make and changes nothing.
\<close>

definition step :: "Environment \<Rightarrow> Operation \<Rightarrow> WebAudioMixer \<Rightarrow> WebAudioMixer" where
  "step env op m =
     (case receiver op of
        Some a \<Rightarrow> (if a \<in> set (held m) then channel_call env op m else m)
      | None \<Rightarrow>
        (case op of
           OpPlay source loop deleteondone \<Rightarrow> fst (Play env source loop deleteondone m)
         | OpTick \<Rightarrow> Tick env m
         | OpOnChannelEnded channelId \<Rightarrow> OnChannelEnded channelId m
         | OpClose \<Rightarrow> Close m
         | OpSetVolume v \<Rightarrow> SetVolume env v m
         | OpAddSource source \<Rightarrow> AddSource source m
         | SrcRelease i \<Rightarrow> release_source i m
         | _ \<Rightarrow> m))"

fun run :: "(Environment \<times> Operation) list \<Rightarrow> WebAudioMixer \<Rightarrow> WebAudioMixer" where
  "run [] m = m"
| "run ((env, op) # rest) m = run rest (step env op m)"

text \<open>The identifiers of the channels that the successful \<open>Play\<close> calls of a sequence return.\<close>

fun returned_ids :: "(Environment \<times> Operation) list \<Rightarrow> WebAudioMixer \<Rightarrow> 32 word list" where
  "returned_ids [] m = []"
| "returned_ids ((env, OpPlay source loop deleteondone) # rest) m =
     (case Play env source loop deleteondone m of
        (m', Some a) \<Rightarrow> c_channelId (heap m' a) # returned_ids rest m'
      | (m', None) \<Rightarrow> returned_ids rest m')"
| "returned_ids ((env, op) # rest) m = returned_ids rest (step env op m)"

fun num_plays :: "(Environment \<times> Operation) list \<Rightarrow> nat" where
  "num_plays [] = 0"
| "num_plays ((env, OpPlay source loop deleteondone) # rest) = Suc (num_plays rest)"
| "num_plays ((env, op) # rest) = num_plays rest"

text \<open>
  The two calls by which a caller clears the done flag of the channel at address \<open>a\<close>:
  the channel's own \<open>Play(source, loop)\<close> and \<open>SetDone(false)\<close>.
\<close>

fun clears_done :: "nat \<Rightarrow> Operation \<Rightarrow> bool" where
  "clears_done a (ChPlay b _ _) = (a = b)"
| "clears_done a (ChSetDone b v) = (a = b \<and> \<not> v)"
| "clears_done a _ = False"

text \<open>The commands sent between a state and a later one.\<close>

definition new_commands :: "WebAudioMixer \<Rightarrow> WebAudioMixer \<Rightarrow> BackendCommand list" where
  "new_commands m m' = drop (length (backend m)) (backend m')"

fun updates_channel :: "32 word \<Rightarrow> BackendCommand \<Rightarrow> bool" where
  "updates_channel i (WebAudioUpdateChannel j _ _ _ _ _) = (i = j)"
| "updates_channel i _ = False"

fun command_volume :: "BackendCommand \<Rightarrow> real option" where
  "command_volume (WebAudioPlayChannel _ _ _ _ _ _ _ v _ _) = Some v"
| "command_volume (WebAudioUpdateChannel _ _ v _ _ _) = Some v"
| "command_volume (WebAudioStopChannel _) = None"

fun command_offset :: "BackendCommand \<Rightarrow> double option" where
  "command_offset (WebAudioPlayChannel _ _ _ _ _ _ _ _ _ off) = Some off"
| "command_offset (WebAudioUpdateChannel _ _ _ _ off _) = Some off"
| "command_offset (WebAudioStopChannel _) = None"

subsection \<open>The properties, as the specification words them\<close>

text \<open>
  The channel object as the constructor leaves it, and as \<open>Play\<close> hands it out.
\<close>

definition fresh_channel :: "Environment \<Rightarrow> 32 word \<Rightarrow> WebAudioChannel" where
  "fresh_channel env channelId =
     (WebAudioChannel_fields channelId)
       \<lparr>c_rate := 1, c_volume := clamp (kMixerVolumeMax env) 0 (kMixerVolumeMax env),
        c_volume_l := 1, c_volume_r := 1, c_pan := 1 / 2\<rparr>"

definition started_channel ::
    "Environment \<Rightarrow> 32 word \<Rightarrow> IAudioSource option \<Rightarrow> AudioFormat \<Rightarrow> int \<Rightarrow> bool
       \<Rightarrow> WebAudioChannel" where
  "started_channel env channelId source fmt loop deleteondone =
     (fresh_channel env channelId)
       \<lparr>c_format := fmt, c_source := source, c_loop := loop, c_offsetBytes := 0,
        c_done := False, c_deleteondone := deleteondone\<rparr>"

text \<open>
  The registry invariant: the live channels carry pairwise distinct identifiers, the set
  of these identifiers is the registry's key set, each key resolves to the live channel
  that carries it, the mutex is free between calls, and no container was ever changed
  without the mutex.
\<close>

definition channel_ids :: "WebAudioMixer \<Rightarrow> 32 word list" where
  "channel_ids m = map (\<lambda>a. c_channelId (heap m a)) (m_channels m)"

definition registry_consistent :: "WebAudioMixer \<Rightarrow> bool" where
  "registry_consistent m \<longleftrightarrow>
     distinct (channel_ids m)
     \<and> dom (m_channelMap m) = set (channel_ids m)
     \<and> (\<forall>a \<in> set (m_channels m). m_channelMap m (c_channelId (heap m a)) = Some a)
     \<and> \<not> m_mutex m
     \<and> lock_violations m = 0"

text \<open>
  A well-formed mixer state: the registry invariant, no two channel objects ever created
  share an identifier, and the list and the caller only hold addresses of created objects.
\<close>

definition mixer_wf :: "WebAudioMixer \<Rightarrow> bool" where
  "mixer_wf m \<longleftrightarrow>
     registry_consistent m
     \<and> distinct (map (\<lambda>a. c_channelId (heap m a)) [0..<allocated m])
     \<and> (\<forall>a \<in> set (m_channels m). a < allocated m)
     \<and> (\<forall>a \<in> set (held m). a < allocated m)"

text \<open>
  The invariant behind it, with the number \<open>n\<close> of channels created so far: the object at
  address \<open>a\<close> carries the identifier \<open>a + 1\<close> (modulo \<open>2 ^ 32\<close>).
\<close>

definition mixer_inv :: "nat \<Rightarrow> WebAudioMixer \<Rightarrow> bool" where
  "mixer_inv n m \<longleftrightarrow>
     allocated m = n
     \<and> m_nextChannelId m = word_of_nat (Suc n)
     \<and> (\<forall>a < n. c_channelId (heap m a) = word_of_nat (Suc a))
     \<and> distinct (m_channels m)
     \<and> (\<forall>a \<in> set (m_channels m). a < n)
     \<and> (\<forall>a \<in> set (held m). a < n)
     \<and> (\<forall>i a. m_channelMap m i = Some a \<longleftrightarrow> a \<in> set (m_channels m) \<and> i = word_of_nat (Suc a))
     \<and> \<not> m_mutex m
     \<and> lock_violations m = 0
     \<and> n \<le> 2 ^ 32"

text \<open>
  What holds of the list and the registry in every state a sequence of calls reaches, also
  after the identifier counter has wrapped: the list holds each channel once, the list and
  the caller hold addresses of created objects only, every registry entry points to a live
  channel that carries the key as its identifier, the mutex is free between calls, and no
  container was changed without the mutex.
\<close>

definition registry_sound :: "WebAudioMixer \<Rightarrow> bool" where
  "registry_sound m \<longleftrightarrow>
     distinct (m_channels m)
     \<and> (\<forall>a \<in> set (m_channels m). a < allocated m)
     \<and> (\<forall>a \<in> set (held m). a < allocated m)
     \<and> (\<forall>i a. m_channelMap m i = Some a \<longrightarrow>
            a \<in> set (m_channels m) \<and> c_channelId (heap m a) = i)
     \<and> \<not> m_mutex m
     \<and> lock_violations m = 0"

text \<open>
  The cached perceptual curves agree with the cached settings (the initial setting \<open>-1\<close>
  stands for "not computed yet").
\<close>

definition adjust_cache_ok :: "WebAudioMixer \<Rightarrow> bool" where
  "adjust_cache_ok m \<longleftrightarrow>
     (m_settingSoundVolume m = - 1 \<or> m_adjustSoundVolume m = perceptual (m_settingSoundVolume m))
     \<and> (m_settingMusicVolume m = - 1 \<or> m_adjustMusicVolume m = perceptual (m_settingMusicVolume m))"

text \<open>
  The effective volume as the specification gives it: channel volume \<times> master scalar \<times>
  master volume (or 0 when sound is disabled) \<times> the perceptual curve of the channel's
  category, the product of the three factors capped at 0.75 for the Sound category in the
  title sequence, over the maximal volume.
\<close>

definition categoryAdjust :: "Environment \<Rightarrow> MixerGroup \<Rightarrow> real" where
  "categoryAdjust env g =
     (case g of
        Sound \<Rightarrow> perceptual (soundVolume env)
      | RideMusic \<Rightarrow> perceptual (rideMusicVolume env)
      | TitleMusic \<Rightarrow> perceptual (rideMusicVolume env))"

definition effective_volume :: "Environment \<Rightarrow> real \<Rightarrow> WebAudioChannel \<Rightarrow> real" where
  "effective_volume env masterScalar channel =
     (let gain = masterScalar
                 * (if masterSoundEnabled env then real_of_int (masterVolume env) / 100 else 0)
                 * categoryAdjust env (c_group channel);
          capped = (if titleSequence env \<and> c_group channel = Sound then min gain 0.75 else gain)
      in real_of_int (c_volume channel) * capped / real_of_int (kMixerVolumeMax env))"

text \<open>
  The reasons for which \<open>Play\<close> is specified to return no channel: a null source, a source
  of another concrete type, a failed conversion to 16-bit samples, a non-positive channel
  count, or no frame at all. \<open>decoded\<close> is the format and the float samples otherwise;
  \<open>sample_count\<close> is the number of these samples.
\<close>

definition decoded :: "Environment \<Rightarrow> IAudioSource option \<Rightarrow> (AudioFormat \<times> real list) option" where
  "decoded env source =
     (case source of
        None \<Rightarrow> None
      | Some src \<Rightarrow>
        (case dynamic_cast_SDLAudioSource src of
           None \<Rightarrow> None
         | Some s \<Rightarrow>
           if format (src_format s) = AUDIO_S16SYS \<or> format (src_format s) = AUDIO_U8
           then Some (src_format s, ConvertToFloat (src_format s) (ReadAllPcmData s))
           else (case ConvertToS16 env (src_format s) (ReadAllPcmData s) of
                   None \<Rightarrow> None
                 | Some (fmt, pcm) \<Rightarrow> Some (fmt, ConvertToFloat fmt pcm))))"

definition source_incompatible :: "IAudioSource option \<Rightarrow> bool" where
  "source_incompatible source =
     (case source of
        None \<Rightarrow> False
      | Some src \<Rightarrow> dynamic_cast_SDLAudioSource src = None)"

definition conversion_fails :: "Environment \<Rightarrow> IAudioSource option \<Rightarrow> bool" where
  "conversion_fails env source =
     (case source of
        None \<Rightarrow> False
      | Some src \<Rightarrow>
        (case dynamic_cast_SDLAudioSource src of
           None \<Rightarrow> False
         | Some s \<Rightarrow>
             format (src_format s) \<noteq> AUDIO_S16SYS \<and> format (src_format s) \<noteq> AUDIO_U8
             \<and> ConvertToS16 env (src_format s) (ReadAllPcmData s) = None))"

definition Play_rejects :: "Environment \<Rightarrow> IAudioSource option \<Rightarrow> bool" where
  "Play_rejects env source \<longleftrightarrow>
     source = None
     \<or> source_incompatible source
     \<or> conversion_fails env source
     \<or> (case decoded env source of
           None \<Rightarrow> False
         | Some (fmt, floatData) \<Rightarrow>
             channels fmt \<le> 0 \<or> length floatData div nat (channels fmt) = 0)"

definition sample_count :: "Environment \<Rightarrow> IAudioSource option \<Rightarrow> nat" where
  "sample_count env source =
     (case decoded env source of None \<Rightarrow> 0 | Some (fmt, floatData) \<Rightarrow> length floatData)"

text \<open>
  What one \<open>Tick\<close> sends, channel by channel in list order: a stop command for a channel
  flagged stopping, else a parameter update for a channel that is not done.
\<close>

definition update_command :: "Environment \<Rightarrow> WebAudioMixer \<Rightarrow> nat \<Rightarrow> BackendCommand" where
  "update_command env m a =
     (let channel = heap m a;
          bytesPerSecond = GetBytesPerSecond (c_format channel)
      in WebAudioUpdateChannel (c_channelId channel) (c_rate channel)
           (GetAdjustedVolume env (UpdateAdjustedSound env m) channel) (c_pan channel)
           (if bytesPerSecond > 0
            then Finite (real (unat (c_offsetBytes channel)) / real_of_int bytesPerSecond)
            else Finite 0) 0)"

definition tick_command :: "Environment \<Rightarrow> WebAudioMixer \<Rightarrow> nat \<Rightarrow> BackendCommand list" where
  "tick_command env m a =
     (if c_stopping (heap m a) then [WebAudioStopChannel (c_channelId (heap m a))]
      else if \<not> c_done (heap m a) then [update_command env m a] else [])"

definition Tick_commands :: "Environment \<Rightarrow> WebAudioMixer \<Rightarrow> BackendCommand list" where
  "Tick_commands env m = concat (map (tick_command env m) (m_channels m))"

text \<open>
  Two notions for the proofs about the loop of \<open>Tick\<close>. \<open>settled\<close>: the cached settings are
  those of the environment, so that \<open>UpdateAdjustedSound\<close> changes nothing. \<open>reap\<close>: what the
  loop does to a channel flagged stopping, when the mutex is held.
\<close>

definition settled :: "Environment \<Rightarrow> WebAudioMixer \<Rightarrow> bool" where
  "settled env m \<longleftrightarrow>
     m_settingSoundVolume m = soundVolume env \<and> m_settingMusicVolume m = rideMusicVolume env"

definition reap :: "nat list \<Rightarrow> nat \<Rightarrow> WebAudioMixer \<Rightarrow> WebAudioMixer" where
  "reap remaining a m =
     m\<lparr>backend := backend m @ [WebAudioStopChannel (c_channelId (heap m a))],
       heap := (heap m)(a := (heap m a)\<lparr>c_done := True\<rparr>),
       m_channelMap := (m_channelMap m)(c_channelId (heap m a) := None),
       m_channels := remaining\<rparr>"

subsection \<open>Example inputs\<close>

definition example_env :: Environment where
  "example_env =
     \<lparr>soundVolume = 100, rideMusicVolume = 100, masterVolume = 100,
      masterSoundEnabled = True, titleSequence = False, kMixerVolumeMax = 128,
      WebAudioGetOffsetSeconds = (\<lambda>_. 0), SDL_ConvertAudio = (\<lambda>_ _. None)\<rparr>"

text \<open>One frame of 16-bit stereo silence at 44100 Hz.\<close>

definition silence :: IAudioSource where
  "silence =
     SDLSource \<lparr>src_format = \<lparr>freq = 44100, format = AUDIO_S16SYS, channels = 2\<rparr>,
                src_pcm = [0, 0, 0, 0], src_released = False\<rparr>"

text \<open>One 16-bit mono sample whose format carries the sample rate 0.\<close>

definition rateless :: IAudioSource where
  "rateless =
     SDLSource \<lparr>src_format = \<lparr>freq = 0, format = AUDIO_S16SYS, channels = 1\<rparr>,
                src_pcm = [0, 0], src_released = False\<rparr>"

text \<open>
  \<open>churn base n\<close>: \<open>n\<close> rounds of a \<open>Play\<close> followed by the completion callback for the
  channel just started, when \<open>base\<close> channels were created before.
\<close>

fun churn :: "nat \<Rightarrow> nat \<Rightarrow> (Environment \<times> Operation) list" where
  "churn base 0 = []"
| "churn base (Suc n) =
     churn base n @ [(example_env, OpPlay (Some silence) 0 False),
                     (example_env, OpOnChannelEnded (word_of_nat (base + Suc n)))]"

text \<open>
  A long session: a first channel is started and stays live, \<open>2 ^ 32 - 1\<close> further
  channels are started and complete one after the other, then one more channel is started.
\<close>

definition long_session :: "(Environment \<times> Operation) list" where
  "long_session =
     (example_env, OpPlay (Some silence) 0 False) # churn 1 (2 ^ 32 - 1)
       @ [(example_env, OpPlay (Some silence) 0 False)]"


text \<open>
  The state in the middle of the long session, after \<open>k\<close> of its rounds: only the first
  channel (address 0, identifier 1) is live and registered.
\<close>

definition first_alone :: "nat \<Rightarrow> WebAudioMixer \<Rightarrow> bool" where
  "first_alone k m \<longleftrightarrow>
     m_channels m = [0] \<and> m_channelMap m = [1 \<mapsto> 0] \<and> c_channelId (heap m 0) = 1
     \<and> \<not> c_stopping (heap m 0) \<and> \<not> c_done (heap m 0)
     \<and> allocated m = Suc k \<and> m_nextChannelId m = word_of_nat (k + 2)"

section \<open>Proofs\<close>

subsection \<open>What each primitive changes\<close>

lemma lock_guard_fields [simp]:
  "m_nextChannelId (lock_guard m) = m_nextChannelId m"
  "m_volume (lock_guard m) = m_volume m"
  "m_settingSoundVolume (lock_guard m) = m_settingSoundVolume m"
  "m_settingMusicVolume (lock_guard m) = m_settingMusicVolume m"
  "m_adjustSoundVolume (lock_guard m) = m_adjustSoundVolume m"
  "m_adjustMusicVolume (lock_guard m) = m_adjustMusicVolume m"
  "m_mutex (lock_guard m) = True"
  "m_channels (lock_guard m) = m_channels m"
  "m_channelMap (lock_guard m) = m_channelMap m"
  "m_sources (lock_guard m) = m_sources m"
  "heap (lock_guard m) = heap m"
  "allocated (lock_guard m) = allocated m"
  "held (lock_guard m) = held m"
  "backend (lock_guard m) = backend m"
  "lock_violations (lock_guard m) = (if m_mutex m then Suc (lock_violations m) else lock_violations m)"
  by (simp_all add: lock_guard_def)

lemma unlock_fields [simp]:
  "m_nextChannelId (unlock m) = m_nextChannelId m"
  "m_volume (unlock m) = m_volume m"
  "m_settingSoundVolume (unlock m) = m_settingSoundVolume m"
  "m_settingMusicVolume (unlock m) = m_settingMusicVolume m"
  "m_adjustSoundVolume (unlock m) = m_adjustSoundVolume m"
  "m_adjustMusicVolume (unlock m) = m_adjustMusicVolume m"
  "m_mutex (unlock m) = False"
  "m_channels (unlock m) = m_channels m"
  "m_channelMap (unlock m) = m_channelMap m"
  "m_sources (unlock m) = m_sources m"
  "heap (unlock m) = heap m"
  "allocated (unlock m) = allocated m"
  "held (unlock m) = held m"
  "backend (unlock m) = backend m"
  "lock_violations (unlock m) = lock_violations m"
  by (simp_all add: unlock_def)

lemma structural_fields [simp]:
  "m_nextChannelId (structural m) = m_nextChannelId m"
  "m_volume (structural m) = m_volume m"
  "m_settingSoundVolume (structural m) = m_settingSoundVolume m"
  "m_settingMusicVolume (structural m) = m_settingMusicVolume m"
  "m_adjustSoundVolume (structural m) = m_adjustSoundVolume m"
  "m_adjustMusicVolume (structural m) = m_adjustMusicVolume m"
  "m_mutex (structural m) = m_mutex m"
  "m_channels (structural m) = m_channels m"
  "m_channelMap (structural m) = m_channelMap m"
  "m_sources (structural m) = m_sources m"
  "heap (structural m) = heap m"
  "allocated (structural m) = allocated m"
  "held (structural m) = held m"
  "backend (structural m) = backend m"
  "lock_violations (structural m) = (if m_mutex m then lock_violations m else Suc (lock_violations m))"
  by (simp_all add: structural_def)

lemma emit_fields [simp]:
  "m_nextChannelId (emit cmd m) = m_nextChannelId m"
  "m_volume (emit cmd m) = m_volume m"
  "m_settingSoundVolume (emit cmd m) = m_settingSoundVolume m"
  "m_settingMusicVolume (emit cmd m) = m_settingMusicVolume m"
  "m_adjustSoundVolume (emit cmd m) = m_adjustSoundVolume m"
  "m_adjustMusicVolume (emit cmd m) = m_adjustMusicVolume m"
  "m_mutex (emit cmd m) = m_mutex m"
  "m_channels (emit cmd m) = m_channels m"
  "m_channelMap (emit cmd m) = m_channelMap m"
  "m_sources (emit cmd m) = m_sources m"
  "heap (emit cmd m) = heap m"
  "allocated (emit cmd m) = allocated m"
  "held (emit cmd m) = held m"
  "backend (emit cmd m) = backend m @ [cmd]"
  "lock_violations (emit cmd m) = lock_violations m"
  by (simp_all add: emit_def)

lemma modify_fields [simp]:
  "m_nextChannelId (modify a f m) = m_nextChannelId m"
  "m_volume (modify a f m) = m_volume m"
  "m_settingSoundVolume (modify a f m) = m_settingSoundVolume m"
  "m_settingMusicVolume (modify a f m) = m_settingMusicVolume m"
  "m_adjustSoundVolume (modify a f m) = m_adjustSoundVolume m"
  "m_adjustMusicVolume (modify a f m) = m_adjustMusicVolume m"
  "m_mutex (modify a f m) = m_mutex m"
  "m_channels (modify a f m) = m_channels m"
  "m_channelMap (modify a f m) = m_channelMap m"
  "m_sources (modify a f m) = m_sources m"
  "heap (modify a f m) = (heap m)(a := f (heap m a))"
  "allocated (modify a f m) = allocated m"
  "held (modify a f m) = held m"
  "backend (modify a f m) = backend m"
  "lock_violations (modify a f m) = lock_violations m"
  by (simp_all add: modify_def)

lemma RegisterChannel_fields [simp]:
  "m_nextChannelId (RegisterChannel i a m) = m_nextChannelId m"
  "m_volume (RegisterChannel i a m) = m_volume m"
  "m_settingSoundVolume (RegisterChannel i a m) = m_settingSoundVolume m"
  "m_settingMusicVolume (RegisterChannel i a m) = m_settingMusicVolume m"
  "m_adjustSoundVolume (RegisterChannel i a m) = m_adjustSoundVolume m"
  "m_adjustMusicVolume (RegisterChannel i a m) = m_adjustMusicVolume m"
  "m_mutex (RegisterChannel i a m) = m_mutex m"
  "m_channels (RegisterChannel i a m) = m_channels m"
  "m_channelMap (RegisterChannel i a m) = (m_channelMap m)(i \<mapsto> a)"
  "m_sources (RegisterChannel i a m) = m_sources m"
  "heap (RegisterChannel i a m) = heap m"
  "allocated (RegisterChannel i a m) = allocated m"
  "held (RegisterChannel i a m) = held m"
  "backend (RegisterChannel i a m) = backend m"
  "lock_violations (RegisterChannel i a m) = (if m_mutex m then lock_violations m else Suc (lock_violations m))"
  by (simp_all add: RegisterChannel_def structural_def)

lemma RemoveChannel_fields [simp]:
  "m_nextChannelId (RemoveChannel i m) = m_nextChannelId m"
  "m_volume (RemoveChannel i m) = m_volume m"
  "m_settingSoundVolume (RemoveChannel i m) = m_settingSoundVolume m"
  "m_settingMusicVolume (RemoveChannel i m) = m_settingMusicVolume m"
  "m_adjustSoundVolume (RemoveChannel i m) = m_adjustSoundVolume m"
  "m_adjustMusicVolume (RemoveChannel i m) = m_adjustMusicVolume m"
  "m_mutex (RemoveChannel i m) = m_mutex m"
  "m_channels (RemoveChannel i m) = m_channels m"
  "m_channelMap (RemoveChannel i m) = (m_channelMap m)(i := None)"
  "m_sources (RemoveChannel i m) = m_sources m"
  "heap (RemoveChannel i m) = heap m"
  "allocated (RemoveChannel i m) = allocated m"
  "held (RemoveChannel i m) = held m"
  "backend (RemoveChannel i m) = backend m"
  "lock_violations (RemoveChannel i m) = (if m_mutex m then lock_violations m else Suc (lock_violations m))"
  by (simp_all add: RemoveChannel_def structural_def)

lemma push_back_channel_fields [simp]:
  "m_nextChannelId (push_back_channel a m) = m_nextChannelId m"
  "m_volume (push_back_channel a m) = m_volume m"
  "m_settingSoundVolume (push_back_channel a m) = m_settingSoundVolume m"
  "m_settingMusicVolume (push_back_channel a m) = m_settingMusicVolume m"
  "m_adjustSoundVolume (push_back_channel a m) = m_adjustSoundVolume m"
  "m_adjustMusicVolume (push_back_channel a m) = m_adjustMusicVolume m"
  "m_mutex (push_back_channel a m) = m_mutex m"
  "m_channels (push_back_channel a m) = m_channels m @ [a]"
  "m_channelMap (push_back_channel a m) = m_channelMap m"
  "m_sources (push_back_channel a m) = m_sources m"
  "heap (push_back_channel a m) = heap m"
  "allocated (push_back_channel a m) = allocated m"
  "held (push_back_channel a m) = held m"
  "backend (push_back_channel a m) = backend m"
  "lock_violations (push_back_channel a m) = (if m_mutex m then lock_violations m else Suc (lock_violations m))"
  by (simp_all add: push_back_channel_def structural_def)

lemma sweep_sources_fields [simp]:
  "m_nextChannelId (sweep_sources m) = m_nextChannelId m"
  "m_volume (sweep_sources m) = m_volume m"
  "m_settingSoundVolume (sweep_sources m) = m_settingSoundVolume m"
  "m_settingMusicVolume (sweep_sources m) = m_settingMusicVolume m"
  "m_adjustSoundVolume (sweep_sources m) = m_adjustSoundVolume m"
  "m_adjustMusicVolume (sweep_sources m) = m_adjustMusicVolume m"
  "m_mutex (sweep_sources m) = m_mutex m"
  "m_channels (sweep_sources m) = m_channels m"
  "m_channelMap (sweep_sources m) = m_channelMap m"
  "m_sources (sweep_sources m) = filter (\<lambda>source. \<not> src_released source) (m_sources m)"
  "heap (sweep_sources m) = heap m"
  "allocated (sweep_sources m) = allocated m"
  "held (sweep_sources m) = held m"
  "backend (sweep_sources m) = backend m"
  "lock_violations (sweep_sources m) = (if m_mutex m then lock_violations m else Suc (lock_violations m))"
  by (simp_all add: sweep_sources_def structural_def)

lemma UpdateAdjustedSound_fields [simp]:
  "m_nextChannelId (UpdateAdjustedSound env m) = m_nextChannelId m"
  "m_volume (UpdateAdjustedSound env m) = m_volume m"
  "m_settingSoundVolume (UpdateAdjustedSound env m) = soundVolume env"
  "m_settingMusicVolume (UpdateAdjustedSound env m) = rideMusicVolume env"
  "m_mutex (UpdateAdjustedSound env m) = m_mutex m"
  "m_channels (UpdateAdjustedSound env m) = m_channels m"
  "m_channelMap (UpdateAdjustedSound env m) = m_channelMap m"
  "m_sources (UpdateAdjustedSound env m) = m_sources m"
  "heap (UpdateAdjustedSound env m) = heap m"
  "allocated (UpdateAdjustedSound env m) = allocated m"
  "held (UpdateAdjustedSound env m) = held m"
  "backend (UpdateAdjustedSound env m) = backend m"
  "lock_violations (UpdateAdjustedSound env m) = lock_violations m"
  by (simp_all add: UpdateAdjustedSound_def Let_def)

lemma UpdateChannel_fields [simp]:
  "m_nextChannelId (UpdateChannel env a r m) = m_nextChannelId m"
  "m_volume (UpdateChannel env a r m) = m_volume m"
  "m_mutex (UpdateChannel env a r m) = m_mutex m"
  "m_channels (UpdateChannel env a r m) = m_channels m"
  "m_channelMap (UpdateChannel env a r m) = m_channelMap m"
  "m_sources (UpdateChannel env a r m) = m_sources m"
  "heap (UpdateChannel env a r m) = heap m"
  "allocated (UpdateChannel env a r m) = allocated m"
  "held (UpdateChannel env a r m) = held m"
  "lock_violations (UpdateChannel env a r m) = lock_violations m"
  by (simp_all add: UpdateChannel_def emit_def Let_def)

lemma UpdateAdjustedSound_adjust [simp]:
  "m_adjustSoundVolume (UpdateAdjustedSound env m) =
     (if m_settingSoundVolume m \<noteq> soundVolume env then perceptual (soundVolume env)
      else m_adjustSoundVolume m)"
  "m_adjustMusicVolume (UpdateAdjustedSound env m) =
     (if m_settingMusicVolume m \<noteq> rideMusicVolume env then perceptual (rideMusicVolume env)
      else m_adjustMusicVolume m)"
  by (simp_all add: UpdateAdjustedSound_def Let_def)

lemma GetAdjustedVolume_cong:
  assumes "m_volume m' = m_volume m" "m_adjustSoundVolume m' = m_adjustSoundVolume m"
    "m_adjustMusicVolume m' = m_adjustMusicVolume m"
  shows "GetAdjustedVolume env m' c = GetAdjustedVolume env m c"
  unfolding GetAdjustedVolume_def assms by (rule refl)

lemma UpdateChannel_done: "c_done (heap m a) \<Longrightarrow> UpdateChannel env a r m = m"
  by (simp add: UpdateChannel_def)

lemma make_shared_eq:
  "make_shared_WebAudioChannel env channelId m =
     (m\<lparr>heap := (heap m)(allocated m := fresh_channel env channelId),
        allocated := Suc (allocated m)\<rparr>, allocated m)"
  by (simp add: make_shared_WebAudioChannel_def Let_def SetRate_def SetVolume_channel_def
      SetPan_def UpdateChannel_done WebAudioChannel_fields_def modify_def fresh_channel_def
      clamp_def pan_gains_def)

lemma Play_locked_snd:
  "snd (Play_locked env source loop dod fmt fd chans frames m) = Some (allocated m)"
  by (simp add: Play_locked_def Let_def make_shared_eq)

lemma Play_locked_fields:
  "m_nextChannelId (fst (Play_locked env source loop dod fmt fd chans frames m)) = m_nextChannelId m + 1"
  "m_mutex (fst (Play_locked env source loop dod fmt fd chans frames m)) = False"
  "m_channels (fst (Play_locked env source loop dod fmt fd chans frames m)) = m_channels m @ [allocated m]"
  "m_channelMap (fst (Play_locked env source loop dod fmt fd chans frames m))
     = (m_channelMap m)(m_nextChannelId m \<mapsto> allocated m)"
  "m_sources (fst (Play_locked env source loop dod fmt fd chans frames m)) = m_sources m"
  "allocated (fst (Play_locked env source loop dod fmt fd chans frames m)) = Suc (allocated m)"
  "held (fst (Play_locked env source loop dod fmt fd chans frames m)) = allocated m # held m"
  "m_volume (fst (Play_locked env source loop dod fmt fd chans frames m)) = m_volume m"
  "lock_violations (fst (Play_locked env source loop dod fmt fd chans frames m))
     = (if m_mutex m then Suc (lock_violations m) else lock_violations m)"
  by (simp_all add: Play_locked_def Let_def make_shared_eq SetFormat_def Play_channel_def
      SetDeleteOnDone_def)

lemma Play_locked_heap:
  "heap (fst (Play_locked env source loop dod fmt fd chans frames m))
     = (heap m)(allocated m := started_channel env (m_nextChannelId m) source fmt loop dod)"
  by (simp add: Play_locked_def Let_def make_shared_eq SetFormat_def Play_channel_def
      SetDeleteOnDone_def started_channel_def)

lemma Play_locked_backend:
  "backend (fst (Play_locked env source loop dod fmt fd chans frames m))
     = backend m @
       [WebAudioPlayChannel (m_nextChannelId m) chans frames (freq fmt) fd loop 1
          (GetAdjustedVolume env (UpdateAdjustedSound env m)
             (started_channel env (m_nextChannelId m) source fmt loop dod))
          (1 / 2) (double_div 0 (real_of_int (GetBytesPerSecond fmt)))]"
  apply (simp add: Play_locked_def Let_def make_shared_eq SetFormat_def Play_channel_def
      SetDeleteOnDone_def started_channel_def fresh_channel_def)
  apply (rule GetAdjustedVolume_cong; simp)
  done

subsection \<open>Validation in Play\<close>

lemma Play_decoded:
  "Play env source loop dod m =
     (case decoded env source of
        None \<Rightarrow> (m, None)
      | Some (fmt, fd) \<Rightarrow>
          if channels fmt \<le> 0 \<or> frame_count fd (channels fmt) \<le> 0 then (m, None)
          else Play_locked env source loop dod fmt fd (channels fmt)
                 (frame_count fd (channels fmt)) m)"
  by (auto simp: Play_def decoded_def Let_def split: option.splits)

lemma frame_count_exact:
  assumes "length fd < 2 ^ 31"
  shows "frame_count fd chans = int (length fd div nat chans)"
proof -
  have "length fd div nat chans \<le> length fd" by (rule div_le_dividend)
  then have lt: "length fd div nat chans < 2 ^ 31" using assms by linarith
  have "int (length fd div nat chans) < 2 ^ 31" using lt by (simp flip: of_nat_less_iff)
  moreover have "- (2 ^ 31) \<le> int (length fd div nat chans)"
    by (rule order_trans [of _ 0]) simp_all
  ultimately have "signed_take_bit 31 (int (length fd div nat chans)) = int (length fd div nat chans)"
    by (rule signed_take_bit_int_eq_self [rotated])
  then show ?thesis
    unfolding frame_count_def by (simp add: signed_of_nat)
qed

lemma decoded_None_iff:
  "decoded env source = None
     \<longleftrightarrow> source = None \<or> source_incompatible source \<or> conversion_fails env source"
  by (auto simp: decoded_def source_incompatible_def conversion_fails_def
      split: option.splits if_splits)

lemma Play_rejects_iff:
  assumes "sample_count env source < 2 ^ 31"
  shows "snd (Play env source loop dod m) = None \<longleftrightarrow> Play_rejects env source"
proof (cases "decoded env source")
  case None
  then show ?thesis
    using decoded_None_iff [of env source] by (simp add: Play_decoded Play_rejects_def)
next
  case (Some p)
  obtain fmt fd where p: "p = (fmt, fd)" by (cases p)
  have "length fd < 2 ^ 31" using assms Some p by (simp add: sample_count_def)
  then have "frame_count fd (channels fmt) = int (length fd div nat (channels fmt))"
    by (rule frame_count_exact)
  moreover have "\<not> (source = None \<or> source_incompatible source \<or> conversion_fails env source)"
    using decoded_None_iff [of env source] Some by simp
  ultimately show ?thesis
    using Some p by (simp add: Play_decoded Play_rejects_def Play_locked_snd)
qed

lemma Play_None_unchanged:
  "snd (Play env source loop dod m) = None \<Longrightarrow> fst (Play env source loop dod m) = m"
  by (auto simp: Play_decoded Play_locked_snd split: option.splits if_splits)

text \<open>
  Claim C2. \<open>Play\<close> returns no channel exactly when the source is null, is not an
  \<open>SDLAudioSource\<close>, cannot be converted to 16-bit samples, has a non-positive channel count
  or has no frame; and then nothing was created: the whole mixer state (list, registry,
  identifier counter, backend log) is the one before the call.

  The first conjunct is the code's own test, for every input: the frame count is an
  \<open>int32_t\<close> and the test is \<open>frames <= 0\<close>. The third conjunct is the claim's wording (no
  frame at all); it agrees with the code's test when the decoded samples are fewer than
  \<open>2 ^ 31\<close>, which every buffer of a 32-bit address space is.
\<close>

theorem Play_fails_silently:
  "(snd (Play env source loop dod m) = None \<longleftrightarrow>
      (case decoded env source of
         None \<Rightarrow> True
       | Some (fmt, floatData) \<Rightarrow>
           channels fmt \<le> 0 \<or> frame_count floatData (channels fmt) \<le> 0))
   \<and> (snd (Play env source loop dod m) = None \<longrightarrow> Play env source loop dod m = (m, None))
   \<and> (sample_count env source < 2 ^ 31 \<longrightarrow>
        (snd (Play env source loop dod m) = None \<longleftrightarrow> Play_rejects env source))"
proof (intro conjI impI)
  show "snd (Play env source loop dod m) = None \<longleftrightarrow>
      (case decoded env source of
         None \<Rightarrow> True
       | Some (fmt, floatData) \<Rightarrow>
           channels fmt \<le> 0 \<or> frame_count floatData (channels fmt) \<le> 0)"
    by (auto simp: Play_decoded Play_locked_snd split: option.splits)
  show "Play env source loop dod m = (m, None)" if "snd (Play env source loop dod m) = None"
    using that Play_None_unchanged [OF that] by (simp add: prod_eq_iff)
  show "snd (Play env source loop dod m) = None \<longleftrightarrow> Play_rejects env source"
    if "sample_count env source < 2 ^ 31"
    using that by (rule Play_rejects_iff)
qed

lemma decoded_silence:
  "decoded env (Some silence)
     = Some (\<lparr>freq = 44100, format = AUDIO_S16SYS, channels = 2\<rparr>, [0, 0])"
  by (simp add: decoded_def silence_def ConvertToFloat_def ReadAllPcmData_def)

lemma decoded_rateless:
  "decoded env (Some rateless) = Some (\<lparr>freq = 0, format = AUDIO_S16SYS, channels = 1\<rparr>, [0])"
  by (simp add: decoded_def rateless_def ConvertToFloat_def ReadAllPcmData_def)

lemma Play_silence:
  "Play env (Some silence) loop dod m =
     Play_locked env (Some silence) loop dod \<lparr>freq = 44100, format = AUDIO_S16SYS, channels = 2\<rparr>
       [0, 0] 2 1 m"
  by (simp add: Play_decoded decoded_silence frame_count_def)

lemma Play_rateless:
  "Play env (Some rateless) loop dod m =
     Play_locked env (Some rateless) loop dod \<lparr>freq = 0, format = AUDIO_S16SYS, channels = 1\<rparr>
       [0] 1 1 m"
  by (simp add: Play_decoded decoded_rateless frame_count_def)

text \<open>
  A null source is rejected and leaves the fresh mixer as it is; one frame of silence is
  accepted.
\<close>

theorem Play_fails_silently_witness:
  "sample_count example_env None < 2 ^ 31
   \<and> Play_rejects example_env None
   \<and> Play example_env None 0 False WebAudioMixer_new = (WebAudioMixer_new, None)
   \<and> sample_count example_env (Some silence) < 2 ^ 31
   \<and> \<not> Play_rejects example_env (Some silence)
   \<and> snd (Play example_env (Some silence) 0 False WebAudioMixer_new) \<noteq> None"
proof -
  have a: "sample_count example_env None < 2 ^ 31"
    by (simp add: sample_count_def decoded_def)
  have b: "sample_count example_env (Some silence) < 2 ^ 31"
    by (simp add: sample_count_def decoded_silence)
  have c: "Play_rejects example_env None" by (simp add: Play_rejects_def)
  have d: "\<not> Play_rejects example_env (Some silence)"
    using decoded_None_iff [of example_env "Some silence"]
    by (simp add: Play_rejects_def decoded_silence)
  note null = Play_fails_silently [of example_env None 0 False WebAudioMixer_new]
  note good = Play_fails_silently [of example_env "Some silence" 0 False WebAudioMixer_new]
  have "snd (Play example_env None 0 False WebAudioMixer_new) = None"
    using null [THEN conjunct2, THEN conjunct2, rule_format, OF a] c by simp
  then have e: "Play example_env None 0 False WebAudioMixer_new = (WebAudioMixer_new, None)"
    by (rule null [THEN conjunct2, THEN conjunct1, rule_format])
  have f: "snd (Play example_env (Some silence) 0 False WebAudioMixer_new) \<noteq> None"
    using good [THEN conjunct2, THEN conjunct2, rule_format, OF b] d by simp
  show ?thesis using a b c d e f by (intro conjI)
qed

subsection \<open>Pan\<close>

lemma pan_gains_mirror: "fst (pan_gains q) = snd (pan_gains (1 - q))"
  by (simp add: pan_gains_def Let_def abs_minus_commute)

lemma clamp_mirror: "clamp (1 - p) 0 1 = 1 - clamp p 0 (1::real)"
  by (simp add: clamp_def)

text \<open>
  Claim C5. \<open>SetPan(p)\<close> stores the pan clamped to \<open>[0, 1]\<close>: \<open>p\<close> itself when
  \<open>0 \<le> p \<le> 1\<close>, 0 for a smaller and 1 for a larger argument. With the attenuation
  \<open>|pan - 0.5| \<times> 2 \<times> 100\<close> dB of the stored pan and the linear gain \<open>10 ^ (attenuation / 20)\<close>,
  the side the pan leans toward gets gain 1 and the other side the inverse of the linear
  gain. The left gain at \<open>p\<close> is the right gain at \<open>1 - p\<close>, and both gains are 1 at the
  centre. (Gains as real numbers.)
\<close>

theorem SetPan_pan_law:
  "0 \<le> c_pan (heap (SetPan env a p m) a)
   \<and> c_pan (heap (SetPan env a p m) a) \<le> 1
   \<and> (0 \<le> p \<and> p \<le> 1 \<longrightarrow> c_pan (heap (SetPan env a p m) a) = p)
   \<and> (p < 0 \<longrightarrow> c_pan (heap (SetPan env a p m) a) = 0)
   \<and> (1 < p \<longrightarrow> c_pan (heap (SetPan env a p m) a) = 1)
   \<and> c_pan (heap (SetPan env a p m) a) = max 0 (min 1 p)
   \<and> c_pan (heap (SetPan env a p m) a) = clamp p 0 1
   \<and> c_volume_l (heap (SetPan env a p m) a) =
       (if max 0 (min 1 p) \<le> 1 / 2 then 1
        else 1 / 10 powr (\<bar>max 0 (min 1 p) - 1 / 2\<bar> * 2 * 100 / 20))
   \<and> c_volume_r (heap (SetPan env a p m) a) =
       (if max 0 (min 1 p) \<le> 1 / 2 then 1 / 10 powr (\<bar>max 0 (min 1 p) - 1 / 2\<bar> * 2 * 100 / 20)
        else 1)
   \<and> c_volume_l (heap (SetPan env a p m) a) =
       (if clamp p 0 1 \<le> 1 / 2 then 1
        else 1 / 10 powr (\<bar>clamp p 0 1 - 1 / 2\<bar> * 2 * 100 / 20))
   \<and> c_volume_r (heap (SetPan env a p m) a) =
       (if clamp p 0 1 \<le> 1 / 2 then 1 / 10 powr (\<bar>clamp p 0 1 - 1 / 2\<bar> * 2 * 100 / 20)
        else 1)
   \<and> c_volume_l (heap (SetPan env a p m) a) = c_volume_r (heap (SetPan env' a' (1 - p) m') a')
   \<and> c_volume_l (heap (SetPan env a (1 / 2) m) a) = 1
   \<and> c_volume_r (heap (SetPan env a (1 / 2) m) a) = 1"
proof -
  have c: "clamp p 0 1 = max 0 (min 1 p)" by (simp add: clamp_def max_def min_def)
  have pan: "c_pan (heap (SetPan env a p m) a) = max 0 (min 1 p)"
    by (simp add: SetPan_def Let_def c)
  have l: "c_volume_l (heap (SetPan env a p m) a) = fst (pan_gains (max 0 (min 1 p)))"
    by (simp add: SetPan_def Let_def c)
  have r: "c_volume_r (heap (SetPan env a p m) a) = snd (pan_gains (max 0 (min 1 p)))"
    by (simp add: SetPan_def Let_def c)
  have r': "c_volume_r (heap (SetPan env' a' (1 - p) m') a') = snd (pan_gains (1 - clamp p 0 1))"
    by (simp add: SetPan_def Let_def clamp_mirror)
  have mirror: "c_volume_l (heap (SetPan env a p m) a)
                = c_volume_r (heap (SetPan env' a' (1 - p) m') a')"
    unfolding l r' c [symmetric] by (simp add: pan_gains_mirror)
  have centre: "c_volume_l (heap (SetPan env a (1 / 2) m) a) = 1"
      "c_volume_r (heap (SetPan env a (1 / 2) m) a) = 1"
    by (simp_all add: SetPan_def Let_def clamp_def pan_gains_def)
  have gl: "fst (pan_gains q) = (if q \<le> 1 / 2 then 1 else 1 / 10 powr (\<bar>q - 1 / 2\<bar> * 2 * 100 / 20))"
    and gr: "snd (pan_gains q) = (if q \<le> 1 / 2 then 1 / 10 powr (\<bar>q - 1 / 2\<bar> * 2 * 100 / 20) else 1)"
    for q
    by (simp_all add: pan_gains_def Let_def)
  show ?thesis
    unfolding pan l r gl gr mirror [unfolded l] centre [unfolded l r] c
    using mirror [unfolded l gl] centre
    by (simp add: max_def min_def)
qed

text \<open>
  The pan law a quarter to the left (full gain on the left, 50 dB less on the right), and
  at the out-of-range arguments 2 and -1, which are stored as 1 and 0.
\<close>

theorem SetPan_pan_law_witness:
  "c_pan (heap (SetPan example_env 0 (1 / 4) WebAudioMixer_new) 0) = 1 / 4
   \<and> c_volume_l (heap (SetPan example_env 0 (1 / 4) WebAudioMixer_new) 0) = 1
   \<and> c_volume_r (heap (SetPan example_env 0 (1 / 4) WebAudioMixer_new) 0) = 1 / 10 powr (5 / 2)
   \<and> c_volume_l (heap (SetPan example_env 0 (1 / 4) WebAudioMixer_new) 0)
      = c_volume_r (heap (SetPan example_env 0 (3 / 4) WebAudioMixer_new) 0)
   \<and> c_pan (heap (SetPan example_env 0 2 WebAudioMixer_new) 0) = 1
   \<and> c_volume_l (heap (SetPan example_env 0 2 WebAudioMixer_new) 0) = 1 / 10 powr 5
   \<and> c_volume_r (heap (SetPan example_env 0 2 WebAudioMixer_new) 0) = 1
   \<and> c_pan (heap (SetPan example_env 0 (- 1) WebAudioMixer_new) 0) = 0
   \<and> c_volume_l (heap (SetPan example_env 0 (- 1) WebAudioMixer_new) 0) = 1
   \<and> c_volume_r (heap (SetPan example_env 0 (- 1) WebAudioMixer_new) 0) = 1 / 10 powr 5"
  using SetPan_pan_law [of example_env 0 "1 / 4" WebAudioMixer_new example_env 0 WebAudioMixer_new]
    SetPan_pan_law [of example_env 0 2 WebAudioMixer_new example_env 0 WebAudioMixer_new]
    SetPan_pan_law [of example_env 0 "- 1" WebAudioMixer_new example_env 0 WebAudioMixer_new]
  by (simp add: clamp_def)

subsection \<open>Defaults of a fresh channel\<close>

lemma heap_Play_accepted:
  assumes "snd (Play env source loop dod m) = Some a"
  shows "a = allocated m \<and> (\<exists>fmt. heap (fst (Play env source loop dod m)) a
            = started_channel env (m_nextChannelId m) source fmt loop dod)"
  using assms
  by (auto simp: Play_decoded Play_locked_snd Play_locked_heap split: option.splits if_splits)

text \<open>
  Claim C9, as amended. A channel fresh from its constructor, and likewise the channel
  that \<open>Play\<close> returns, has rate 1, pan 0.5 and volume \<open>kMixerVolumeMax\<close>: the top
  of the range, not the bottom. The member initialiser \<open>_volume = 1\<close> is overwritten by the
  constructor's \<open>SetVolume(kMixerVolumeMax)\<close>.
\<close>

theorem fresh_channel_defaults:
  assumes "0 \<le> kMixerVolumeMax env"
  shows "(case make_shared_WebAudioChannel env channelId m of
            (m', a) \<Rightarrow> c_rate (heap m' a) = 1 \<and> c_pan (heap m' a) = 1 / 2
                        \<and> c_volume (heap m' a) = kMixerVolumeMax env)
         \<and> (case Play env source loop dod m of
              (m', None) \<Rightarrow> True
            | (m', Some a) \<Rightarrow> c_rate (heap m' a) = 1 \<and> c_pan (heap m' a) = 1 / 2
                        \<and> c_volume (heap m' a) = kMixerVolumeMax env)"
proof -
  have fresh: "c_rate (fresh_channel env i) = 1 \<and> c_pan (fresh_channel env i) = 1 / 2
      \<and> c_volume (fresh_channel env i) = kMixerVolumeMax env" for i
    using assms by (simp add: fresh_channel_def clamp_def)
  have 1: "case make_shared_WebAudioChannel env channelId m of
            (m', a) \<Rightarrow> c_rate (heap m' a) = 1 \<and> c_pan (heap m' a) = 1 / 2
                        \<and> c_volume (heap m' a) = kMixerVolumeMax env"
    using fresh by (simp add: make_shared_eq)
  have 2: "case Play env source loop dod m of
              (m', None) \<Rightarrow> True
            | (m', Some a) \<Rightarrow> c_rate (heap m' a) = 1 \<and> c_pan (heap m' a) = 1 / 2
                        \<and> c_volume (heap m' a) = kMixerVolumeMax env"
  proof (cases "Play env source loop dod m")
    case (Pair m' r)
    show ?thesis
    proof (cases r)
      case None
      with Pair show ?thesis by simp
    next
      case (Some a)
      with Pair have "snd (Play env source loop dod m) = Some a" by simp
      from heap_Play_accepted [OF this] Pair Some fresh show ?thesis
        by (auto simp: started_channel_def)
    qed
  qed
  from 1 2 show ?thesis by simp
qed

text \<open>The first channel of a fresh mixer, with \<open>kMixerVolumeMax = 128\<close>.\<close>

theorem fresh_channel_defaults_witness:
  "0 \<le> kMixerVolumeMax example_env
   \<and> c_rate (heap (fst (Play example_env (Some silence) 0 False WebAudioMixer_new)) 0) = 1
   \<and> c_pan (heap (fst (Play example_env (Some silence) 0 False WebAudioMixer_new)) 0) = 1 / 2
   \<and> c_volume (heap (fst (Play example_env (Some silence) 0 False WebAudioMixer_new)) 0) = 128"
proof -
  have h: "0 \<le> kMixerVolumeMax example_env" by (simp add: example_env_def)
  have s: "snd (Play example_env (Some silence) 0 False WebAudioMixer_new) = Some 0"
    by (simp add: Play_silence Play_locked_snd WebAudioMixer_new_def)
  have k: "kMixerVolumeMax example_env = 128" by (simp add: example_env_def)
  show ?thesis
    using h s k fresh_channel_defaults [OF h, of 0 WebAudioMixer_new "Some silence" 0 False]
    by (cases "Play example_env (Some silence) 0 False WebAudioMixer_new") simp
qed

text \<open>
  Claim C9 as stated fails: the volume of the first channel of a fresh mixer is 128 of 128,
  not a value near the bottom of the range.
\<close>

theorem fresh_channel_volume_counterexample:
  "snd (Play example_env (Some silence) 0 False WebAudioMixer_new) = Some 0
   \<and> kMixerVolumeMax example_env = 128
   \<and> c_volume (heap (fst (Play example_env (Some silence) 0 False WebAudioMixer_new)) 0) = 128
   \<and> \<not> c_volume (heap (fst (Play example_env (Some silence) 0 False WebAudioMixer_new)) 0)
         < kMixerVolumeMax example_env"
  by (simp add: Play_silence Play_locked_snd Play_locked_heap WebAudioMixer_new_def
      started_channel_def fresh_channel_def clamp_def example_env_def)

subsection \<open>The loop of Tick\<close>

lemma UpdateAdjustedSound_settled: "settled env m \<Longrightarrow> UpdateAdjustedSound env m = m"
  by (simp add: UpdateAdjustedSound_def settled_def)

lemma settled_UpdateAdjustedSound [simp]: "settled env (UpdateAdjustedSound env m)"
  by (simp add: settled_def)

lemma UpdateChannel_settled:
  "settled env m \<Longrightarrow>
   UpdateChannel env a False m =
     (if c_done (heap m a) then m else m\<lparr>backend := backend m @ [update_command env m a]\<rparr>)"
  by (simp add: UpdateChannel_def update_command_def UpdateAdjustedSound_settled emit_def Let_def)

lemma Tick_loop_Cons:
  assumes "settled env m" "m_mutex m"
  shows "Tick_loop env kept (a # rest) m =
     (if c_stopping (heap m a) then Tick_loop env kept rest (reap (kept @ rest) a m)
      else Tick_loop env (kept @ [a]) rest
             (if c_done (heap m a) then m
              else m\<lparr>backend := backend m @ [update_command env m a]\<rparr>))"
  using assms
  by (simp add: UpdateChannel_settled Let_def reap_def emit_def SetDone_def modify_def
      RemoveChannel_def structural_def)

lemma reap_fields [simp]:
  "m_nextChannelId (reap r a m) = m_nextChannelId m"
  "m_volume (reap r a m) = m_volume m"
  "m_settingSoundVolume (reap r a m) = m_settingSoundVolume m"
  "m_settingMusicVolume (reap r a m) = m_settingMusicVolume m"
  "m_adjustSoundVolume (reap r a m) = m_adjustSoundVolume m"
  "m_adjustMusicVolume (reap r a m) = m_adjustMusicVolume m"
  "m_mutex (reap r a m) = m_mutex m"
  "m_channels (reap r a m) = r"
  "m_channelMap (reap r a m) = (m_channelMap m)(c_channelId (heap m a) := None)"
  "m_sources (reap r a m) = m_sources m"
  "heap (reap r a m) = (heap m)(a := (heap m a)\<lparr>c_done := True\<rparr>)"
  "allocated (reap r a m) = allocated m"
  "held (reap r a m) = held m"
  "backend (reap r a m) = backend m @ [WebAudioStopChannel (c_channelId (heap m a))]"
  "lock_violations (reap r a m) = lock_violations m"
  by (simp_all add: reap_def)

lemma settled_reap [simp]: "settled env (reap r a m) = settled env m"
  by (simp add: settled_def)

lemma settled_backend [simp]: "settled env (m\<lparr>backend := b\<rparr>) = settled env m"
  by (simp add: settled_def)

lemma update_command_cong:
  assumes "heap m' a = heap m a" "m_volume m' = m_volume m"
    "m_settingSoundVolume m' = m_settingSoundVolume m"
    "m_settingMusicVolume m' = m_settingMusicVolume m"
    "m_adjustSoundVolume m' = m_adjustSoundVolume m"
    "m_adjustMusicVolume m' = m_adjustMusicVolume m"
  shows "update_command env m' a = update_command env m a"
proof -
  have "GetAdjustedVolume env (UpdateAdjustedSound env m') c
        = GetAdjustedVolume env (UpdateAdjustedSound env m) c" for c
    by (rule GetAdjustedVolume_cong) (simp_all add: assms)
  then show ?thesis by (simp add: update_command_def assms(1))
qed

lemma update_command_reap:
  "b \<noteq> a \<Longrightarrow> update_command env (reap r a m) b = update_command env m b"
  by (rule update_command_cong) simp_all

lemma update_command_backend [simp]:
  "update_command env (m\<lparr>backend := x\<rparr>) b = update_command env m b"
  by (rule update_command_cong) simp_all

lemma tick_command_reap:
  "c_stopping (heap m a) \<Longrightarrow> tick_command env (reap r a m) b = tick_command env m b"
  by (cases "b = a") (simp_all add: tick_command_def update_command_reap)

lemma tick_command_backend [simp]:
  "tick_command env (m\<lparr>backend := x\<rparr>) b = tick_command env m b"
  by (simp add: tick_command_def)

lemma Tick_loop_frame:
  assumes "settled env m" "m_mutex m"
  shows "m_nextChannelId (Tick_loop env kept rest m) = m_nextChannelId m
       \<and> m_volume (Tick_loop env kept rest m) = m_volume m
       \<and> m_settingSoundVolume (Tick_loop env kept rest m) = m_settingSoundVolume m
       \<and> m_settingMusicVolume (Tick_loop env kept rest m) = m_settingMusicVolume m
       \<and> m_adjustSoundVolume (Tick_loop env kept rest m) = m_adjustSoundVolume m
       \<and> m_adjustMusicVolume (Tick_loop env kept rest m) = m_adjustMusicVolume m
       \<and> m_mutex (Tick_loop env kept rest m) = m_mutex m
       \<and> m_sources (Tick_loop env kept rest m) = m_sources m
       \<and> allocated (Tick_loop env kept rest m) = allocated m
       \<and> held (Tick_loop env kept rest m) = held m
       \<and> lock_violations (Tick_loop env kept rest m) = lock_violations m"
  using assms
proof (induction rest arbitrary: kept m)
  case Nil
  then show ?case by simp
next
  case (Cons a rest)
  show ?case
  proof (cases "c_stopping (heap m a)")
    case True
    then show ?thesis
      using Cons.IH [of "reap (kept @ rest) a m" kept] Cons.prems
      by (simp add: Tick_loop_Cons del: Tick_loop.simps)
  next
    case False
    then show ?thesis
      using Cons.IH [of m "kept @ [a]"]
        Cons.IH [of "m\<lparr>backend := backend m @ [update_command env m a]\<rparr>" "kept @ [a]"]
        Cons.prems
      by (simp add: Tick_loop_Cons del: Tick_loop.simps)
  qed
qed

lemma Tick_loop_backend:
  assumes "settled env m" "m_mutex m"
  shows "backend (Tick_loop env kept rest m) = backend m @ concat (map (tick_command env m) rest)"
  using assms
proof (induction rest arbitrary: kept m)
  case Nil
  then show ?case by simp
next
  case (Cons a rest)
  show ?case
  proof (cases "c_stopping (heap m a)")
    case True
    then show ?thesis
      using Cons.IH [of "reap (kept @ rest) a m" kept] Cons.prems
      by (simp add: Tick_loop_Cons tick_command_reap del: Tick_loop.simps)
         (simp add: tick_command_def)
  next
    case False
    then show ?thesis
      using Cons.IH [of m "kept @ [a]"]
        Cons.IH [of "m\<lparr>backend := backend m @ [update_command env m a]\<rparr>" "kept @ [a]"]
        Cons.prems
      by (simp add: Tick_loop_Cons del: Tick_loop.simps) (simp add: tick_command_def)
  qed
qed

lemma Tick_loop_channels:
  assumes "settled env m" "m_mutex m" "m_channels m = kept @ rest"
  shows "m_channels (Tick_loop env kept rest m)
         = kept @ filter (\<lambda>b. \<not> c_stopping (heap m b)) rest"
  using assms
proof (induction rest arbitrary: kept m)
  case Nil
  then show ?case by simp
next
  case (Cons a rest)
  show ?case
  proof (cases "c_stopping (heap m a)")
    case True
    have "filter (\<lambda>b. \<not> c_stopping (heap (reap (kept @ rest) a m) b)) rest
          = filter (\<lambda>b. \<not> c_stopping (heap m b)) rest"
      by (rule filter_cong) auto
    then show ?thesis
      using True Cons.IH [of "reap (kept @ rest) a m" kept] Cons.prems
      by (simp add: Tick_loop_Cons del: Tick_loop.simps)
  next
    case False
    then show ?thesis
      using Cons.IH [of m "kept @ [a]"]
        Cons.IH [of "m\<lparr>backend := backend m @ [update_command env m a]\<rparr>" "kept @ [a]"]
        Cons.prems
      by (simp add: Tick_loop_Cons del: Tick_loop.simps)
  qed
qed

lemma Tick_loop_heap:
  assumes "settled env m" "m_mutex m"
  shows "heap (Tick_loop env kept rest m)
         = (\<lambda>b. if b \<in> set rest \<and> c_stopping (heap m b) then (heap m b)\<lparr>c_done := True\<rparr>
                 else heap m b)"
  using assms
proof (induction rest arbitrary: kept m)
  case Nil
  then show ?case by simp
next
  case (Cons a rest)
  show ?case
  proof (cases "c_stopping (heap m a)")
    case True
    then show ?thesis
      using Cons.IH [of "reap (kept @ rest) a m" kept] Cons.prems
      by (simp add: Tick_loop_Cons del: Tick_loop.simps) (auto simp: fun_eq_iff)
  next
    case False
    then show ?thesis
      using Cons.IH [of m "kept @ [a]"]
        Cons.IH [of "m\<lparr>backend := backend m @ [update_command env m a]\<rparr>" "kept @ [a]"]
        Cons.prems
      by (simp add: Tick_loop_Cons del: Tick_loop.simps) (auto simp: fun_eq_iff)
  qed
qed

lemma Tick_loop_channelMap:
  assumes "settled env m" "m_mutex m"
  shows "m_channelMap (Tick_loop env kept rest m)
         = (\<lambda>i. if i \<in> (\<lambda>b. c_channelId (heap m b)) ` {b \<in> set rest. c_stopping (heap m b)}
                 then None else m_channelMap m i)"
  using assms
proof (induction rest arbitrary: kept m)
  case Nil
  then show ?case by simp
next
  case (Cons a rest)
  show ?case
  proof (cases "c_stopping (heap m a)")
    case True
    have eq: "(\<lambda>b. c_channelId (heap (reap (kept @ rest) a m) b))
                 ` {b \<in> set rest. c_stopping (heap (reap (kept @ rest) a m) b)}
          = (\<lambda>b. c_channelId (heap m b)) ` {b \<in> set rest. c_stopping (heap m b)}"
      by (auto simp: image_iff) 
    show ?thesis
      using True Cons.IH [of "reap (kept @ rest) a m" kept] Cons.prems
      by (simp add: Tick_loop_Cons eq del: Tick_loop.simps) (auto simp: fun_eq_iff)
  next
    case False
    then show ?thesis
      using Cons.IH [of m "kept @ [a]"]
        Cons.IH [of "m\<lparr>backend := backend m @ [update_command env m a]\<rparr>" "kept @ [a]"]
        Cons.prems
      by (simp add: Tick_loop_Cons del: Tick_loop.simps) (auto simp: fun_eq_iff)
  qed
qed

subsection \<open>Tick, OnChannelEnded, Close, AddSource field by field\<close>

lemma update_command_UpdateAdjustedSound [simp]:
  "update_command env (UpdateAdjustedSound env m) a = update_command env m a"
  by (simp add: update_command_def UpdateAdjustedSound_settled)

lemma update_command_lock_guard [simp]:
  "update_command env (lock_guard m) a = update_command env m a"
  by (rule update_command_cong) simp_all

lemma tick_command_prepared [simp]:
  "tick_command env (lock_guard (UpdateAdjustedSound env m)) = tick_command env m"
  by (simp add: tick_command_def fun_eq_iff)

lemma settled_lock_guard [simp]: "settled env (lock_guard m) = settled env m"
  by (simp add: settled_def)

lemma Tick_fields:
  "m_nextChannelId (Tick env m) = m_nextChannelId m"
  "m_volume (Tick env m) = m_volume m"
  "m_settingSoundVolume (Tick env m) = soundVolume env"
  "m_settingMusicVolume (Tick env m) = rideMusicVolume env"
  "m_adjustSoundVolume (Tick env m) = m_adjustSoundVolume (UpdateAdjustedSound env m)"
  "m_adjustMusicVolume (Tick env m) = m_adjustMusicVolume (UpdateAdjustedSound env m)"
  "m_mutex (Tick env m) = False"
  "m_sources (Tick env m) = filter (\<lambda>source. \<not> src_released source) (m_sources m)"
  "allocated (Tick env m) = allocated m"
  "held (Tick env m) = held m"
  "lock_violations (Tick env m) = (if m_mutex m then Suc (lock_violations m) else lock_violations m)"
  by (simp_all add: Tick_def Let_def Tick_loop_frame del: UpdateAdjustedSound_adjust)

lemma Tick_backend: "backend (Tick env m) = backend m @ Tick_commands env m"
  by (simp add: Tick_def Let_def Tick_loop_frame Tick_loop_backend Tick_commands_def)

lemma Tick_channels:
  "m_channels (Tick env m) = filter (\<lambda>b. \<not> c_stopping (heap m b)) (m_channels m)"
  by (simp add: Tick_def Let_def Tick_loop_channels)

lemma Tick_heap:
  "heap (Tick env m)
     = (\<lambda>b. if b \<in> set (m_channels m) \<and> c_stopping (heap m b) then (heap m b)\<lparr>c_done := True\<rparr>
             else heap m b)"
  by (simp add: Tick_def Let_def Tick_loop_heap cong: if_cong)

lemma Tick_channelMap:
  "m_channelMap (Tick env m)
     = (\<lambda>i. if i \<in> (\<lambda>b. c_channelId (heap m b)) ` {b \<in> set (m_channels m). c_stopping (heap m b)}
             then None else m_channelMap m i)"
  by (simp add: Tick_def Let_def Tick_loop_channelMap cong: if_cong)

lemma FindChannel_lock_guard [simp]: "FindChannel i (lock_guard m) = FindChannel i m"
  by (simp add: FindChannel_def weak_lock_def cong: option.case_cong)

lemma OnChannelEnded_unknown:
  "FindChannel i m = None \<Longrightarrow> OnChannelEnded i m = unlock (lock_guard m)"
  by (simp add: OnChannelEnded_def Let_def)

lemma OnChannelEnded_fields:
  "m_nextChannelId (OnChannelEnded i m) = m_nextChannelId m"
  "m_volume (OnChannelEnded i m) = m_volume m"
  "m_settingSoundVolume (OnChannelEnded i m) = m_settingSoundVolume m"
  "m_settingMusicVolume (OnChannelEnded i m) = m_settingMusicVolume m"
  "m_adjustSoundVolume (OnChannelEnded i m) = m_adjustSoundVolume m"
  "m_adjustMusicVolume (OnChannelEnded i m) = m_adjustMusicVolume m"
  "m_mutex (OnChannelEnded i m) = False"
  "m_sources (OnChannelEnded i m) = m_sources m"
  "allocated (OnChannelEnded i m) = allocated m"
  "held (OnChannelEnded i m) = held m"
  "backend (OnChannelEnded i m) = backend m"
  "lock_violations (OnChannelEnded i m)
     = (if m_mutex m then Suc (lock_violations m) else lock_violations m)"
  by (simp_all add: OnChannelEnded_def Let_def SetDone_def RemoveChannel_def structural_def
      split: option.splits)

lemma OnChannelEnded_found:
  assumes "FindChannel i m = Some a"
  shows "m_channels (OnChannelEnded i m) = filter (\<lambda>e. c_channelId (heap m e) \<noteq> i) (m_channels m)"
    and "m_channelMap (OnChannelEnded i m) = (m_channelMap m)(i := None)"
    and "heap (OnChannelEnded i m) = (heap m)(a := (heap m a)\<lparr>c_done := True\<rparr>)"
proof -
  have "filter (\<lambda>e. c_channelId (((heap m)(a := (heap m a)\<lparr>c_done := True\<rparr>)) e) \<noteq> i) (m_channels m)
        = filter (\<lambda>e. c_channelId (heap m e) \<noteq> i) (m_channels m)"
    by (rule filter_cong) auto
  then show "m_channels (OnChannelEnded i m)
      = filter (\<lambda>e. c_channelId (heap m e) \<noteq> i) (m_channels m)"
    using assms by (simp add: OnChannelEnded_def Let_def SetDone_def)
  show "m_channelMap (OnChannelEnded i m) = (m_channelMap m)(i := None)"
    using assms by (simp add: OnChannelEnded_def Let_def SetDone_def)
  show "heap (OnChannelEnded i m) = (heap m)(a := (heap m a)\<lparr>c_done := True\<rparr>)"
    using assms by (simp add: OnChannelEnded_def Let_def SetDone_def)
qed

lemma OnChannelEnded_not_found:
  assumes "FindChannel i m = None"
  shows "m_channels (OnChannelEnded i m) = m_channels m"
    and "m_channelMap (OnChannelEnded i m) = m_channelMap m"
    and "heap (OnChannelEnded i m) = heap m"
  using assms by (simp_all add: OnChannelEnded_unknown)

lemma backend_fold_emit:
  "backend (fold (\<lambda>c. emit (f c)) xs m) = backend m @ map f xs"
  by (induction xs arbitrary: m) simp_all

lemma fold_emit_fields [simp]:
  "m_nextChannelId (fold (\<lambda>c. emit (f c)) xs m) = m_nextChannelId m"
  "m_volume (fold (\<lambda>c. emit (f c)) xs m) = m_volume m"
  "m_settingSoundVolume (fold (\<lambda>c. emit (f c)) xs m) = m_settingSoundVolume m"
  "m_settingMusicVolume (fold (\<lambda>c. emit (f c)) xs m) = m_settingMusicVolume m"
  "m_adjustSoundVolume (fold (\<lambda>c. emit (f c)) xs m) = m_adjustSoundVolume m"
  "m_adjustMusicVolume (fold (\<lambda>c. emit (f c)) xs m) = m_adjustMusicVolume m"
  "m_mutex (fold (\<lambda>c. emit (f c)) xs m) = m_mutex m"
  "m_channels (fold (\<lambda>c. emit (f c)) xs m) = m_channels m"
  "m_channelMap (fold (\<lambda>c. emit (f c)) xs m) = m_channelMap m"
  "m_sources (fold (\<lambda>c. emit (f c)) xs m) = m_sources m"
  "heap (fold (\<lambda>c. emit (f c)) xs m) = heap m"
  "allocated (fold (\<lambda>c. emit (f c)) xs m) = allocated m"
  "held (fold (\<lambda>c. emit (f c)) xs m) = held m"
  "lock_violations (fold (\<lambda>c. emit (f c)) xs m) = lock_violations m"
  by (induction xs arbitrary: m) simp_all

lemma Close_fields:
  "m_nextChannelId (Close m) = m_nextChannelId m"
  "m_volume (Close m) = m_volume m"
  "m_settingSoundVolume (Close m) = m_settingSoundVolume m"
  "m_settingMusicVolume (Close m) = m_settingMusicVolume m"
  "m_adjustSoundVolume (Close m) = m_adjustSoundVolume m"
  "m_adjustMusicVolume (Close m) = m_adjustMusicVolume m"
  "m_mutex (Close m) = False"
  "m_channels (Close m) = []"
  "m_channelMap (Close m) = Map.empty"
  "m_sources (Close m) = []"
  "heap (Close m) = heap m"
  "allocated (Close m) = allocated m"
  "held (Close m) = held m"
  "backend (Close m)
     = backend m @ map (\<lambda>a. WebAudioStopChannel (c_channelId (heap m a))) (m_channels m)"
  "lock_violations (Close m) = (if m_mutex m then Suc (lock_violations m) else lock_violations m)"
  by (simp_all add: Close_def Let_def structural_def backend_fold_emit)

lemma AddSource_fields:
  "m_nextChannelId (AddSource s m) = m_nextChannelId m"
  "m_volume (AddSource s m) = m_volume m"
  "m_settingSoundVolume (AddSource s m) = m_settingSoundVolume m"
  "m_settingMusicVolume (AddSource s m) = m_settingMusicVolume m"
  "m_adjustSoundVolume (AddSource s m) = m_adjustSoundVolume m"
  "m_adjustMusicVolume (AddSource s m) = m_adjustMusicVolume m"
  "m_mutex (AddSource s m) = False"
  "m_channels (AddSource s m) = m_channels m"
  "m_channelMap (AddSource s m) = m_channelMap m"
  "heap (AddSource s m) = heap m"
  "allocated (AddSource s m) = allocated m"
  "held (AddSource s m) = held m"
  "backend (AddSource s m) = backend m"
  "lock_violations (AddSource s m) = (if m_mutex m then Suc (lock_violations m) else lock_violations m)"
  by (simp_all add: AddSource_def Let_def structural_def split: option.splits)

lemma release_source_fields:
  "m_nextChannelId (release_source i m) = m_nextChannelId m"
  "m_volume (release_source i m) = m_volume m"
  "m_settingSoundVolume (release_source i m) = m_settingSoundVolume m"
  "m_settingMusicVolume (release_source i m) = m_settingMusicVolume m"
  "m_adjustSoundVolume (release_source i m) = m_adjustSoundVolume m"
  "m_adjustMusicVolume (release_source i m) = m_adjustMusicVolume m"
  "m_mutex (release_source i m) = m_mutex m"
  "m_channels (release_source i m) = m_channels m"
  "m_channelMap (release_source i m) = m_channelMap m"
  "heap (release_source i m) = heap m"
  "allocated (release_source i m) = allocated m"
  "held (release_source i m) = held m"
  "backend (release_source i m) = backend m"
  "lock_violations (release_source i m) = lock_violations m"
  by (simp_all add: release_source_def)

subsection \<open>Channel methods\<close>

lemma channel_call_fields:
  "m_nextChannelId (channel_call env op m) = m_nextChannelId m"
  "m_volume (channel_call env op m) = m_volume m"
  "m_mutex (channel_call env op m) = m_mutex m"
  "m_channels (channel_call env op m) = m_channels m"
  "m_channelMap (channel_call env op m) = m_channelMap m"
  "m_sources (channel_call env op m) = m_sources m"
  "allocated (channel_call env op m) = allocated m"
  "lock_violations (channel_call env op m) = lock_violations m"
  by (cases op; simp add: SetGroup_def SetRate_def SetOffset_def SetLoop_def
      SetVolume_channel_def SetPan_def SetStopping_def SetDone_def SetDeleteOnDone_def
      Play_channel_def Stop_def UpdateOldVolume_def)+

lemma channel_call_held: "set (held (channel_call env op m)) \<subseteq> set (held m)"
  by (cases op; simp add: SetGroup_def SetRate_def SetOffset_def SetLoop_def
      SetVolume_channel_def SetPan_def SetStopping_def SetDone_def SetDeleteOnDone_def
      Play_channel_def Stop_def UpdateOldVolume_def)

lemma channel_call_id:
  "c_channelId (heap (channel_call env op m) b) = c_channelId (heap m b)"
  by (cases op; simp add: SetGroup_def SetRate_def SetOffset_def SetLoop_def
      SetVolume_channel_def SetPan_def SetStopping_def SetDone_def SetDeleteOnDone_def
      Play_channel_def Stop_def UpdateOldVolume_def Let_def)

lemma channel_call_other:
  "receiver op = Some a \<Longrightarrow> b \<noteq> a \<Longrightarrow> heap (channel_call env op m) b = heap m b"
  by (cases op; simp add: SetGroup_def SetRate_def SetOffset_def SetLoop_def
      SetVolume_channel_def SetPan_def SetStopping_def SetDone_def SetDeleteOnDone_def
      Play_channel_def Stop_def UpdateOldVolume_def Let_def)

lemma id_inj:
  assumes "a < n" "b < n" "n \<le> 2 ^ 32"
    and "(word_of_nat (Suc a) :: 32 word) = word_of_nat (Suc b)"
  shows "a = b"
proof -
  have "a mod 2 ^ 32 = b mod 2 ^ 32"
    using assms(4) by (simp add: word_of_nat_eq_iff take_bit_eq_mod)
  moreover have "a < 2 ^ 32" "b < 2 ^ 32" using assms by simp_all
  ultimately show ?thesis by simp
qed

subsection \<open>The invariant is kept by every call\<close>

lemma mixer_inv_cong:
  assumes "mixer_inv n m"
    and "allocated m' = allocated m" "m_nextChannelId m' = m_nextChannelId m"
    and "\<And>b. c_channelId (heap m' b) = c_channelId (heap m b)"
    and "m_channels m' = m_channels m" "m_channelMap m' = m_channelMap m"
    and "set (held m') \<subseteq> set (held m)"
    and "m_mutex m' = m_mutex m" "lock_violations m' = lock_violations m"
  shows "mixer_inv n m'"
  using assms unfolding mixer_inv_def by (simp add: subset_iff)

lemma mixer_inv_channel_call: "mixer_inv n m \<Longrightarrow> mixer_inv n (channel_call env op m)"
  by (erule mixer_inv_cong) (simp_all add: channel_call_fields channel_call_id channel_call_held)

lemma mixer_inv_AddSource: "mixer_inv n m \<Longrightarrow> mixer_inv n (AddSource s m)"
  by (rule mixer_inv_cong, assumption) (simp_all add: AddSource_fields mixer_inv_def)

lemma mixer_inv_release_source: "mixer_inv n m \<Longrightarrow> mixer_inv n (release_source i m)"
  by (erule mixer_inv_cong) (simp_all add: release_source_fields)

lemma mixer_inv_volume: "mixer_inv n (m\<lparr>m_volume := v\<rparr>) = mixer_inv n m"
  by (simp add: mixer_inv_def)

lemma mixer_inv_Close: "mixer_inv n m \<Longrightarrow> mixer_inv n (Close m)"
  unfolding mixer_inv_def by (simp add: Close_fields)

lemma mixer_inv_Tick:
  assumes "mixer_inv n m"
  shows "mixer_inv n (Tick env m)"
proof -
  have ids: "\<And>a. a < n \<Longrightarrow> c_channelId (heap m a) = word_of_nat (Suc a)"
    and sub: "\<And>a. a \<in> set (m_channels m) \<Longrightarrow> a < n"
    and map: "\<And>i a. m_channelMap m i = Some a \<longleftrightarrow> a \<in> set (m_channels m) \<and> i = word_of_nat (Suc a)"
    and n: "n \<le> 2 ^ 32"
    using assms unfolding mixer_inv_def by blast+
  have map': "m_channelMap (Tick env m) i = Some a
      \<longleftrightarrow> a \<in> set (m_channels (Tick env m)) \<and> i = word_of_nat (Suc a)" for i a
  proof (cases "i \<in> (\<lambda>b. c_channelId (heap m b)) ` {b \<in> set (m_channels m). c_stopping (heap m b)}")
    case True
    then obtain b where b: "b \<in> set (m_channels m)" "c_stopping (heap m b)"
        "i = c_channelId (heap m b)" by auto
    then have i: "i = word_of_nat (Suc b)" using ids sub by simp
    have "\<not> (a \<in> set (m_channels (Tick env m)) \<and> i = word_of_nat (Suc a))"
    proof
      assume h: "a \<in> set (m_channels (Tick env m)) \<and> i = word_of_nat (Suc a)"
      then have a: "a \<in> set (m_channels m)" "\<not> c_stopping (heap m a)"
        by (simp_all add: Tick_channels)
      have "b = a" using h i sub [OF a(1)] sub [OF b(1)] n by (auto intro: id_inj)
      with a b show False by simp
    qed
    with True show ?thesis by (simp add: Tick_channelMap)
  next
    case False
    have "a \<in> set (m_channels m) \<and> i = word_of_nat (Suc a) \<Longrightarrow> \<not> c_stopping (heap m a)"
      using False ids sub by force
    with False show ?thesis by (auto simp: Tick_channelMap Tick_channels map)
  qed
  show ?thesis
    unfolding mixer_inv_def
    using assms map'
    by (simp add: Tick_fields Tick_channels Tick_heap mixer_inv_def)
qed

lemma mixer_inv_SetVolume: "mixer_inv n m \<Longrightarrow> mixer_inv n (SetVolume env v m)"
  by (simp add: SetVolume_def mixer_inv_Tick mixer_inv_volume)

lemma mixer_inv_FindChannel:
  assumes "mixer_inv n m"
  shows "FindChannel i m = m_channelMap m i"
proof (cases "m_channelMap m i")
  case None
  then show ?thesis by (simp add: FindChannel_def)
next
  case (Some a)
  then have "a \<in> set (m_channels m)" using assms unfolding mixer_inv_def by blast
  with Some show ?thesis by (simp add: FindChannel_def weak_lock_def)
qed

lemma mixer_inv_OnChannelEnded:
  assumes "mixer_inv n m"
  shows "mixer_inv n (OnChannelEnded i m)"
proof (cases "FindChannel i m")
  case None
  show ?thesis
    by (rule mixer_inv_cong [OF assms])
       (use assms in \<open>simp_all add: OnChannelEnded_fields OnChannelEnded_not_found [OF None]
          mixer_inv_def\<close>)
next
  case (Some a)
  have ids: "\<And>a. a < n \<Longrightarrow> c_channelId (heap m a) = word_of_nat (Suc a)"
    and sub: "\<And>a. a \<in> set (m_channels m) \<Longrightarrow> a < n"
    and map: "\<And>i a. m_channelMap m i = Some a \<longleftrightarrow> a \<in> set (m_channels m) \<and> i = word_of_nat (Suc a)"
    and n: "n \<le> 2 ^ 32"
    using assms unfolding mixer_inv_def by blast+
  have ch: "m_channels (OnChannelEnded i m) = filter (\<lambda>e. word_of_nat (Suc e) \<noteq> i) (m_channels m)"
    unfolding OnChannelEnded_found(1) [OF Some]
    by (rule filter_cong) (simp_all add: ids sub)
  have map': "m_channelMap (OnChannelEnded i m) j = Some b
      \<longleftrightarrow> b \<in> set (m_channels (OnChannelEnded i m)) \<and> j = word_of_nat (Suc b)" for j b
    unfolding ch OnChannelEnded_found(2) [OF Some] using map by auto
  show ?thesis
    unfolding mixer_inv_def
    using assms map'
    by (simp add: OnChannelEnded_fields OnChannelEnded_found(3) [OF Some] mixer_inv_def)
       (simp add: ch)
qed

lemma mixer_inv_Play_locked:
  assumes "mixer_inv n m" "n < 2 ^ 32"
  shows "mixer_inv (Suc n) (fst (Play_locked env source loop dod fmt fd chans frames m))"
proof -
  have alloc: "allocated m = n" and nxt: "m_nextChannelId m = word_of_nat (Suc n)"
    and ids: "\<And>a. a < n \<Longrightarrow> c_channelId (heap m a) = word_of_nat (Suc a)"
    and sub: "\<And>a. a \<in> set (m_channels m) \<Longrightarrow> a < n"
    and map: "\<And>i a. m_channelMap m i = Some a \<longleftrightarrow> a \<in> set (m_channels m) \<and> i = word_of_nat (Suc a)"
    using assms unfolding mixer_inv_def by blast+
  let ?m' = "fst (Play_locked env source loop dod fmt fd chans frames m)"
  have fresh: "(word_of_nat (Suc a) :: 32 word) \<noteq> word_of_nat (Suc n)" if "a < n" for a
  proof
    assume "(word_of_nat (Suc a) :: 32 word) = word_of_nat (Suc n)"
    then have "a = n" using that assms(2) by (intro id_inj [of a "Suc n" n]) simp_all
    with that show False by simp
  qed
  have map': "m_channelMap ?m' i = Some a
      \<longleftrightarrow> a \<in> set (m_channels ?m') \<and> i = word_of_nat (Suc a)" for i a
  proof (cases "i = word_of_nat (Suc n)")
    case True
    have "a \<in> set (m_channels m) \<Longrightarrow> i \<noteq> word_of_nat (Suc a)"
      using fresh [OF sub] True by metis
    then show ?thesis
      using True by (auto simp add: Play_locked_fields alloc nxt simp del: of_nat_Suc)
  next
    case False
    then show ?thesis
      using map by (auto simp add: Play_locked_fields alloc nxt simp del: of_nat_Suc)
  qed
  have ids': "c_channelId (heap ?m' a) = word_of_nat (Suc a)" if "a < Suc n" for a
    using that ids
    by (auto simp add: Play_locked_heap alloc nxt started_channel_def fresh_channel_def
        WebAudioChannel_fields_def less_Suc_eq simp del: of_nat_Suc)
  have nxt': "m_nextChannelId ?m' = word_of_nat (Suc (Suc n))"
    by (simp add: Play_locked_fields nxt)
  have rest: "allocated ?m' = Suc n" "distinct (m_channels ?m')"
      "\<forall>a \<in> set (m_channels ?m'). a < Suc n" "\<forall>a \<in> set (held ?m'). a < Suc n"
      "\<not> m_mutex ?m'" "lock_violations ?m' = 0" "Suc n \<le> 2 ^ 32"
    using assms sub
    by (auto simp add: Play_locked_fields alloc mixer_inv_def less_Suc_eq)
  show ?thesis
    unfolding mixer_inv_def
    using nxt' rest ids' map' by blast
qed

lemma mixer_inv_Play:
  assumes "mixer_inv n m" "n < 2 ^ 32"
  shows "mixer_inv (if snd (Play env source loop dod m) = None then n else Suc n)
           (fst (Play env source loop dod m))"
  using assms
  by (auto simp: Play_decoded Play_locked_snd mixer_inv_Play_locked split: option.splits)

lemma mixer_inv_step:
  assumes "mixer_inv n m" "n + num_plays [(env, op)] \<le> 2 ^ 32"
  shows "\<exists>n'. n' \<le> n + num_plays [(env, op)] \<and> mixer_inv n' (step env op m)"
proof (cases "receiver op")
  case (Some a)
  then have "step env op m = (if a \<in> set (held m) then channel_call env op m else m)"
    by (simp add: step_def)
  then have "mixer_inv n (step env op m)"
    using assms(1) by (simp add: mixer_inv_channel_call)
  then show ?thesis by (intro exI [of _ n]) simp
next
  case None
  show ?thesis
  proof (cases op)
    case (OpPlay source loop dod)
    then have "n < 2 ^ 32" using assms(2) by simp
    from mixer_inv_Play [OF assms(1) this, of env source loop dod] OpPlay
    show ?thesis
      by (intro exI [of _ "if snd (Play env source loop dod m) = None then n else Suc n"])
         (simp add: step_def)
  qed (use None assms(1) in \<open>auto simp: step_def mixer_inv_Tick mixer_inv_OnChannelEnded
         mixer_inv_Close mixer_inv_SetVolume mixer_inv_AddSource mixer_inv_release_source
         intro!: exI [of _ n]\<close>)
qed

lemma mixer_inv_run:
  assumes "mixer_inv n m" "n + num_plays ops \<le> 2 ^ 32"
  shows "\<exists>n'. n' \<le> n + num_plays ops \<and> mixer_inv n' (run ops m)"
  using assms
proof (induction ops arbitrary: n m)
  case Nil
  then show ?case by auto
next
  case (Cons x ops)
  obtain env op where x: "x = (env, op)" by (cases x)
  have split: "num_plays (x # ops) = num_plays [(env, op)] + num_plays ops"
    unfolding x by (cases op) simp_all
  with Cons.prems have "n + num_plays [(env, op)] \<le> 2 ^ 32" by simp
  from mixer_inv_step [OF Cons.prems(1) this]
  obtain n1 where n1: "n1 \<le> n + num_plays [(env, op)]" "mixer_inv n1 (step env op m)" by blast
  then have "n1 + num_plays ops \<le> 2 ^ 32" using Cons.prems(2) split by simp
  from Cons.IH [OF n1(2) this]
  obtain n' where "n' \<le> n1 + num_plays ops" "mixer_inv n' (run ops (step env op m))" by blast
  then show ?case using n1(1) split x by (intro exI [of _ n']) simp
qed

lemma mixer_inv_new: "mixer_inv 0 WebAudioMixer_new"
  by (simp add: mixer_inv_def WebAudioMixer_new_def)

lemma mixer_inv_ids_distinct:
  assumes "mixer_inv n m" "distinct xs" "\<forall>a \<in> set xs. a < n"
  shows "distinct (map (\<lambda>a. c_channelId (heap m a)) xs)"
proof -
  have ids: "\<And>a. a < n \<Longrightarrow> c_channelId (heap m a) = word_of_nat (Suc a)" and n: "n \<le> 2 ^ 32"
    using assms(1) unfolding mixer_inv_def by blast+
  have "inj_on (\<lambda>a. c_channelId (heap m a)) (set xs)"
  proof (rule inj_onI)
    fix a b assume "a \<in> set xs" "b \<in> set xs" "c_channelId (heap m a) = c_channelId (heap m b)"
    then show "a = b" using ids assms(3) n by (auto intro: id_inj [of a n b])
  qed
  with assms(2) show ?thesis by (simp add: distinct_map)
qed

lemma mixer_inv_registry_consistent:
  assumes "mixer_inv n m"
  shows "registry_consistent m"
proof -
  have ids: "\<And>a. a < n \<Longrightarrow> c_channelId (heap m a) = word_of_nat (Suc a)"
    and sub: "\<And>a. a \<in> set (m_channels m) \<Longrightarrow> a < n"
    and map: "\<And>i a. m_channelMap m i = Some a \<longleftrightarrow> a \<in> set (m_channels m) \<and> i = word_of_nat (Suc a)"
    and d: "distinct (m_channels m)"
    and rest: "\<not> m_mutex m" "lock_violations m = 0"
    using assms unfolding mixer_inv_def by blast+
  have 1: "distinct (channel_ids m)"
    unfolding channel_ids_def using assms d sub by (intro mixer_inv_ids_distinct) auto
  have 2: "dom (m_channelMap m) = set (channel_ids m)"
    unfolding channel_ids_def using map ids sub by (auto simp: dom_def image_iff) 
  have 3: "\<forall>a \<in> set (m_channels m). m_channelMap m (c_channelId (heap m a)) = Some a"
    using map ids sub by simp
  show ?thesis unfolding registry_consistent_def using 1 2 3 rest by simp
qed

lemma mixer_inv_wf:
  assumes "mixer_inv n m"
  shows "mixer_wf m"
proof -
  have "allocated m = n" "\<forall>a \<in> set (m_channels m). a < n" "\<forall>a \<in> set (held m). a < n"
    using assms unfolding mixer_inv_def by blast+
  moreover have "distinct (map (\<lambda>a. c_channelId (heap m a)) [0..<n])"
    using assms by (intro mixer_inv_ids_distinct) auto
  ultimately show ?thesis
    unfolding mixer_wf_def using mixer_inv_registry_consistent [OF assms] by simp
qed

lemma run_wf:
  assumes "num_plays ops \<le> 2 ^ 32"
  shows "mixer_wf (run ops WebAudioMixer_new)"
proof -
  from mixer_inv_run [OF mixer_inv_new, of ops] assms
  obtain n where "mixer_inv n (run ops WebAudioMixer_new)" by auto
  then show ?thesis by (rule mixer_inv_wf)
qed

lemma run_append: "run (xs @ ys) m = run ys (run xs m)"
  by (induction xs arbitrary: m) auto

lemma num_plays_append: "num_plays (xs @ ys) = num_plays xs + num_plays ys"
  by (induction xs rule: num_plays.induct) auto


subsection \<open>The identifier counter wraps\<close>

lemma Play_silence_fields:
  "m_channels (fst (Play env (Some silence) loop dod m)) = m_channels m @ [allocated m]"
  "m_channelMap (fst (Play env (Some silence) loop dod m))
     = (m_channelMap m)(m_nextChannelId m \<mapsto> allocated m)"
  "m_nextChannelId (fst (Play env (Some silence) loop dod m)) = m_nextChannelId m + 1"
  "allocated (fst (Play env (Some silence) loop dod m)) = Suc (allocated m)"
  "held (fst (Play env (Some silence) loop dod m)) = allocated m # held m"
  "snd (Play env (Some silence) loop dod m) = Some (allocated m)"
  "c_channelId (heap (fst (Play env (Some silence) loop dod m)) b)
     = (if b = allocated m then m_nextChannelId m else c_channelId (heap m b))"
  "c_stopping (heap (fst (Play env (Some silence) loop dod m)) b)
     = (if b = allocated m then False else c_stopping (heap m b))"
  "c_done (heap (fst (Play env (Some silence) loop dod m)) b)
     = (if b = allocated m then False else c_done (heap m b))"
  by (simp_all add: Play_silence Play_locked_fields Play_locked_snd Play_locked_heap
      started_channel_def fresh_channel_def WebAudioChannel_fields_def)

lemma first_alone_round:
  assumes "first_alone k m" "Suc k < 2 ^ 32"
  shows "first_alone (Suc k)
           (OnChannelEnded (word_of_nat (1 + Suc k))
              (fst (Play example_env (Some silence) 0 False m)))"
proof -
  define i :: "32 word" where "i = word_of_nat (k + 2)"
  define p where "p = fst (Play example_env (Some silence) 0 False m)"
  have ne: "i \<noteq> 1"
  proof
    assume "i = 1"
    then have "(word_of_nat (Suc (Suc k)) :: 32 word) = word_of_nat (Suc 0)"
      by (simp add: i_def)
    then have "Suc k = 0" using assms(2) by (intro id_inj [of "Suc k" "2 ^ 32" 0]) simp_all
    then show False by simp
  qed
  have a: "m_channels m = [0]" "m_channelMap m = [1 \<mapsto> 0]" "c_channelId (heap m 0) = 1"
      "\<not> c_stopping (heap m 0)" "\<not> c_done (heap m 0)"
      "allocated m = Suc k" "m_nextChannelId m = i"
    using assms(1) unfolding first_alone_def i_def by simp_all
  have p: "m_channels p = [0, Suc k]" "m_channelMap p = [1 \<mapsto> 0, i \<mapsto> Suc k]"
      "m_nextChannelId p = i + 1" "allocated p = Suc (Suc k)"
      "c_channelId (heap p 0) = 1" "c_channelId (heap p (Suc k)) = i"
      "\<not> c_stopping (heap p 0)" "\<not> c_done (heap p 0)"
    unfolding p_def by (simp_all add: Play_silence_fields a)
  have found: "FindChannel i p = Some (Suc k)"
    by (simp add: FindChannel_def weak_lock_def p)
  have ch: "m_channels (OnChannelEnded i p) = [0]"
    using ne by (simp add: OnChannelEnded_found(1) [OF found] p)
  have mp: "m_channelMap (OnChannelEnded i p) = [1 \<mapsto> 0]"
    using ne by (simp add: OnChannelEnded_found(2) [OF found] p fun_eq_iff)
  have hp: "heap (OnChannelEnded i p) 0 = heap p 0"
    by (simp add: OnChannelEnded_found(3) [OF found])
  have nx: "i + 1 = word_of_nat (Suc k + 2)" by (simp add: i_def)
  have "first_alone (Suc k) (OnChannelEnded i p)"
    unfolding first_alone_def ch mp hp OnChannelEnded_fields using p by (simp add: i_def)
  moreover have "word_of_nat (1 + Suc k) = i" by (simp add: i_def)
  ultimately show ?thesis unfolding p_def by simp
qed

lemma first_alone_churn:
  assumes "first_alone 0 m" "k < 2 ^ 32"
  shows "first_alone k (run (churn 1 k) m)"
  using assms(2)
proof (induction k)
  case 0
  then show ?case using assms(1) by simp
next
  case (Suc k)
  then have "first_alone k (run (churn 1 k) m)" by simp
  from first_alone_round [OF this Suc.prems] show ?case
    by (simp add: run_append step_def)
qed

lemma first_alone_start: "first_alone 0 (fst (Play example_env (Some silence) 0 False WebAudioMixer_new))"
  unfolding first_alone_def
  by (simp add: Play_silence_fields) (simp add: WebAudioMixer_new_def WebAudioChannel_fields_def)

lemma long_session_state:
  "first_alone (2 ^ 32 - 1)
     (run (churn 1 (2 ^ 32 - 1)) (fst (Play example_env (Some silence) 0 False WebAudioMixer_new)))"
  by (rule first_alone_churn [OF first_alone_start]) simp

lemma run_long_session:
  "run long_session WebAudioMixer_new =
     fst (Play example_env (Some silence) 0 False
       (run (churn 1 (2 ^ 32 - 1))
          (fst (Play example_env (Some silence) 0 False WebAudioMixer_new))))"
  by (simp add: long_session_def run_append step_def)



subsection \<open>Channel identifiers\<close>

lemma Play_returns:
  assumes "snd (Play env source loop dod m) = Some a"
  shows "c_channelId (heap (fst (Play env source loop dod m)) a) = m_nextChannelId m"
    and "m_nextChannelId (fst (Play env source loop dod m)) = m_nextChannelId m + 1"
proof -
  from heap_Play_accepted [OF assms]
  show "c_channelId (heap (fst (Play env source loop dod m)) a) = m_nextChannelId m"
    by (auto simp: started_channel_def fresh_channel_def WebAudioChannel_fields_def)
  show "m_nextChannelId (fst (Play env source loop dod m)) = m_nextChannelId m + 1"
    using assms
    by (auto simp: Play_decoded Play_locked_fields Play_locked_snd split: option.splits if_splits)
qed

lemma step_nextChannelId:
  assumes "num_plays [(env, op)] = 0"
  shows "m_nextChannelId (step env op m) = m_nextChannelId m"
proof (cases "receiver op")
  case (Some a)
  then show ?thesis by (simp add: step_def channel_call_fields)
next
  case None
  then show ?thesis
    using assms
    by (cases op)
       (simp_all add: step_def Tick_fields OnChannelEnded_fields Close_fields SetVolume_def
          AddSource_fields release_source_fields)
qed

lemma returned_ids_other:
  assumes "num_plays [(env, op)] = 0"
  shows "returned_ids ((env, op) # rest) m = returned_ids rest (step env op m)"
  using assms by (cases op) simp_all

lemma map_upt_shift: "map f [0..<Suc n] = f 0 # map (\<lambda>k. f (Suc k)) [0..<n]"
proof -
  have "[0..<Suc n] = 0 # map Suc [0..<n]"
    by (simp add: upt_conv_Cons map_Suc_upt del: upt_Suc)
  then show ?thesis by (simp only: list.map map_map o_def)
qed

lemma returned_ids_closed:
  "returned_ids ops m
     = map (\<lambda>k. m_nextChannelId m + word_of_nat k) [0..<length (returned_ids ops m)]"
proof (induction ops arbitrary: m)
  case Nil
  show ?case by simp
next
  case (Cons x ops)
  obtain env op where x: "x = (env, op)" by (cases x)
  show ?case
  proof (cases "num_plays [(env, op)] = 0")
    case True
    show ?thesis
      unfolding x returned_ids_other [OF True]
      using Cons.IH [of "step env op m"] by (simp add: step_nextChannelId [OF True])
  next
    case False
    then obtain source loop dod where op: "op = OpPlay source loop dod" by (cases op) simp_all
    obtain m' r where p: "Play env source loop dod m = (m', r)" by (cases "Play env source loop dod m")
    show ?thesis
    proof (cases r)
      case None
      then have "m' = m" using Play_None_unchanged [of env source loop dod m] p by simp
      then show ?thesis unfolding x op using p None Cons.IH [of m] by simp
    next
      case (Some a)
      then have s: "snd (Play env source loop dod m) = Some a" using p by simp
      have i: "c_channelId (heap m' a) = m_nextChannelId m"
        and n: "m_nextChannelId m' = m_nextChannelId m + 1"
        using Play_returns [OF s] p by simp_all
      define f where "f = (\<lambda>k. m_nextChannelId m + (word_of_nat k :: 32 word))"
      define l where "l = length (returned_ids ops m')"
      have e1: "returned_ids (x # ops) m = m_nextChannelId m # returned_ids ops m'"
        unfolding x op using p Some i by simp
      have e2: "returned_ids ops m' = map (\<lambda>k. f (Suc k)) [0..<l]"
        using Cons.IH [of m'] unfolding f_def l_def by (simp add: n add.assoc)
      have len: "length (returned_ids (x # ops) m) = Suc l"
        unfolding e1 l_def by simp
      have "returned_ids (x # ops) m = f 0 # map (\<lambda>k. f (Suc k)) [0..<l]"
        unfolding e1 using e2 by (simp add: f_def)
      also have "\<dots> = map f [0..<Suc l]" by (rule map_upt_shift [symmetric])
      finally show ?thesis unfolding len f_def .
    qed
  qed
qed

lemma returned_ids_nth:
  assumes "i < length (returned_ids ops m)"
  shows "returned_ids ops m ! i = m_nextChannelId m + word_of_nat i"
proof -
  have "returned_ids ops m ! i
      = map (\<lambda>k. m_nextChannelId m + word_of_nat k) [0..<length (returned_ids ops m)] ! i"
    using returned_ids_closed [of ops m] by simp
  also have "\<dots> = m_nextChannelId m + word_of_nat i"
    using assms by (simp only: nth_map_upt) simp
  finally show ?thesis .
qed

lemma sint_small:
  assumes "k < 2 ^ 31"
  shows "sint (word_of_nat k :: 32 word) = int k"
proof -
  have "int k < 2 ^ 31" using assms by (simp flip: of_nat_less_iff)
  moreover have "- (2 ^ 31) \<le> int k" by (rule order_trans [of _ 0]) simp_all
  ultimately have "signed_take_bit 31 (int k) = int k"
    by (rule signed_take_bit_int_eq_self [rotated])
  then show ?thesis by (simp add: signed_of_nat)
qed

text \<open>
  Claim C8, as amended. As long as fewer than \<open>2 ^ 31\<close> calls of \<open>Play\<close> have succeeded on
  a mixer, the \<open>k\<close>-th successful call returns the identifier \<open>k\<close> (counting from 1): the
  identifiers are non-zero, strictly increasing and never reused. Any other calls may
  come in between.
\<close>

theorem identifiers_monotonic:
  assumes "length (returned_ids ops WebAudioMixer_new) < 2 ^ 31"
  shows "(\<forall>i < length (returned_ids ops WebAudioMixer_new).
            sint (returned_ids ops WebAudioMixer_new ! i) = int i + 1)
       \<and> 0 \<notin> set (returned_ids ops WebAudioMixer_new)
       \<and> sorted_wrt (\<lambda>x y. sint x < sint y) (returned_ids ops WebAudioMixer_new)
       \<and> distinct (returned_ids ops WebAudioMixer_new)"
proof -
  define ids where "ids = returned_ids ops WebAudioMixer_new"
  have nth: "sint (ids ! i) = int i + 1" if "i < length ids" for i
  proof -
    have "ids ! i = 1 + word_of_nat i"
      using that unfolding ids_def by (simp add: returned_ids_nth WebAudioMixer_new_def)
    then have "ids ! i = word_of_nat (Suc i)" by simp
    moreover have "Suc i < 2 ^ 31" using that assms unfolding ids_def by simp
    ultimately show ?thesis by (simp add: sint_small del: of_nat_Suc)
  qed
  have zero: "0 \<notin> set ids"
  proof
    assume "0 \<in> set ids"
    then obtain i where "i < length ids" "ids ! i = 0" by (auto simp: in_set_conv_nth)
    with nth [of i] show False by simp
  qed
  have sorted: "sorted_wrt (\<lambda>x y. sint x < sint y) ids"
    by (simp add: sorted_wrt_iff_nth_less nth)
  have "distinct ids"
  proof (unfold distinct_conv_nth, intro allI impI)
    fix i j assume "i < length ids" "j < length ids" "i \<noteq> j"
    then have "sint (ids ! i) \<noteq> sint (ids ! j)" by (simp add: nth)
    then show "ids ! i \<noteq> ids ! j" by auto
  qed
  with nth zero sorted show ?thesis unfolding ids_def by simp
qed

lemma returned_ids_append:
  "returned_ids (xs @ ys) m = returned_ids xs m @ returned_ids ys (run xs m)"
proof (induction xs arbitrary: m)
  case Nil
  show ?case by simp
next
  case (Cons x xs)
  obtain env op where x: "x = (env, op)" by (cases x)
  show ?case
  proof (cases "num_plays [(env, op)] = 0")
    case True
    show ?thesis
      unfolding x append_Cons returned_ids_other [OF True] using Cons.IH by simp
  next
    case False
    then obtain source loop dod where op: "op = OpPlay source loop dod" by (cases op) simp_all
    show ?thesis
      unfolding x op using Cons.IH
      by (cases "Play env source loop dod m") (auto simp: step_def split: option.splits)
  qed
qed

lemma length_returned_ids_churn: "length (returned_ids (churn b n) m) = n"
proof (induction n)
  case 0
  show ?case by simp
next
  case (Suc n)
  have "length (returned_ids [(example_env, OpPlay (Some silence) 0 False),
                   (example_env, OpOnChannelEnded i)] m') = 1" for i m'
    by (cases "Play example_env (Some silence) 0 False m'")
       (use Play_silence_fields(6) [of example_env 0 False m'] in auto)
  with Suc show ?case by (simp add: returned_ids_append)
qed

lemma churn_nth:
  assumes "i < n"
  shows "returned_ids (churn 0 n) WebAudioMixer_new ! i = 1 + word_of_nat i"
  using returned_ids_nth [of i "churn 0 n" WebAudioMixer_new] assms
  by (simp add: length_returned_ids_churn WebAudioMixer_new_def)

text \<open>
  Claim C8 as stated fails on long sequences of successful \<open>Play\<close> calls (each followed by
  the completion of its channel): the \<open>2 ^ 31\<close>-th identifier is \<open>- 2 ^ 31\<close>, after
  \<open>2 ^ 31 - 1\<close>; the \<open>2 ^ 32\<close>-th identifier is 0; and the identifier after that is 1 again,
  as the very first one.
\<close>

theorem identifiers_wrap_counterexample:
  "sint (returned_ids (churn 0 (2 ^ 31)) WebAudioMixer_new ! (2 ^ 31 - 2)) = 2 ^ 31 - 1
   \<and> sint (returned_ids (churn 0 (2 ^ 31)) WebAudioMixer_new ! (2 ^ 31 - 1)) = - (2 ^ 31)
   \<and> returned_ids (churn 0 (2 ^ 32)) WebAudioMixer_new ! (2 ^ 32 - 1) = 0
   \<and> returned_ids (churn 0 (2 ^ 32 + 1)) WebAudioMixer_new ! 0 = 1
   \<and> returned_ids (churn 0 (2 ^ 32 + 1)) WebAudioMixer_new ! (2 ^ 32) = 1"
proof -
  have 1: "returned_ids (churn 0 (2 ^ 31)) WebAudioMixer_new ! (2 ^ 31 - 2)
             = 1 + word_of_nat (2 ^ 31 - 2)"
    by (rule churn_nth) simp
  have 2: "returned_ids (churn 0 (2 ^ 31)) WebAudioMixer_new ! (2 ^ 31 - 1)
             = 1 + word_of_nat (2 ^ 31 - 1)"
    by (rule churn_nth) simp
  have 3: "returned_ids (churn 0 (2 ^ 32)) WebAudioMixer_new ! (2 ^ 32 - 1)
             = 1 + word_of_nat (2 ^ 32 - 1)"
    by (rule churn_nth) simp
  have 4: "returned_ids (churn 0 (2 ^ 32 + 1)) WebAudioMixer_new ! 0 = 1 + word_of_nat 0"
    by (rule churn_nth) simp
  have 5: "returned_ids (churn 0 (2 ^ 32 + 1)) WebAudioMixer_new ! (2 ^ 32)
             = 1 + word_of_nat (2 ^ 32)"
    by (rule churn_nth) simp
  show ?thesis unfolding 1 2 3 4 5 by simp
qed

text \<open>Two rounds of \<open>Play\<close> and completion: the identifiers are 1 and 2.\<close>

theorem identifiers_monotonic_witness:
  "length (returned_ids (churn 0 2) WebAudioMixer_new) < 2 ^ 31
   \<and> sint (returned_ids (churn 0 2) WebAudioMixer_new ! 0) = 1
   \<and> sint (returned_ids (churn 0 2) WebAudioMixer_new ! 1) = 2
   \<and> distinct (returned_ids (churn 0 2) WebAudioMixer_new)"
proof -
  have l: "length (returned_ids (churn 0 2) WebAudioMixer_new) = 2"
    by (rule length_returned_ids_churn)
  then have h: "length (returned_ids (churn 0 2) WebAudioMixer_new) < 2 ^ 31" by simp
  from identifiers_monotonic [OF h] have
    n: "\<And>i. i < length (returned_ids (churn 0 2) WebAudioMixer_new)
          \<Longrightarrow> sint (returned_ids (churn 0 2) WebAudioMixer_new ! i) = int i + 1"
    and d: "distinct (returned_ids (churn 0 2) WebAudioMixer_new)" by blast+
  show ?thesis using h n [of 0] n [of 1] d by (simp add: l)
qed

subsection \<open>SetVolume\<close>

lemma Tick_commands_volume_frame:
  "concat (map (tick_command env (m\<lparr>m_volume := v\<rparr>)) xs)
     = concat (map (\<lambda>a. if c_stopping (heap m a) then [WebAudioStopChannel (c_channelId (heap m a))]
                           else if \<not> c_done (heap m a)
                                then [update_command env (m\<lparr>m_volume := v\<rparr>) a] else []) xs)"
proof -
  have "tick_command env (m\<lparr>m_volume := v\<rparr>)
      = (\<lambda>a. if c_stopping (heap m a) then [WebAudioStopChannel (c_channelId (heap m a))]
              else if \<not> c_done (heap m a)
                   then [update_command env (m\<lparr>m_volume := v\<rparr>) a] else [])"
    by (simp add: tick_command_def fun_eq_iff)
  then show ?thesis by (simp only:)
qed

text \<open>
  Claim C10. \<open>SetVolume(s)\<close> is the assignment of the master scalar followed by a full
  \<open>Tick\<close>. So it sends, channel by channel in list order, a stop command for every live
  channel flagged stopping and a parameter update (computed with the new scalar) for every
  other live channel that is not done; it removes the stopping channels from the list and
  from the registry; and it sweeps the released sources out of the pool.
\<close>

theorem SetVolume_runs_Tick:
  "SetVolume env v m = Tick env (m\<lparr>m_volume := v\<rparr>)
   \<and> m_volume (SetVolume env v m) = v
   \<and> backend (SetVolume env v m) = backend m @ Tick_commands env (m\<lparr>m_volume := v\<rparr>)
   \<and> Tick_commands env (m\<lparr>m_volume := v\<rparr>)
       = concat (map (\<lambda>a. if c_stopping (heap m a)
                           then [WebAudioStopChannel (c_channelId (heap m a))]
                           else if \<not> c_done (heap m a)
                                then [update_command env (m\<lparr>m_volume := v\<rparr>) a] else [])
                  (m_channels m))
   \<and> m_channels (SetVolume env v m) = filter (\<lambda>a. \<not> c_stopping (heap m a)) (m_channels m)
   \<and> m_channelMap (SetVolume env v m)
       = (\<lambda>i. if i \<in> (\<lambda>a. c_channelId (heap m a)) ` {a \<in> set (m_channels m). c_stopping (heap m a)}
               then None else m_channelMap m i)
   \<and> m_sources (SetVolume env v m) = filter (\<lambda>source. \<not> src_released source) (m_sources m)"
  unfolding SetVolume_def
  by (simp add: Tick_fields Tick_backend Tick_channels Tick_channelMap Tick_commands_def
      Tick_commands_volume_frame cong: if_cong)

lemma Stop_fields:
  "m_channels (Stop a m) = m_channels m"
  "m_channelMap (Stop a m) = m_channelMap m"
  "backend (Stop a m) = backend m"
  "m_mutex (Stop a m) = m_mutex m"
  "lock_violations (Stop a m) = lock_violations m"
  "heap (Stop a m) = (heap m)(a := (heap m a)\<lparr>c_stopping := True\<rparr>)"
  by (simp_all add: Stop_def SetStopping_def)

text \<open>On a mixer whose only channel was stopped by the caller: one stop command, no channel left.\<close>

theorem SetVolume_runs_Tick_witness:
  "SetVolume example_env (1 / 2)
       (Stop 0 (fst (Play example_env (Some silence) 0 False WebAudioMixer_new)))
     = Tick example_env
         ((Stop 0 (fst (Play example_env (Some silence) 0 False WebAudioMixer_new)))
            \<lparr>m_volume := 1 / 2\<rparr>)
   \<and> m_channels (SetVolume example_env (1 / 2)
         (Stop 0 (fst (Play example_env (Some silence) 0 False WebAudioMixer_new)))) = []
   \<and> new_commands (Stop 0 (fst (Play example_env (Some silence) 0 False WebAudioMixer_new)))
        (SetVolume example_env (1 / 2)
           (Stop 0 (fst (Play example_env (Some silence) 0 False WebAudioMixer_new))))
      = [WebAudioStopChannel 1]"
proof -
  define m0 where "m0 = Stop 0 (fst (Play example_env (Some silence) 0 False WebAudioMixer_new))"
  have m0: "m_channels m0 = [0]" "c_stopping (heap m0 0)" "c_channelId (heap m0 0) = 1"
    unfolding m0_def
    by (simp_all add: Stop_fields Play_silence_fields) (simp_all add: WebAudioMixer_new_def)
  from SetVolume_runs_Tick [of example_env "1 / 2" m0]
  have a: "SetVolume example_env (1 / 2) m0 = Tick example_env (m0\<lparr>m_volume := 1 / 2\<rparr>)"
    and b: "backend (SetVolume example_env (1 / 2) m0)
              = backend m0 @ Tick_commands example_env (m0\<lparr>m_volume := 1 / 2\<rparr>)"
    and c: "Tick_commands example_env (m0\<lparr>m_volume := 1 / 2\<rparr>)
       = concat (map (\<lambda>a. if c_stopping (heap m0 a)
                           then [WebAudioStopChannel (c_channelId (heap m0 a))]
                           else if \<not> c_done (heap m0 a)
                                then [update_command example_env (m0\<lparr>m_volume := 1 / 2\<rparr>) a]
                                else [])
                  (m_channels m0))"
    and d: "m_channels (SetVolume example_env (1 / 2) m0)
              = filter (\<lambda>a. \<not> c_stopping (heap m0 a)) (m_channels m0)"
    by blast+
  have c': "Tick_commands example_env (m0\<lparr>m_volume := 1 / 2\<rparr>) = [WebAudioStopChannel 1]"
    unfolding c by (simp add: m0)
  have d': "m_channels (SetVolume example_env (1 / 2) m0) = []"
    unfolding d by (simp add: m0)
  have b': "new_commands m0 (SetVolume example_env (1 / 2) m0) = [WebAudioStopChannel 1]"
    unfolding new_commands_def b c' by simp
  show ?thesis
    unfolding m0_def [symmetric] using a b' d' by blast
qed

subsection \<open>Effective volume\<close>

lemma UpdateAdjustedSound_curves:
  assumes "adjust_cache_ok m" "0 \<le> soundVolume env" "0 \<le> rideMusicVolume env"
  shows "m_adjustSoundVolume (UpdateAdjustedSound env m) = perceptual (soundVolume env)"
    and "m_adjustMusicVolume (UpdateAdjustedSound env m) = perceptual (rideMusicVolume env)"
  using assms by (auto simp: adjust_cache_ok_def)

lemma GetAdjustedVolume_effective:
  assumes "adjust_cache_ok m" "0 \<le> soundVolume env" "0 \<le> rideMusicVolume env"
  shows "GetAdjustedVolume env (UpdateAdjustedSound env m) channel
         = effective_volume env (m_volume m) channel"
  using UpdateAdjustedSound_curves [OF assms]
  by (cases "c_group channel")
     (simp_all add: GetAdjustedVolume_def effective_volume_def categoryAdjust_def Let_def
        del: UpdateAdjustedSound_adjust)

lemma backend_UpdateChannel:
  "backend (UpdateChannel env a r m) =
     backend m @ (if c_done (heap m a) then []
                  else [WebAudioUpdateChannel (c_channelId (heap m a)) (c_rate (heap m a))
                          (GetAdjustedVolume env (UpdateAdjustedSound env m) (heap m a))
                          (c_pan (heap m a))
                          (if GetBytesPerSecond (c_format (heap m a)) > 0
                           then Finite (real (unat (c_offsetBytes (heap m a)))
                                        / real_of_int (GetBytesPerSecond (c_format (heap m a))))
                           else Finite 0)
                          (if r then 1 else 0)])"
  by (simp add: UpdateChannel_def emit_def Let_def)

lemma backend_Play:
  "backend (fst (Play env source loop dod m)) =
     backend m @
     (case snd (Play env source loop dod m) of
        None \<Rightarrow> []
      | Some a \<Rightarrow>
          [WebAudioPlayChannel (m_nextChannelId m)
             (channels (c_format (heap (fst (Play env source loop dod m)) a)))
             (frame_count (snd (the (decoded env source)))
                (channels (c_format (heap (fst (Play env source loop dod m)) a))))
             (freq (c_format (heap (fst (Play env source loop dod m)) a)))
             (snd (the (decoded env source))) loop 1
             (GetAdjustedVolume env (UpdateAdjustedSound env m)
                (heap (fst (Play env source loop dod m)) a))
             (1 / 2)
             (double_div 0 (real_of_int (GetBytesPerSecond
                (c_format (heap (fst (Play env source loop dod m)) a)))))])"
  by (auto simp: Play_decoded Play_locked_snd Play_locked_backend Play_locked_heap
      started_channel_def fresh_channel_def WebAudioChannel_fields_def split: option.splits)

text \<open>
  Claim C4. The volume that \<open>UpdateChannel\<close> and \<open>Play\<close> send to the backend is
  \<open>effective_volume\<close>: channel volume \<times> master scalar \<times> (master volume / 100, or 0
  when sound is disabled) \<times> the perceptual curve \<open>(setting / 100) ^ (10 / 6)\<close> of the
  channel's category, over \<open>kMixerVolumeMax\<close>, where for the Sound category in the title
  sequence the product of the three gain factors is capped at 0.75. With a master scalar
  of 0, or with sound disabled, it is 0 for every channel. (Volumes as real numbers;
  the configured volumes are percentages, hence not negative.)
\<close>

theorem effective_volume_sent:
  assumes "adjust_cache_ok m" "0 \<le> soundVolume env" "0 \<le> rideMusicVolume env"
  shows "GetAdjustedVolume env (UpdateAdjustedSound env m) channel
           = effective_volume env (m_volume m) channel
         \<and> (\<not> c_done (heap m a) \<longrightarrow>
              map command_volume (new_commands m (UpdateChannel env a restart m))
                = [Some (effective_volume env (m_volume m) (heap m a))])
         \<and> (\<forall>b. snd (Play env source loop dod m) = Some b \<longrightarrow>
              map command_volume (new_commands m (fst (Play env source loop dod m)))
                = [Some (effective_volume env (m_volume m)
                           (heap (fst (Play env source loop dod m)) b))])
         \<and> (titleSequence env \<and> c_group channel = Sound \<and> 0 \<le> c_volume channel
              \<and> 0 < kMixerVolumeMax env \<longrightarrow>
              effective_volume env (m_volume m) channel
                \<le> real_of_int (c_volume channel) * 0.75 / real_of_int (kMixerVolumeMax env))
         \<and> (m_volume m = 0 \<or> \<not> masterSoundEnabled env \<longrightarrow>
              effective_volume env (m_volume m) channel = 0)
         \<and> (\<not> (titleSequence env \<and> c_group channel = Sound) \<longrightarrow>
              effective_volume env (m_volume m) channel
                = real_of_int (c_volume channel) * m_volume m
                  * (if masterSoundEnabled env then real_of_int (masterVolume env) / 100 else 0)
                  * categoryAdjust env (c_group channel) / real_of_int (kMixerVolumeMax env))
         \<and> categoryAdjust env Sound = (real_of_int (soundVolume env) / 100) powr (10 / 6)
         \<and> categoryAdjust env RideMusic = (real_of_int (rideMusicVolume env) / 100) powr (10 / 6)
         \<and> categoryAdjust env TitleMusic = (real_of_int (rideMusicVolume env) / 100) powr (10 / 6)"
proof (intro conjI impI allI)
  show "effective_volume env (m_volume m) channel
                = real_of_int (c_volume channel) * m_volume m
                  * (if masterSoundEnabled env then real_of_int (masterVolume env) / 100 else 0)
                  * categoryAdjust env (c_group channel) / real_of_int (kMixerVolumeMax env)"
    if "\<not> (titleSequence env \<and> c_group channel = Sound)"
  proof -
    have "(if titleSequence env \<and> c_group channel = Sound then x else y) = y" for x y :: real
      by (rule if_not_P [OF that])
    then show ?thesis unfolding effective_volume_def Let_def by (simp only: mult.assoc)
  qed
  show "categoryAdjust env Sound = (real_of_int (soundVolume env) / 100) powr (10 / 6)"
    "categoryAdjust env RideMusic = (real_of_int (rideMusicVolume env) / 100) powr (10 / 6)"
    "categoryAdjust env TitleMusic = (real_of_int (rideMusicVolume env) / 100) powr (10 / 6)"
    by (simp_all add: categoryAdjust_def perceptual_def)
  show "GetAdjustedVolume env (UpdateAdjustedSound env m) channel
           = effective_volume env (m_volume m) channel"
    by (rule GetAdjustedVolume_effective [OF assms])
  show "map command_volume (new_commands m (UpdateChannel env a restart m))
                = [Some (effective_volume env (m_volume m) (heap m a))]"
    if "\<not> c_done (heap m a)"
    using that GetAdjustedVolume_effective [OF assms, of "heap m a"]
    by (simp add: new_commands_def backend_UpdateChannel)
  show "map command_volume (new_commands m (fst (Play env source loop dod m)))
                = [Some (effective_volume env (m_volume m)
                           (heap (fst (Play env source loop dod m)) b))]"
    if "snd (Play env source loop dod m) = Some b" for b
    using that GetAdjustedVolume_effective [OF assms, of "heap (fst (Play env source loop dod m)) b"]
    by (simp add: new_commands_def backend_Play)
  show "effective_volume env (m_volume m) channel
                \<le> real_of_int (c_volume channel) * 0.75 / real_of_int (kMixerVolumeMax env)"
    if "titleSequence env \<and> c_group channel = Sound \<and> 0 \<le> c_volume channel
              \<and> 0 < kMixerVolumeMax env"
  proof -
    define gain where "gain = m_volume m
        * (if masterSoundEnabled env then real_of_int (masterVolume env) / 100 else 0)
        * categoryAdjust env (c_group channel)"
    have eq: "effective_volume env (m_volume m) channel
          = real_of_int (c_volume channel) * min gain 0.75 / real_of_int (kMixerVolumeMax env)"
      using that by (simp add: effective_volume_def Let_def gain_def)
    have "real_of_int (c_volume channel) * min gain 0.75
          \<le> real_of_int (c_volume channel) * 0.75"
      using that by (intro mult_left_mono) simp_all
    then show ?thesis
      unfolding eq using that by (intro divide_right_mono) simp_all
  qed
  show "effective_volume env (m_volume m) channel = 0"
    if "m_volume m = 0 \<or> \<not> masterSoundEnabled env"
    using that by (auto simp: effective_volume_def Let_def)
qed

text \<open>All volumes at 100 percent, channel volume 128 of 128: the effective volume is 1.\<close>

theorem effective_volume_sent_witness:
  "adjust_cache_ok WebAudioMixer_new
   \<and> 0 \<le> soundVolume example_env \<and> 0 \<le> rideMusicVolume example_env
   \<and> snd (Play example_env (Some silence) 0 False WebAudioMixer_new) = Some 0
   \<and> map command_volume
        (new_commands WebAudioMixer_new
           (fst (Play example_env (Some silence) 0 False WebAudioMixer_new))) = [Some 1]"
proof -
  have h: "adjust_cache_ok WebAudioMixer_new" "0 \<le> soundVolume example_env"
      "0 \<le> rideMusicVolume example_env"
    by (simp_all add: adjust_cache_ok_def WebAudioMixer_new_def example_env_def)
  have s: "snd (Play example_env (Some silence) 0 False WebAudioMixer_new) = Some 0"
    by (simp add: Play_silence_fields WebAudioMixer_new_def)
  have c: "heap (fst (Play example_env (Some silence) 0 False WebAudioMixer_new)) 0
            = started_channel example_env 1 (Some silence)
                \<lparr>freq = 44100, format = AUDIO_S16SYS, channels = 2\<rparr> 0 False"
    by (simp add: Play_silence Play_locked_heap WebAudioMixer_new_def)
  have v: "effective_volume example_env (m_volume WebAudioMixer_new)
             (started_channel example_env 1 (Some silence)
                \<lparr>freq = 44100, format = AUDIO_S16SYS, channels = 2\<rparr> 0 False) = 1"
    by (simp add: effective_volume_def categoryAdjust_def perceptual_def started_channel_def
        fresh_channel_def WebAudioChannel_fields_def clamp_def example_env_def
        WebAudioMixer_new_def)
  from effective_volume_sent [OF h, where source = "Some silence" and loop = 0 and dod = False]
  have "map command_volume
        (new_commands WebAudioMixer_new
           (fst (Play example_env (Some silence) 0 False WebAudioMixer_new)))
        = [Some (effective_volume example_env (m_volume WebAudioMixer_new)
                   (heap (fst (Play example_env (Some silence) 0 False WebAudioMixer_new)) 0))]"
    using s by blast
  then show ?thesis using h s by (simp add: c v)
qed

subsection \<open>Offsets when the format has no bytes per second\<close>

lemma zero_bytes_per_second_guarded:
  assumes "GetBytesPerSecond (c_format (heap m a)) = 0"
  shows "SetOffset env a off m = (m, False)"
    and "GetOffset env a m = 0"
    and "map command_offset (new_commands m (UpdateChannel env a r m))
           = (if c_done (heap m a) then [] else [Some (Finite 0)])"
  using assms
  by (simp_all add: SetOffset_def GetOffset_def GetChannelOffsetBytes_def new_commands_def
      backend_UpdateChannel)

lemma Play_offset_NaN:
  assumes "snd (Play env source loop dod m) = Some a"
    and "GetBytesPerSecond (c_format (heap (fst (Play env source loop dod m)) a)) = 0"
  shows "map command_offset (new_commands m (fst (Play env source loop dod m))) = [Some NaN]"
  using assms by (simp add: new_commands_def backend_Play double_div_def)

text \<open>
  Claim C6 fails in \<open>Play\<close>. For a source whose format has the sample rate 0, and so 0 bytes
  per second, \<open>Play\<close> succeeds and sends the start offset \<open>0.0 / 0\<close>, which is NaN; the guarded
  conversion of \<open>UpdateChannel\<close> sends 0 for the same channel.
\<close>

theorem Play_start_offset_unguarded:
  "snd (Play example_env (Some rateless) 0 False WebAudioMixer_new) = Some 0
   \<and> GetBytesPerSecond
        (c_format (heap (fst (Play example_env (Some rateless) 0 False WebAudioMixer_new)) 0)) = 0
   \<and> map command_offset
        (new_commands WebAudioMixer_new
           (fst (Play example_env (Some rateless) 0 False WebAudioMixer_new))) = [Some NaN]
   \<and> map command_offset
        (new_commands (fst (Play example_env (Some rateless) 0 False WebAudioMixer_new))
           (UpdateChannel example_env 0 False
              (fst (Play example_env (Some rateless) 0 False WebAudioMixer_new))))
      = [Some (Finite 0)]"
proof -
  have s: "snd (Play example_env (Some rateless) 0 False WebAudioMixer_new) = Some 0"
    by (simp add: Play_rateless Play_locked_snd WebAudioMixer_new_def)
  have c: "heap (fst (Play example_env (Some rateless) 0 False WebAudioMixer_new)) 0
            = started_channel example_env 1 (Some rateless)
                \<lparr>freq = 0, format = AUDIO_S16SYS, channels = 1\<rparr> 0 False"
    by (simp add: Play_rateless Play_locked_heap WebAudioMixer_new_def)
  have z: "GetBytesPerSecond
        (c_format (heap (fst (Play example_env (Some rateless) 0 False WebAudioMixer_new)) 0)) = 0"
    unfolding c by (simp add: started_channel_def GetBytesPerSecond_def)
  have d: "\<not> c_done (heap (fst (Play example_env (Some rateless) 0 False WebAudioMixer_new)) 0)"
    unfolding c by (simp add: started_channel_def)
  show ?thesis
    using s z Play_offset_NaN [OF s z] zero_bytes_per_second_guarded(3) [OF z, of example_env False] d
    by simp
qed

subsection \<open>Teardown\<close>

lemma unlock_lock_guard: "\<not> m_mutex m \<Longrightarrow> unlock (lock_guard m) = m"
  by (cases m) (simp add: unlock_def lock_guard_def)

lemma Stop_idem: "Stop a (Stop a m) = Stop a m"
  by (simp add: Stop_def SetStopping_def modify_def)

lemma concat_single:
  "distinct xs \<Longrightarrow> a \<in> set xs \<Longrightarrow> concat (map (\<lambda>b. if b = a then [x] else []) xs) = [x]"
proof (induction xs)
  case Nil
  then show ?case by simp
next
  case (Cons y ys)
  show ?case
  proof (cases "y = a")
    case True
    then have "a \<notin> set ys" using Cons.prems by simp
    then have "concat (map (\<lambda>b. if b = a then [x] else []) ys) = []"
      by (induction ys) auto
    with True show ?thesis by simp
  next
    case False
    with Cons show ?thesis by simp
  qed
qed

lemma OnChannelEnded_idem: "OnChannelEnded i (OnChannelEnded i m) = OnChannelEnded i m"
proof -
  have nm: "\<not> m_mutex (OnChannelEnded i m)" by (simp add: OnChannelEnded_fields)
  have "FindChannel i (OnChannelEnded i m) = None"
  proof (cases "FindChannel i m")
    case None
    then show ?thesis
      by (simp add: OnChannelEnded_unknown FindChannel_def weak_lock_def unlock_def
          cong: option.case_cong)
  next
    case (Some a)
    then show ?thesis by (simp add: FindChannel_def OnChannelEnded_found(2) [OF Some])
  qed
  then show ?thesis by (simp add: OnChannelEnded_unknown unlock_lock_guard [OF nm])
qed

lemma OnChannelEnded_unregistered:
  assumes "m_channelMap m i = None" "\<not> m_mutex m"
  shows "OnChannelEnded i m = m"
proof -
  have "FindChannel i m = None" using assms(1) by (simp add: FindChannel_def)
  then show ?thesis by (simp add: OnChannelEnded_unknown unlock_lock_guard [OF assms(2)])
qed

lemma stop_commands_of_Tick:
  assumes "distinct (channel_ids m)" "a \<in> set (m_channels m)" "c_stopping (heap m a)"
  shows "filter (\<lambda>c. c = WebAudioStopChannel (c_channelId (heap m a))) (Tick_commands env m)
         = [WebAudioStopChannel (c_channelId (heap m a))]"
proof -
  let ?P = "\<lambda>c. c = WebAudioStopChannel (c_channelId (heap m a))"
  have d: "distinct (m_channels m)"
    using assms(1) unfolding channel_ids_def by (simp add: distinct_map)
  have inj: "inj_on (\<lambda>b. c_channelId (heap m b)) (set (m_channels m))"
    using assms(1) unfolding channel_ids_def by (simp add: distinct_map)
  have each: "filter ?P (tick_command env m b)
              = (if b = a then [WebAudioStopChannel (c_channelId (heap m a))] else [])"
    if "b \<in> set (m_channels m)" for b
  proof (cases "b = a")
    case True
    then show ?thesis using assms(3) by (simp add: tick_command_def)
  next
    case False
    then have "c_channelId (heap m b) \<noteq> c_channelId (heap m a)"
      using inj that assms(2) by (auto dest: inj_onD)
    with False show ?thesis by (simp add: tick_command_def update_command_def Let_def)
  qed
  have "filter ?P (Tick_commands env m)
        = concat (map (\<lambda>b. filter ?P (tick_command env m b)) (m_channels m))"
    by (simp add: Tick_commands_def filter_concat o_def)
  also have "\<dots> = concat (map (\<lambda>b. if b = a then [WebAudioStopChannel (c_channelId (heap m a))]
                                     else []) (m_channels m))"
    using each by (simp cong: map_cong)
  also have "\<dots> = [WebAudioStopChannel (c_channelId (heap m a))]"
    using d assms(2) by (rule concat_single)
  finally show ?thesis .
qed

lemma no_stop_command_of_Tick:
  assumes "\<forall>b \<in> set (m_channels m). c_channelId (heap m b) \<noteq> i"
  shows "filter (\<lambda>c. c = WebAudioStopChannel i) (Tick_commands env m) = []"
proof -
  have "filter (\<lambda>c. c = WebAudioStopChannel i) (tick_command env m b) = []"
    if "b \<in> set (m_channels m)" for b
    using that assms by (auto simp: tick_command_def update_command_def Let_def)
  then show ?thesis
    by (simp add: Tick_commands_def filter_concat o_def cong: map_cong)
qed

lemma step_never_readmits:
  assumes "b < allocated m" "b \<notin> set (m_channels m)"
  shows "b < allocated (step env op m) \<and> b \<notin> set (m_channels (step env op m))"
proof (cases "receiver op")
  case (Some a)
  with assms show ?thesis by (simp add: step_def channel_call_fields)
next
  case None
  show ?thesis
  proof (cases op)
    case (OpPlay source loop dod)
    with None assms show ?thesis
      by (auto simp: step_def Play_decoded Play_locked_fields split: option.splits)
  next
    case (OpOnChannelEnded i)
    with None assms show ?thesis
      by (cases "FindChannel i m")
         (simp_all add: step_def OnChannelEnded_fields OnChannelEnded_found
            OnChannelEnded_not_found)
  qed (use None assms in \<open>simp_all add: step_def Tick_fields Tick_channels Close_fields
         SetVolume_def AddSource_fields release_source_fields\<close>)
qed

lemma run_never_readmits:
  assumes "b < allocated m" "b \<notin> set (m_channels m)"
  shows "b < allocated (run ops m) \<and> b \<notin> set (m_channels (run ops m))"
  using assms
proof (induction ops arbitrary: m)
  case Nil
  then show ?case by simp
next
  case (Cons x ops)
  obtain env op where x: "x = (env, op)" by (cases x)
  from step_never_readmits [OF Cons.prems, of env op]
  show ?case unfolding x using Cons.IH [of "step env op m"] by simp
qed

text \<open>The invariant that needs no bound on the number of calls.\<close>

lemma registry_sound_cong:
  assumes "registry_sound m"
    and "allocated m' = allocated m"
    and "\<And>b. c_channelId (heap m' b) = c_channelId (heap m b)"
    and "m_channels m' = m_channels m" "m_channelMap m' = m_channelMap m"
    and "set (held m') \<subseteq> set (held m)"
    and "m_mutex m' = m_mutex m" "lock_violations m' = lock_violations m"
  shows "registry_sound m'"
  using assms unfolding registry_sound_def by (simp add: subset_iff)

lemma registry_sound_channel_call: "registry_sound m \<Longrightarrow> registry_sound (channel_call env op m)"
  by (erule registry_sound_cong) (simp_all add: channel_call_fields channel_call_id channel_call_held)

lemma registry_sound_AddSource: "registry_sound m \<Longrightarrow> registry_sound (AddSource s m)"
  by (rule registry_sound_cong, assumption) (simp_all add: AddSource_fields registry_sound_def)

lemma registry_sound_release_source: "registry_sound m \<Longrightarrow> registry_sound (release_source i m)"
  by (erule registry_sound_cong) (simp_all add: release_source_fields)

lemma registry_sound_volume: "registry_sound (m\<lparr>m_volume := v\<rparr>) = registry_sound m"
  by (simp add: registry_sound_def)

lemma registry_sound_Close: "registry_sound m \<Longrightarrow> registry_sound (Close m)"
  unfolding registry_sound_def by (simp add: Close_fields)

lemma registry_sound_Tick:
  assumes "registry_sound m"
  shows "registry_sound (Tick env m)"
proof -
  have map: "\<And>i a. m_channelMap m i = Some a \<Longrightarrow> a \<in> set (m_channels m) \<and> c_channelId (heap m a) = i"
    using assms unfolding registry_sound_def by blast
  have map': "a \<in> set (m_channels (Tick env m)) \<and> c_channelId (heap (Tick env m) a) = i"
    if "m_channelMap (Tick env m) i = Some a" for i a
  proof -
    from that have ni: "i \<notin> (\<lambda>b. c_channelId (heap m b)) ` {b \<in> set (m_channels m). c_stopping (heap m b)}"
      and s: "m_channelMap m i = Some a"
      by (simp_all add: Tick_channelMap split: if_splits)
    from map [OF s] have a: "a \<in> set (m_channels m)" "c_channelId (heap m a) = i" by simp_all
    with ni have "\<not> c_stopping (heap m a)" by auto
    with a show ?thesis by (simp add: Tick_channels Tick_heap)
  qed
  show ?thesis
    unfolding registry_sound_def
    using assms map'
    by (simp add: Tick_fields Tick_channels registry_sound_def)
qed

lemma registry_sound_SetVolume: "registry_sound m \<Longrightarrow> registry_sound (SetVolume env v m)"
  by (simp add: SetVolume_def registry_sound_Tick registry_sound_volume)

lemma registry_sound_FindChannel:
  assumes "registry_sound m"
  shows "FindChannel i m = m_channelMap m i"
proof (cases "m_channelMap m i")
  case None
  then show ?thesis by (simp add: FindChannel_def)
next
  case (Some a)
  then have "a \<in> set (m_channels m)" using assms unfolding registry_sound_def by blast
  with Some show ?thesis by (simp add: FindChannel_def weak_lock_def)
qed

lemma registry_sound_OnChannelEnded:
  assumes "registry_sound m"
  shows "registry_sound (OnChannelEnded i m)"
proof (cases "FindChannel i m")
  case None
  show ?thesis
    by (rule registry_sound_cong [OF assms])
       (use assms in \<open>simp_all add: OnChannelEnded_fields OnChannelEnded_not_found [OF None]
          registry_sound_def\<close>)
next
  case (Some a)
  have map: "\<And>i a. m_channelMap m i = Some a \<Longrightarrow> a \<in> set (m_channels m) \<and> c_channelId (heap m a) = i"
    using assms unfolding registry_sound_def by blast
  have map': "b \<in> set (m_channels (OnChannelEnded i m)) \<and> c_channelId (heap (OnChannelEnded i m) b) = j"
    if "m_channelMap (OnChannelEnded i m) j = Some b" for j b
  proof -
    from that have "j \<noteq> i" "m_channelMap m j = Some b"
      by (simp_all add: OnChannelEnded_found(2) [OF Some] split: if_splits)
    with map [of j b] show ?thesis
      by (auto simp add: OnChannelEnded_found(1) [OF Some] OnChannelEnded_found(3) [OF Some])
  qed
  show ?thesis
    unfolding registry_sound_def
    using assms map'
    by (simp add: OnChannelEnded_fields OnChannelEnded_found(1) [OF Some] registry_sound_def)
qed

lemma registry_sound_Play_locked:
  assumes "registry_sound m"
  shows "registry_sound (fst (Play_locked env source loop dod fmt fd chans frames m))"
proof -
  let ?m' = "fst (Play_locked env source loop dod fmt fd chans frames m)"
  have sub: "\<And>a. a \<in> set (m_channels m) \<Longrightarrow> a < allocated m"
    and map: "\<And>i a. m_channelMap m i = Some a \<Longrightarrow> a \<in> set (m_channels m) \<and> c_channelId (heap m a) = i"
    using assms unfolding registry_sound_def by blast+
  have map': "a \<in> set (m_channels ?m') \<and> c_channelId (heap ?m' a) = i"
    if "m_channelMap ?m' i = Some a" for i a
  proof (cases "i = m_nextChannelId m")
    case True
    with that have "a = allocated m" by (simp add: Play_locked_fields)
    with True show ?thesis
      by (simp add: Play_locked_fields Play_locked_heap started_channel_def fresh_channel_def
          WebAudioChannel_fields_def)
  next
    case False
    with that have s: "m_channelMap m i = Some a" by (simp add: Play_locked_fields)
    from map [OF s] sub [of a] have "a \<in> set (m_channels m)" "c_channelId (heap m a) = i"
        "a \<noteq> allocated m" by auto
    then show ?thesis by (simp add: Play_locked_fields Play_locked_heap)
  qed
  have rest: "distinct (m_channels ?m')"
      "\<forall>a \<in> set (m_channels ?m'). a < allocated ?m'" "\<forall>a \<in> set (held ?m'). a < allocated ?m'"
      "\<not> m_mutex ?m'" "lock_violations ?m' = 0"
    using assms sub
    by (auto simp add: Play_locked_fields registry_sound_def less_Suc_eq)
  show ?thesis
    unfolding registry_sound_def
    using rest map' by blast
qed

lemma registry_sound_Play:
  assumes "registry_sound m"
  shows "registry_sound (fst (Play env source loop dod m))"
  using assms
  by (auto simp: Play_decoded registry_sound_Play_locked split: option.splits)

lemma registry_sound_step:
  assumes "registry_sound m"
  shows "registry_sound (step env op m)"
proof (cases "receiver op")
  case (Some a)
  then have "step env op m = (if a \<in> set (held m) then channel_call env op m else m)"
    by (simp add: step_def)
  then show ?thesis using assms by (simp add: registry_sound_channel_call)
next
  case None
  then show ?thesis
    using assms
    by (cases op)
       (auto simp: step_def registry_sound_Tick registry_sound_OnChannelEnded registry_sound_Play
         registry_sound_Close registry_sound_SetVolume registry_sound_AddSource
         registry_sound_release_source)
qed

lemma registry_sound_run: "registry_sound m \<Longrightarrow> registry_sound (run ops m)"
proof (induction ops arbitrary: m)
  case Nil
  then show ?case by simp
next
  case (Cons x ops)
  obtain env op where x: "x = (env, op)" by (cases x)
  show ?case unfolding x using Cons.IH [OF registry_sound_step [OF Cons.prems]] by simp
qed

lemma registry_sound_new: "registry_sound WebAudioMixer_new"
  by (simp add: registry_sound_def WebAudioMixer_new_def)

text \<open>Every channel object carries an identifier that some Play call returned.\<close>

lemma step_ids:
  assumes "num_plays [(env, op)] = 0"
  shows "allocated (step env op m) = allocated m"
    and "c_channelId (heap (step env op m) b) = c_channelId (heap m b)"
proof -
  have "allocated (step env op m) = allocated m
        \<and> c_channelId (heap (step env op m) b) = c_channelId (heap m b)"
  proof (cases "receiver op")
    case (Some a)
    then show ?thesis by (simp add: step_def channel_call_fields channel_call_id)
  next
    case None
    show ?thesis
    proof (cases op)
      case (OpOnChannelEnded i)
      with None show ?thesis
        by (cases "FindChannel i m")
           (simp_all add: step_def OnChannelEnded_fields OnChannelEnded_found
              OnChannelEnded_not_found)
    qed (use None assms in \<open>simp_all add: step_def Tick_fields Tick_heap Close_fields
           SetVolume_def AddSource_fields release_source_fields\<close>)
  qed
  then show "allocated (step env op m) = allocated m"
    and "c_channelId (heap (step env op m) b) = c_channelId (heap m b)" by simp_all
qed

lemma Play_ids:
  "allocated (fst (Play env source loop dod m))
     = (if snd (Play env source loop dod m) = None then allocated m else Suc (allocated m))"
  "b < allocated m \<Longrightarrow>
     c_channelId (heap (fst (Play env source loop dod m)) b) = c_channelId (heap m b)"
  "snd (Play env source loop dod m) = Some a \<Longrightarrow> a = allocated m"
  by (auto simp: Play_decoded Play_locked_fields Play_locked_snd Play_locked_heap
      split: option.splits if_splits)

lemma run_ids_returned:
  assumes "b < allocated (run ops m)"
  shows "(b < allocated m \<and> c_channelId (heap (run ops m) b) = c_channelId (heap m b))
         \<or> c_channelId (heap (run ops m) b) \<in> set (returned_ids ops m)"
  using assms
proof (induction ops arbitrary: m)
  case Nil
  then show ?case by simp
next
  case (Cons x ops)
  obtain env op where x: "x = (env, op)" by (cases x)
  show ?case
  proof (cases "num_plays [(env, op)] = 0")
    case True
    from Cons.prems have "b < allocated (run ops (step env op m))" by (simp add: x)
    from Cons.IH [OF this] show ?thesis
      unfolding x returned_ids_other [OF True]
      by (simp add: step_ids [OF True])
  next
    case False
    then obtain source loop dod where op: "op = OpPlay source loop dod"
      by (cases op) simp_all
    define p where "p = fst (Play env source loop dod m)"
    have run: "run (x # ops) m = run ops p" by (simp add: x op step_def p_def)
    from Cons.prems have "b < allocated (run ops p)" by (simp add: run)
    from Cons.IH [OF this]
    have ih: "(b < allocated p \<and> c_channelId (heap (run ops p) b) = c_channelId (heap p b))
              \<or> c_channelId (heap (run ops p) b) \<in> set (returned_ids ops p)" .
    show ?thesis
    proof (cases "snd (Play env source loop dod m)")
      case None
      then have r: "returned_ids (x # ops) m = returned_ids ops p"
        by (cases "Play env source loop dod m") (simp add: x op p_def)
      have "allocated p = allocated m" unfolding p_def by (simp add: Play_ids(1) None)
      moreover have "b < allocated m \<Longrightarrow> c_channelId (heap p b) = c_channelId (heap m b)"
        unfolding p_def by (rule Play_ids(2))
      ultimately show ?thesis using ih unfolding run r by auto
    next
      case (Some a)
      then have r: "returned_ids (x # ops) m = c_channelId (heap p a) # returned_ids ops p"
        by (cases "Play env source loop dod m") (simp add: x op p_def)
      have a: "a = allocated m" using Some by (rule Play_ids(3))
      have al: "allocated p = Suc (allocated m)" unfolding p_def by (simp add: Play_ids(1) Some)
      have old: "b < allocated m \<Longrightarrow> c_channelId (heap p b) = c_channelId (heap m b)"
        unfolding p_def by (rule Play_ids(2))
      show ?thesis using ih old unfolding run r al a by (auto simp: less_Suc_eq)
    qed
  qed
qed

lemma registered_was_returned:
  assumes "m_channelMap (run ops WebAudioMixer_new) i = Some a"
  shows "i \<in> set (returned_ids ops WebAudioMixer_new)"
proof -
  have "registry_sound (run ops WebAudioMixer_new)"
    by (rule registry_sound_run [OF registry_sound_new])
  with assms have a: "a < allocated (run ops WebAudioMixer_new)"
      "c_channelId (heap (run ops WebAudioMixer_new) a) = i"
    unfolding registry_sound_def by blast+
  from run_ids_returned [OF a(1)] a(2) show ?thesis
    by (simp add: WebAudioMixer_new_def)
qed

lemma stop_commands_of_Tick_live:
  assumes "distinct (m_channels m)" "a \<in> set (m_channels m)" "c_stopping (heap m a)"
    and "\<forall>b \<in> set (m_channels m).
           b \<noteq> a \<and> c_channelId (heap m b) = c_channelId (heap m a) \<longrightarrow> \<not> c_stopping (heap m b)"
  shows "filter (\<lambda>c. c = WebAudioStopChannel (c_channelId (heap m a))) (Tick_commands env m)
         = [WebAudioStopChannel (c_channelId (heap m a))]"
proof -
  let ?P = "\<lambda>c. c = WebAudioStopChannel (c_channelId (heap m a))"
  have each: "filter ?P (tick_command env m b)
              = (if b = a then [WebAudioStopChannel (c_channelId (heap m a))] else [])"
    if "b \<in> set (m_channels m)" for b
  proof (cases "b = a")
    case True
    then show ?thesis using assms(3) by (simp add: tick_command_def)
  next
    case False
    then have "c_stopping (heap m b) \<Longrightarrow> c_channelId (heap m b) \<noteq> c_channelId (heap m a)"
      using assms(4) that by blast
    with False show ?thesis by (auto simp add: tick_command_def update_command_def Let_def)
  qed
  have "filter ?P (Tick_commands env m)
        = concat (map (\<lambda>b. filter ?P (tick_command env m b)) (m_channels m))"
    by (simp add: Tick_commands_def filter_concat o_def)
  also have "\<dots> = concat (map (\<lambda>b. if b = a then [WebAudioStopChannel (c_channelId (heap m a))]
                                     else []) (m_channels m))"
    using each by (simp cong: map_cong)
  also have "\<dots> = [WebAudioStopChannel (c_channelId (heap m a))]"
    using assms(1,2) by (rule concat_single)
  finally show ?thesis .
qed

lemma tick_command_Stop_other:
  assumes "b \<noteq> a"
  shows "tick_command env (Stop a m) b = tick_command env m b"
proof -
  have h: "heap (Stop a m) b = heap m b" using assms by (simp add: Stop_fields)
  have "update_command env (Stop a m) b = update_command env m b"
    by (rule update_command_cong) (simp_all add: h, simp_all add: Stop_def SetStopping_def)
  then show ?thesis by (simp add: tick_command_def h)
qed

lemma count_list_distinct: "distinct xs \<Longrightarrow> a \<in> set xs \<Longrightarrow> count_list xs a = 1"
  by (induction xs) (auto simp: count_list_0_iff)

text \<open>
  Claim C3. In every state \<open>m\<close> that a sequence \<open>ops\<close> of calls reaches from a fresh mixer,
  and for every live channel \<open>a\<close> of it (an entry of the list), with \<open>j\<close> its identifier:
  \<^item> \<open>Stop\<close> twice is \<open>Stop\<close> once.
  \<^item> The \<open>Tick\<close> after it sends, channel by channel in list order, what \<open>tick_command\<close>
    gives; the channel is in the list once, what is sent for it is exactly one stop command,
    and what is sent for every other channel is what would have been sent without the
    \<open>Stop\<close>. So if no other live channel carrying the same identifier is flagged stopping,
    exactly one stop command for \<open>j\<close> is sent.
  \<^item> That \<open>Tick\<close> takes the channel out of the list and \<open>j\<close> out of the registry and marks
    the channel done; whatever calls follow (\<open>later\<close>), the channel is never in the list
    again, so a further \<open>Tick\<close> sends nothing for it (and no stop command for \<open>j\<close>, if no
    other live channel carried \<open>j\<close>), and the completion callback for \<open>j\<close> then changes
    nothing.
  \<^item> \<open>OnChannelEnded\<close> delivered twice is \<open>OnChannelEnded\<close> delivered once; for an
    identifier that is not registered it changes nothing; an identifier that no \<open>Play\<close> of
    \<open>ops\<close> returned is not registered; and after a delivery the identifier is not registered.
  \<^item> When the registry entry of \<open>j\<close> points to the channel, \<open>OnChannelEnded\<close> for \<open>j\<close>
    takes the channel out of the list and the registry and marks it done. With at most
    \<open>2 ^ 32\<close> calls of \<open>Play\<close> in \<open>ops\<close> the entry of \<open>j\<close> does point to the channel, and no
    other live channel carries \<open>j\<close>.
  The operations are total functions of the state: none of them has an error branch.
\<close>

theorem teardown_exactly_once:
  assumes "m = run ops WebAudioMixer_new" "a \<in> set (m_channels m)"
  shows "Stop a (Stop a m) = Stop a m
       \<and> new_commands m (Tick env (Stop a m))
          = concat (map (tick_command env (Stop a m)) (m_channels m))
       \<and> count_list (m_channels m) a = 1
       \<and> tick_command env (Stop a m) a = [WebAudioStopChannel (c_channelId (heap m a))]
       \<and> (\<forall>b. b \<noteq> a \<longrightarrow> tick_command env (Stop a m) b = tick_command env m b)
       \<and> ((\<forall>b \<in> set (m_channels m).
              b \<noteq> a \<and> c_channelId (heap m b) = c_channelId (heap m a) \<longrightarrow> \<not> c_stopping (heap m b))
           \<longrightarrow> filter (\<lambda>c. c = WebAudioStopChannel (c_channelId (heap m a)))
                 (new_commands m (Tick env (Stop a m)))
               = [WebAudioStopChannel (c_channelId (heap m a))])
       \<and> a \<notin> set (m_channels (Tick env (Stop a m)))
       \<and> m_channelMap (Tick env (Stop a m)) (c_channelId (heap m a)) = None
       \<and> c_done (heap (Tick env (Stop a m)) a)
       \<and> a \<notin> set (m_channels (run later (Tick env (Stop a m))))
       \<and> new_commands (Tick env (Stop a m)) (Tick env' (Tick env (Stop a m)))
          = concat (map (tick_command env' (Tick env (Stop a m)))
                      (m_channels (Tick env (Stop a m))))
       \<and> ((\<forall>b \<in> set (m_channels m). b \<noteq> a \<longrightarrow> c_channelId (heap m b) \<noteq> c_channelId (heap m a))
           \<longrightarrow> filter (\<lambda>c. c = WebAudioStopChannel (c_channelId (heap m a)))
                 (new_commands (Tick env (Stop a m)) (Tick env' (Tick env (Stop a m)))) = [])
       \<and> OnChannelEnded (c_channelId (heap m a)) (Tick env (Stop a m)) = Tick env (Stop a m)
       \<and> OnChannelEnded i (OnChannelEnded i m) = OnChannelEnded i m
       \<and> (m_channelMap m i = None \<longrightarrow> OnChannelEnded i m = m)
       \<and> (i \<notin> set (returned_ids ops WebAudioMixer_new) \<longrightarrow> m_channelMap m i = None)
       \<and> m_channelMap (OnChannelEnded i m) i = None
       \<and> (m_channelMap m (c_channelId (heap m a)) = Some a \<longrightarrow>
            a \<notin> set (m_channels (OnChannelEnded (c_channelId (heap m a)) m))
            \<and> m_channelMap (OnChannelEnded (c_channelId (heap m a)) m) (c_channelId (heap m a)) = None
            \<and> c_done (heap (OnChannelEnded (c_channelId (heap m a)) m) a))
       \<and> (num_plays ops \<le> 2 ^ 32 \<longrightarrow>
            m_channelMap m (c_channelId (heap m a)) = Some a
            \<and> (\<forall>b \<in> set (m_channels m). b \<noteq> a \<longrightarrow> c_channelId (heap m b) \<noteq> c_channelId (heap m a)))"
proof -
  define j where "j = c_channelId (heap m a)"
  define s where "s = Stop a m"
  define t where "t = Tick env s"
  have sound: "registry_sound m"
    unfolding assms(1) by (rule registry_sound_run [OF registry_sound_new])
  then have d: "distinct (m_channels m)" and nm: "\<not> m_mutex m" and al: "a < allocated m"
    and map: "\<And>i b. m_channelMap m i = Some b \<Longrightarrow> b \<in> set (m_channels m) \<and> c_channelId (heap m b) = i"
    using assms(2) unfolding registry_sound_def by blast+
  have s: "m_channels s = m_channels m" "backend s = backend m" "c_stopping (heap s a)"
      "\<And>b. c_channelId (heap s b) = c_channelId (heap m b)"
      "\<And>b. b \<noteq> a \<Longrightarrow> c_stopping (heap s b) = c_stopping (heap m b)"
    unfolding s_def by (simp_all add: Stop_fields)
  have 1: "new_commands m t = concat (map (tick_command env s) (m_channels m))"
    unfolding new_commands_def t_def by (simp add: Tick_backend s Tick_commands_def)
  have new1: "new_commands m t = Tick_commands env s"
    unfolding 1 Tick_commands_def s ..
  have 2: "count_list (m_channels m) a = 1" using d assms(2) by (rule count_list_distinct)
  have 3: "tick_command env s a = [WebAudioStopChannel j]"
    by (simp add: tick_command_def s j_def)
  have 4: "\<forall>b. b \<noteq> a \<longrightarrow> tick_command env s b = tick_command env m b"
    unfolding s_def by (simp add: tick_command_Stop_other)
  have 5: "filter (\<lambda>c. c = WebAudioStopChannel j) (new_commands m t) = [WebAudioStopChannel j]"
    if "\<forall>b \<in> set (m_channels m). b \<noteq> a \<and> c_channelId (heap m b) = j \<longrightarrow> \<not> c_stopping (heap m b)"
    unfolding new1
    using stop_commands_of_Tick_live [of s a env] d assms(2) s that by (simp add: j_def)
  have 6: "a \<notin> set (m_channels t)" unfolding t_def by (simp add: Tick_channels s)
  have "j \<in> (\<lambda>b. c_channelId (heap s b)) ` {b \<in> set (m_channels s). c_stopping (heap s b)}"
    by (rule image_eqI [of _ _ a]) (use assms(2) s in \<open>simp_all add: j_def\<close>)
  then have 7: "m_channelMap t j = None" unfolding t_def Tick_channelMap by simp
  have 8: "c_done (heap t a)" unfolding t_def using assms(2) by (simp add: Tick_heap s)
  have "a < allocated t" unfolding t_def s_def using al
    by (simp add: Tick_fields Stop_def SetStopping_def)
  from run_never_readmits [OF this 6, of later]
  have 9: "a \<notin> set (m_channels (run later t))" by simp
  have 10: "new_commands t (Tick env' t) = concat (map (tick_command env' t) (m_channels t))"
    unfolding new_commands_def by (simp add: Tick_backend Tick_commands_def)
  have 11: "filter (\<lambda>c. c = WebAudioStopChannel j) (new_commands t (Tick env' t)) = []"
    if u: "\<forall>b \<in> set (m_channels m). b \<noteq> a \<longrightarrow> c_channelId (heap m b) \<noteq> j"
  proof -
    have other: "c_channelId (heap t b) \<noteq> j" if "b \<in> set (m_channels t)" for b
    proof -
      have b: "b \<in> set (m_channels m)" "b \<noteq> a"
        using that s(3) unfolding t_def by (auto simp: Tick_channels s)
      have "c_channelId (heap t b) = c_channelId (heap m b)"
        unfolding t_def by (simp add: Tick_heap s)
      with u b show ?thesis by simp
    qed
    have "new_commands t (Tick env' t) = Tick_commands env' t"
      unfolding new_commands_def by (simp add: Tick_backend)
    then show ?thesis using no_stop_command_of_Tick [of t j env'] other by simp
  qed
  have "\<not> m_mutex t" unfolding t_def by (simp add: Tick_fields)
  with 7 have 12: "OnChannelEnded j t = t" by (rule OnChannelEnded_unregistered)
  have 14: "m_channelMap m i = None \<longrightarrow> OnChannelEnded i m = m"
    using nm by (simp add: OnChannelEnded_unregistered)
  have 15: "i \<notin> set (returned_ids ops WebAudioMixer_new) \<longrightarrow> m_channelMap m i = None"
    using registered_was_returned [of ops i] unfolding assms(1) by (cases "m_channelMap (run ops WebAudioMixer_new) i") auto
  have 16: "m_channelMap (OnChannelEnded i m) i = None"
  proof (cases "FindChannel i m")
    case None
    then show ?thesis
      using registry_sound_FindChannel [OF sound, of i]
      by (simp add: OnChannelEnded_not_found)
  next
    case (Some b)
    then show ?thesis by (simp add: OnChannelEnded_found(2))
  qed
  have 17: "a \<notin> set (m_channels (OnChannelEnded j m)) \<and> m_channelMap (OnChannelEnded j m) j = None
            \<and> c_done (heap (OnChannelEnded j m) a)"
    if reg: "m_channelMap m j = Some a"
  proof -
    have found: "FindChannel j m = Some a"
      using reg assms(2) by (simp add: FindChannel_def weak_lock_def)
    have "a \<notin> set (m_channels (OnChannelEnded j m))"
      unfolding OnChannelEnded_found(1) [OF found] by (simp add: j_def)
    moreover have "m_channelMap (OnChannelEnded j m) j = None"
      by (simp add: OnChannelEnded_found(2) [OF found])
    moreover have "c_done (heap (OnChannelEnded j m) a)"
      by (simp add: OnChannelEnded_found(3) [OF found])
    ultimately show ?thesis by simp
  qed
  have 18: "m_channelMap m j = Some a
            \<and> (\<forall>b \<in> set (m_channels m). b \<noteq> a \<longrightarrow> c_channelId (heap m b) \<noteq> j)"
    if bound: "num_plays ops \<le> 2 ^ 32"
  proof -
    have "mixer_wf m" unfolding assms(1) using bound by (rule run_wf)
    then have rc: "registry_consistent m" unfolding mixer_wf_def by simp
    then have "m_channelMap m j = Some a" and di: "distinct (channel_ids m)"
      using assms(2) unfolding registry_consistent_def j_def by simp_all
    moreover have "inj_on (\<lambda>b. c_channelId (heap m b)) (set (m_channels m))"
      using di unfolding channel_ids_def by (simp add: distinct_map)
    then have "\<forall>b \<in> set (m_channels m). b \<noteq> a \<longrightarrow> c_channelId (heap m b) \<noteq> j"
      unfolding j_def using assms(2) by (auto dest: inj_onD)
    ultimately show ?thesis by simp
  qed
  show ?thesis
    using Stop_idem [of a m] 1 2 3 4 5 6 7 8 9 10 11 12 OnChannelEnded_idem [of i m] 14 15 16 17 18
    unfolding t_def s_def j_def by blast
qed

text \<open>
  The first channel of a fresh mixer and the unknown identifier 7; and the first channel
  after the long session, when the identifier counter has wrapped.
\<close>

theorem teardown_exactly_once_witness:
  "0 \<in> set (m_channels (run [(example_env, OpPlay (Some silence) 0 False)] WebAudioMixer_new))
   \<and> filter (\<lambda>c. c = WebAudioStopChannel 1)
        (new_commands (run [(example_env, OpPlay (Some silence) 0 False)] WebAudioMixer_new)
           (Tick example_env
              (Stop 0 (run [(example_env, OpPlay (Some silence) 0 False)] WebAudioMixer_new))))
      = [WebAudioStopChannel 1]
   \<and> 0 \<notin> set (m_channels (Tick example_env
              (Stop 0 (run [(example_env, OpPlay (Some silence) 0 False)] WebAudioMixer_new))))
   \<and> OnChannelEnded 7 (run [(example_env, OpPlay (Some silence) 0 False)] WebAudioMixer_new)
      = run [(example_env, OpPlay (Some silence) 0 False)] WebAudioMixer_new
   \<and> 0 \<in> set (m_channels (run long_session WebAudioMixer_new))
   \<and> tick_command example_env (Stop 0 (run long_session WebAudioMixer_new)) 0
      = [WebAudioStopChannel 1]
   \<and> 0 \<notin> set (m_channels (Tick example_env (Stop 0 (run long_session WebAudioMixer_new))))"
proof -
  define m0 where "m0 = run [(example_env, OpPlay (Some silence) 0 False)] WebAudioMixer_new"
  have m0: "m0 = fst (Play example_env (Some silence) 0 False WebAudioMixer_new)"
    unfolding m0_def by (simp add: step_def)
  have ch: "m_channels m0 = [0]"
    unfolding m0 by (simp add: Play_silence_fields WebAudioMixer_new_def)
  have h2: "0 \<in> set (m_channels m0)" by (simp add: ch)
  have i: "c_channelId (heap m0 0) = 1"
    unfolding m0 by (simp add: Play_silence_fields WebAudioMixer_new_def)
  have u: "m_channelMap m0 7 = None"
    unfolding m0 by (simp add: Play_silence_fields WebAudioMixer_new_def)
  have alone: "\<forall>b \<in> set (m_channels m0).
      b \<noteq> 0 \<and> c_channelId (heap m0 b) = c_channelId (heap m0 0) \<longrightarrow> \<not> c_stopping (heap m0 b)"
    by (simp add: ch)
  note inst = teardown_exactly_once [OF m0_def h2, where env = example_env and i = 7]
  have a: "filter (\<lambda>c. c = WebAudioStopChannel 1)
             (new_commands m0 (Tick example_env (Stop 0 m0))) = [WebAudioStopChannel 1]"
    using inst alone unfolding i by blast
  have b: "0 \<notin> set (m_channels (Tick example_env (Stop 0 m0)))"
    using inst by blast
  have c: "OnChannelEnded 7 m0 = m0" using inst u by blast
  define f where "f = run long_session WebAudioMixer_new"
  define s where "s = run (churn 1 (2 ^ 32 - 1))
          (fst (Play example_env (Some silence) 0 False WebAudioMixer_new))"
  have "first_alone (2 ^ 32 - 1) s" unfolding s_def by (rule long_session_state)
  then have s: "m_channels s = [0]" "c_channelId (heap s 0) = 1" "allocated s = 2 ^ 32"
    unfolding first_alone_def by simp_all
  have f: "f = fst (Play example_env (Some silence) 0 False s)"
    unfolding f_def s_def by (rule run_long_session)
  have g2: "0 \<in> set (m_channels f)" unfolding f by (simp add: Play_silence_fields s)
  have fi: "c_channelId (heap f 0) = 1" unfolding f by (simp add: Play_silence_fields s)
  note inst2 = teardown_exactly_once [OF f_def g2, where env = example_env]
  have d: "tick_command example_env (Stop 0 f) 0 = [WebAudioStopChannel 1]"
    using inst2 unfolding fi by blast
  have e: "0 \<notin> set (m_channels (Tick example_env (Stop 0 f)))"
    using inst2 by blast
  show ?thesis
    using h2 a b c g2 d e unfolding m0_def f_def by blast
qed

subsection \<open>Done channels\<close>

lemma new_commands_same [simp]: "new_commands m m = []"
  by (simp add: new_commands_def)

lemma new_commands_append: "backend m' = backend m @ xs \<Longrightarrow> new_commands m m' = xs"
  by (simp add: new_commands_def)

lemma updates_channel_iff:
  "updates_channel i cmd \<longleftrightarrow> (\<exists>r v p off rs. cmd = WebAudioUpdateChannel i r v p off rs)"
  by (cases cmd) auto

lemma UpdateChannel_commands:
  assumes "cmd \<in> set (new_commands m0 (UpdateChannel env b r m))" "backend m = backend m0"
    and "updates_channel i cmd"
  shows "\<not> c_done (heap m b) \<and> c_channelId (heap m b) = i"
  using assms
  by (auto simp: new_commands_def backend_UpdateChannel split: if_splits)

lemma channel_call_commands:
  assumes "receiver op = Some b" "cmd \<in> set (new_commands m (channel_call env op m))"
    and "updates_channel i cmd"
  shows "\<not> c_done (heap m b) \<and> c_channelId (heap m b) = i"
proof (cases op)
  case (ChSetGroup a g)
  with assms UpdateChannel_commands [of cmd m env b False "modify b (\<lambda>c. c\<lparr>c_group := g\<rparr>) m" i]
  show ?thesis by (simp add: SetGroup_def)
next
  case (ChSetRate a x)
  with assms UpdateChannel_commands [of cmd m env b False "modify b (\<lambda>c. c\<lparr>c_rate := max 0.001 x\<rparr>) m" i]
  show ?thesis by (simp add: SetRate_def)
next
  case (ChSetOffset a off)
  with assms UpdateChannel_commands [of cmd m env b True "modify b (\<lambda>c. c\<lparr>c_offsetBytes := off\<rparr>) m" i]
  show ?thesis by (simp add: SetOffset_def split: if_splits)
next
  case (ChSetVolume a x)
  with assms UpdateChannel_commands [of cmd m env b False
      "modify b (\<lambda>c. c\<lparr>c_volume := clamp x 0 (kMixerVolumeMax env)\<rparr>) m" i]
  show ?thesis by (simp add: SetVolume_channel_def)
next
  case (ChSetPan a x)
  with assms UpdateChannel_commands [of cmd m env b False
      "modify b (\<lambda>c. let p = clamp x 0 1
                       in c\<lparr>c_pan := p, c_volume_l := fst (pan_gains p),
                            c_volume_r := snd (pan_gains p)\<rparr>) m" i]
  show ?thesis by (simp add: SetPan_def Let_def)
qed (use assms in \<open>simp_all add: SetLoop_def SetStopping_def SetDone_def SetDeleteOnDone_def
      Play_channel_def Stop_def UpdateOldVolume_def new_commands_def\<close>)

lemma Tick_commands_updates:
  assumes "cmd \<in> set (Tick_commands env m)" "updates_channel i cmd"
  shows "\<exists>b \<in> set (m_channels m). \<not> c_done (heap m b) \<and> c_channelId (heap m b) = i"
  using assms
  by (auto simp: Tick_commands_def tick_command_def update_command_def Let_def split: if_splits)

lemma Tick_commands_volume [simp]:
  "(\<exists>b \<in> set (m_channels (m\<lparr>m_volume := v\<rparr>)).
       \<not> c_done (heap (m\<lparr>m_volume := v\<rparr>) b) \<and> c_channelId (heap (m\<lparr>m_volume := v\<rparr>) b) = i)
   \<longleftrightarrow> (\<exists>b \<in> set (m_channels m). \<not> c_done (heap m b) \<and> c_channelId (heap m b) = i)"
  by simp

lemma step_commands_updates:
  assumes "cmd \<in> set (new_commands m (step env op m))" "updates_channel i cmd"
  shows "\<exists>b. (b \<in> set (m_channels m) \<or> b \<in> set (held m))
             \<and> \<not> c_done (heap m b) \<and> c_channelId (heap m b) = i"
proof (cases "receiver op")
  case (Some b)
  show ?thesis
  proof (cases "b \<in> set (held m)")
    case True
    with Some assms have "cmd \<in> set (new_commands m (channel_call env op m))"
      by (simp add: step_def)
    from channel_call_commands [OF Some this assms(2)] True show ?thesis by blast
  next
    case False
    with Some assms show ?thesis by (simp add: step_def)
  qed
next
  case None
  show ?thesis
  proof (cases op)
    case (OpPlay source loop dod)
    with None assms show ?thesis
      by (auto simp: step_def new_commands_def backend_Play split: option.splits)
  next
    case OpTick
    with None assms have "cmd \<in> set (Tick_commands env m)"
      by (simp add: step_def new_commands_def Tick_backend)
    from Tick_commands_updates [OF this assms(2)] show ?thesis by blast
  next
    case (OpSetVolume v)
    with None assms have "cmd \<in> set (Tick_commands env (m\<lparr>m_volume := v\<rparr>))"
      by (simp add: step_def new_commands_def SetVolume_def Tick_backend)
    from Tick_commands_updates [OF this assms(2)] show ?thesis by auto
  next
    case OpClose
    with None assms show ?thesis
      by (auto simp: step_def new_commands_def Close_fields)
  qed (use None assms in \<open>simp_all add: step_def new_commands_def OnChannelEnded_fields
         AddSource_fields release_source_fields\<close>)
qed

lemma done_setters_silent:
  assumes "c_done (heap m a)"
  shows "new_commands m (SetRate env a r m) = []"
    and "new_commands m (SetVolume_channel env a v m) = []"
    and "new_commands m (SetPan env a p m) = []"
    and "new_commands m (SetGroup env a g m) = []"
    and "new_commands m (fst (SetOffset env a off m)) = []"
    and "\<forall>cmd \<in> set (tick_command env m a). \<forall>i. \<not> updates_channel i cmd"
  using assms
  by (simp_all add: new_commands_def SetRate_def SetVolume_channel_def SetPan_def SetGroup_def
      SetOffset_def backend_UpdateChannel tick_command_def Let_def)

lemma channel_call_done:
  assumes "\<not> clears_done a op" "c_done (heap m a)"
  shows "c_done (heap (channel_call env op m) a)"
  using assms
  by (cases op; auto simp add: SetGroup_def SetRate_def SetOffset_def SetLoop_def
      SetVolume_channel_def SetPan_def SetStopping_def SetDone_def SetDeleteOnDone_def
      Play_channel_def Stop_def UpdateOldVolume_def Let_def)

lemma step_keeps_channel:
  assumes "a < allocated m"
  shows "a < allocated (step env op m)"
    and "c_channelId (heap (step env op m) a) = c_channelId (heap m a)"
proof -
  have "a < allocated (step env op m)
        \<and> c_channelId (heap (step env op m) a) = c_channelId (heap m a)"
  proof (cases "num_plays [(env, op)] = 0")
    case True
    then show ?thesis using assms by (simp add: step_ids)
  next
    case False
    then obtain source loop dod where op: "op = OpPlay source loop dod"
      by (cases op) simp_all
    show ?thesis using assms unfolding op by (simp add: step_def Play_ids)
  qed
  then show "a < allocated (step env op m)"
    and "c_channelId (heap (step env op m) a) = c_channelId (heap m a)" by simp_all
qed

lemma step_keeps_done:
  assumes "a < allocated m" "c_done (heap m a)" "\<not> clears_done a op"
  shows "c_done (heap (step env op m) a)"
proof (cases "receiver op")
  case (Some b)
  then show ?thesis using assms by (simp add: step_def channel_call_done)
next
  case None
  show ?thesis
  proof (cases op)
    case (OpPlay source loop dod)
    with None assms show ?thesis
      by (auto simp: step_def Play_decoded Play_locked_heap split: option.splits)
  next
    case (OpOnChannelEnded i)
    with None assms show ?thesis
      by (cases "FindChannel i m")
         (simp_all add: step_def OnChannelEnded_found OnChannelEnded_not_found)
  qed (use None assms in \<open>simp_all add: step_def Tick_heap Close_fields
         SetVolume_def AddSource_fields release_source_fields\<close>)
qed

lemma run_keeps_done:
  assumes "a < allocated m" "c_done (heap m a)" "\<forall>x \<in> set ops. \<not> clears_done a (snd x)"
  shows "a < allocated (run ops m) \<and> c_done (heap (run ops m) a)
         \<and> c_channelId (heap (run ops m) a) = c_channelId (heap m a)"
  using assms
proof (induction ops arbitrary: m)
  case Nil
  then show ?case by simp
next
  case (Cons x ops)
  obtain env op where x: "x = (env, op)" by (cases x)
  have nc: "\<not> clears_done a op" and rest: "\<forall>x \<in> set ops. \<not> clears_done a (snd x)"
    using Cons.prems(3) by (simp_all add: x)
  from Cons.IH [OF step_keeps_channel(1) [OF Cons.prems(1)]
      step_keeps_done [OF Cons.prems(1,2) nc] rest]
  show ?case unfolding x by (simp add: step_keeps_channel(2) [OF Cons.prems(1)])
qed

lemma channel_call_backend: "\<exists>xs. backend (channel_call env op m) = backend m @ xs"
  by (cases op; simp add: SetGroup_def SetRate_def SetOffset_def SetLoop_def
      SetVolume_channel_def SetPan_def SetStopping_def SetDone_def SetDeleteOnDone_def
      Play_channel_def Stop_def UpdateOldVolume_def backend_UpdateChannel)

lemma step_backend: "\<exists>xs. backend (step env op m) = backend m @ xs"
proof (cases "receiver op")
  case (Some b)
  then show ?thesis using channel_call_backend [of env op m] by (simp add: step_def)
next
  case None
  then show ?thesis
    by (cases op)
       (simp_all add: step_def backend_Play Tick_backend SetVolume_def OnChannelEnded_fields
          Close_fields AddSource_fields release_source_fields)
qed

lemma run_backend: "\<exists>xs. backend (run ops m) = backend m @ xs"
proof (induction ops arbitrary: m)
  case Nil
  show ?case by simp
next
  case (Cons x ops)
  obtain env op where x: "x = (env, op)" by (cases x)
  from step_backend [of env op m] obtain xs where "backend (step env op m) = backend m @ xs" ..
  moreover from Cons.IH [of "step env op m"]
  obtain ys where "backend (run ops (step env op m)) = backend (step env op m) @ ys" ..
  ultimately show ?case unfolding x by simp
qed

lemma new_commands_run_Cons:
  "new_commands m (run ((env, op) # ops) m)
     = new_commands m (step env op m) @ new_commands (step env op m) (run ops (step env op m))"
proof -
  from step_backend [of env op m] obtain xs where xs: "backend (step env op m) = backend m @ xs" ..
  from run_backend [of ops "step env op m"]
  obtain ys where ys: "backend (run ops (step env op m)) = backend (step env op m) @ ys" ..
  show ?thesis by (simp add: new_commands_def xs ys)
qed

lemma wf_step_silent:
  assumes "mixer_wf m" "a < allocated m" "c_done (heap m a)"
    and "cmd \<in> set (new_commands m (step env op m))"
  shows "\<not> updates_channel (c_channelId (heap m a)) cmd"
proof
  assume "updates_channel (c_channelId (heap m a)) cmd"
  from step_commands_updates [OF assms(4) this]
  obtain b where b: "b \<in> set (m_channels m) \<or> b \<in> set (held m)" "\<not> c_done (heap m b)"
      "c_channelId (heap m b) = c_channelId (heap m a)" by blast
  have "b < allocated m" using b(1) assms(1) unfolding mixer_wf_def by auto
  moreover have "inj_on (\<lambda>a. c_channelId (heap m a)) (set [0..<allocated m])"
    using assms(1) unfolding mixer_wf_def by (simp add: distinct_map)
  ultimately have "b = a" using b(3) assms(2) by (auto dest: inj_onD)
  with b(2) assms(3) show False by simp
qed

lemma run_done_silent:
  assumes "mixer_inv n m" "n + num_plays ops \<le> 2 ^ 32" "a < allocated m" "c_done (heap m a)"
    and "\<forall>x \<in> set ops. \<not> clears_done a (snd x)"
  shows "\<forall>cmd \<in> set (new_commands m (run ops m)). \<not> updates_channel (c_channelId (heap m a)) cmd"
  using assms
proof (induction ops arbitrary: n m)
  case Nil
  then show ?case by simp
next
  case (Cons x ops)
  obtain env op where x: "x = (env, op)" by (cases x)
  have nc: "\<not> clears_done a op" and rest: "\<forall>x \<in> set ops. \<not> clears_done a (snd x)"
    using Cons.prems(5) by (simp_all add: x)
  have split: "num_plays (x # ops) = num_plays [(env, op)] + num_plays ops"
    unfolding x by (cases op) simp_all
  with Cons.prems have "n + num_plays [(env, op)] \<le> 2 ^ 32" by simp
  from mixer_inv_step [OF Cons.prems(1) this]
  obtain n1 where n1: "n1 \<le> n + num_plays [(env, op)]" "mixer_inv n1 (step env op m)" by blast
  then have bound: "n1 + num_plays ops \<le> 2 ^ 32" using Cons.prems(2) split by simp
  have first: "\<forall>cmd \<in> set (new_commands m (step env op m)).
                 \<not> updates_channel (c_channelId (heap m a)) cmd"
    using wf_step_silent [OF mixer_inv_wf [OF Cons.prems(1)] Cons.prems(3,4)] by blast
  have "\<forall>cmd \<in> set (new_commands (step env op m) (run ops (step env op m))).
          \<not> updates_channel (c_channelId (heap (step env op m) a)) cmd"
    by (rule Cons.IH [OF n1(2) bound step_keeps_channel(1) [OF Cons.prems(3)]
          step_keeps_done [OF Cons.prems(3,4) nc] rest])
  then have later: "\<forall>cmd \<in> set (new_commands (step env op m) (run ops (step env op m))).
          \<not> updates_channel (c_channelId (heap m a)) cmd"
    by (simp add: step_keeps_channel(2) [OF Cons.prems(3)])
  show ?case unfolding x new_commands_run_Cons using first later by auto
qed

text \<open>
  Claim C7, as amended. While the done flag of a channel is set, nothing sends a parameter
  update for it: \<open>SetRate\<close>, \<open>SetVolume\<close>, \<open>SetPan\<close>, \<open>SetGroup\<close> and \<open>SetOffset\<close> on it send
  nothing, what a \<open>Tick\<close> sends for it (\<open>tick_command\<close>) is no update, and in a well-formed
  state no call at all sends an update carrying its identifier. The flag stays set over
  every sequence of calls in which the caller does not clear it, by the channel's
  own \<open>Play(source, loop)\<close> or \<open>SetDone(false)\<close> (\<open>clears_done\<close>); and then, the whole
  session having at most \<open>2 ^ 32\<close> calls of \<open>Play\<close>, no update carrying the channel's
  identifier is sent anywhere in the sequence. A \<open>Tick\<close> marks every live channel flagged
  stopping as done and removes it in the same pass, so that no live channel is stopping
  afterwards; a channel that is out of the list never comes back into it, so \<open>Tick\<close> takes
  that step at most once for a channel.
\<close>

theorem done_channel_gets_no_update:
  "(c_done (heap m a) \<longrightarrow>
      new_commands m (SetRate env a r m) = []
      \<and> new_commands m (SetVolume_channel env a v m) = []
      \<and> new_commands m (SetPan env a p m) = []
      \<and> new_commands m (SetGroup env a g m) = []
      \<and> new_commands m (fst (SetOffset env a off m)) = []
      \<and> (\<forall>cmd \<in> set (tick_command env m a). \<forall>i. \<not> updates_channel i cmd))
   \<and> new_commands m (Tick env m) = concat (map (tick_command env m) (m_channels m))
   \<and> (mixer_wf m \<and> a < allocated m \<and> c_done (heap m a) \<longrightarrow>
        (\<forall>cmd \<in> set (new_commands m (step env op m)).
            \<not> updates_channel (c_channelId (heap m a)) cmd))
   \<and> (a < allocated m \<and> c_done (heap m a) \<and> (\<forall>x \<in> set ops. \<not> clears_done a (snd x)) \<longrightarrow>
        c_done (heap (run ops m) a))
   \<and> (m = run before WebAudioMixer_new \<and> num_plays (before @ ops) \<le> 2 ^ 32
        \<and> a < allocated m \<and> c_done (heap m a) \<and> (\<forall>x \<in> set ops. \<not> clears_done a (snd x)) \<longrightarrow>
        (\<forall>cmd \<in> set (new_commands m (run ops m)).
            \<not> updates_channel (c_channelId (heap m a)) cmd))
   \<and> (\<forall>b \<in> set (m_channels m). c_stopping (heap m b) \<longrightarrow>
        c_done (heap (Tick env m) b) \<and> b \<notin> set (m_channels (Tick env m)))
   \<and> (\<forall>b \<in> set (m_channels (Tick env m)). \<not> c_stopping (heap (Tick env m) b))
   \<and> (\<forall>b. b < allocated m \<and> b \<notin> set (m_channels m) \<longrightarrow>
        b \<notin> set (m_channels (run ops m)))"
proof -
  have 1: "c_done (heap m a) \<longrightarrow>
      new_commands m (SetRate env a r m) = []
      \<and> new_commands m (SetVolume_channel env a v m) = []
      \<and> new_commands m (SetPan env a p m) = []
      \<and> new_commands m (SetGroup env a g m) = []
      \<and> new_commands m (fst (SetOffset env a off m)) = []
      \<and> (\<forall>cmd \<in> set (tick_command env m a). \<forall>i. \<not> updates_channel i cmd)"
    using done_setters_silent [of m a] by blast
  have 2: "new_commands m (Tick env m) = concat (map (tick_command env m) (m_channels m))"
    by (simp add: new_commands_def Tick_backend Tick_commands_def)
  have 3: "mixer_wf m \<and> a < allocated m \<and> c_done (heap m a) \<longrightarrow>
        (\<forall>cmd \<in> set (new_commands m (step env op m)).
            \<not> updates_channel (c_channelId (heap m a)) cmd)"
    using wf_step_silent [of m a _ env op] by blast
  have 4: "a < allocated m \<and> c_done (heap m a) \<and> (\<forall>x \<in> set ops. \<not> clears_done a (snd x)) \<longrightarrow>
        c_done (heap (run ops m) a)"
    using run_keeps_done [of a m ops] by blast
  have 5: "\<forall>cmd \<in> set (new_commands m (run ops m)).
            \<not> updates_channel (c_channelId (heap m a)) cmd"
    if h: "m = run before WebAudioMixer_new \<and> num_plays (before @ ops) \<le> 2 ^ 32
        \<and> a < allocated m \<and> c_done (heap m a) \<and> (\<forall>x \<in> set ops. \<not> clears_done a (snd x))"
  proof -
    from h have b: "0 + num_plays before \<le> 2 ^ 32" by (simp add: num_plays_append)
    from mixer_inv_run [OF mixer_inv_new b]
    obtain n where n: "n \<le> num_plays before" "mixer_inv n m" using h by auto
    then have "n + num_plays ops \<le> 2 ^ 32" using h by (simp add: num_plays_append)
    from run_done_silent [OF n(2) this] h show ?thesis by blast
  qed
  have 6: "\<forall>b \<in> set (m_channels m). c_stopping (heap m b) \<longrightarrow>
        c_done (heap (Tick env m) b) \<and> b \<notin> set (m_channels (Tick env m))"
    by (simp add: Tick_heap Tick_channels)
  have 7: "\<forall>b \<in> set (m_channels (Tick env m)). \<not> c_stopping (heap (Tick env m) b)"
    by (simp add: Tick_heap Tick_channels)
  have 8: "\<forall>b. b < allocated m \<and> b \<notin> set (m_channels m) \<longrightarrow> b \<notin> set (m_channels (run ops m))"
    using run_never_readmits [of _ m ops] by blast
  from 1 2 3 4 5 6 7 8 show ?thesis by blast
qed

text \<open>
  The first channel of a fresh mixer after its completion callback: over the calls
  \<open>SetVolume(50)\<close> on it, a tick and \<open>SetPan(1)\<close> on it, the flag stays set and no update
  for identifier 1 is sent; and the tick does not find the channel in the list.
\<close>

theorem done_channel_gets_no_update_witness:
  "mixer_wf (run [(example_env, OpPlay (Some silence) 0 False), (example_env, OpOnChannelEnded 1)]
       WebAudioMixer_new)
   \<and> 0 < allocated (run [(example_env, OpPlay (Some silence) 0 False),
                         (example_env, OpOnChannelEnded 1)] WebAudioMixer_new)
   \<and> c_done (heap (run [(example_env, OpPlay (Some silence) 0 False),
                         (example_env, OpOnChannelEnded 1)] WebAudioMixer_new) 0)
   \<and> list_all (\<lambda>cmd. \<not> updates_channel 1 cmd)
        (new_commands
           (run [(example_env, OpPlay (Some silence) 0 False), (example_env, OpOnChannelEnded 1)]
              WebAudioMixer_new)
           (step example_env (ChSetVolume 0 50)
              (run [(example_env, OpPlay (Some silence) 0 False),
                    (example_env, OpOnChannelEnded 1)] WebAudioMixer_new)))
   \<and> c_done (heap (run [(example_env, ChSetVolume 0 50), (example_env, OpTick),
                         (example_env, ChSetPan 0 1)]
        (run [(example_env, OpPlay (Some silence) 0 False), (example_env, OpOnChannelEnded 1)]
           WebAudioMixer_new)) 0)
   \<and> list_all (\<lambda>cmd. \<not> updates_channel 1 cmd)
        (new_commands
           (run [(example_env, OpPlay (Some silence) 0 False), (example_env, OpOnChannelEnded 1)]
              WebAudioMixer_new)
           (run [(example_env, ChSetVolume 0 50), (example_env, OpTick),
                 (example_env, ChSetPan 0 1)]
              (run [(example_env, OpPlay (Some silence) 0 False),
                    (example_env, OpOnChannelEnded 1)] WebAudioMixer_new)))
   \<and> 0 \<notin> set (m_channels (run [(example_env, ChSetVolume 0 50), (example_env, OpTick),
                                  (example_env, ChSetPan 0 1)]
        (run [(example_env, OpPlay (Some silence) 0 False), (example_env, OpOnChannelEnded 1)]
           WebAudioMixer_new)))"
proof -
  define before where "before = [(example_env, OpPlay (Some silence) 0 False),
                                 (example_env, OpOnChannelEnded 1)]"
  define ops where "ops = [(example_env, ChSetVolume 0 50), (example_env, OpTick),
                           (example_env, ChSetPan 0 1)]"
  define p where "p = fst (Play example_env (Some silence) 0 False WebAudioMixer_new)"
  define m1 where "m1 = run before WebAudioMixer_new"
  have r: "m1 = OnChannelEnded 1 p"
    unfolding m1_def before_def p_def by (simp add: step_def)
  have h1: "mixer_wf m1" unfolding m1_def by (rule run_wf) (simp add: before_def)
  have p: "m_channels p = [0]" "m_channelMap p = [1 \<mapsto> 0]" "allocated p = 1"
      "c_channelId (heap p 0) = 1"
    unfolding p_def by (simp_all add: Play_silence_fields WebAudioMixer_new_def)
  have found: "FindChannel 1 p = Some 0" by (simp add: FindChannel_def weak_lock_def p)
  have h2: "0 < allocated m1" unfolding r by (simp add: OnChannelEnded_fields p)
  have h3: "c_done (heap m1 0)" unfolding r by (simp add: OnChannelEnded_found(3) [OF found])
  have i: "c_channelId (heap m1 0) = 1"
    unfolding r by (simp add: OnChannelEnded_found(3) [OF found] p)
  have out: "0 \<notin> set (m_channels m1)"
    unfolding r by (simp add: OnChannelEnded_found(1) [OF found] p)
  have h4: "num_plays (before @ ops) \<le> 2 ^ 32" by (simp add: before_def ops_def)
  have h5: "\<forall>x \<in> set ops. \<not> clears_done 0 (snd x)" by (simp add: ops_def)
  note inst = done_channel_gets_no_update [where m = m1 and a = 0 and env = example_env
      and op = "ChSetVolume 0 50" and ops = ops and before = before]
  have a: "\<forall>cmd \<in> set (new_commands m1 (step example_env (ChSetVolume 0 50) m1)).
            \<not> updates_channel 1 cmd"
    using inst [THEN conjunct2, THEN conjunct2, THEN conjunct1] h1 h2 h3 unfolding i by blast
  have b: "c_done (heap (run ops m1) 0)"
    using inst [THEN conjunct2, THEN conjunct2, THEN conjunct2, THEN conjunct1] h2 h3 h5
    by blast
  have c: "\<forall>cmd \<in> set (new_commands m1 (run ops m1)). \<not> updates_channel 1 cmd"
    using inst [THEN conjunct2, THEN conjunct2, THEN conjunct2, THEN conjunct2, THEN conjunct1]
      m1_def h4 h2 h3 h5 unfolding i by blast
  have d: "0 \<notin> set (m_channels (run ops m1))"
    using inst [THEN conjunct2, THEN conjunct2, THEN conjunct2, THEN conjunct2, THEN conjunct2,
        THEN conjunct2, THEN conjunct2] h2 out by blast
  show ?thesis
    using h1 h2 h3 a b c d unfolding m1_def before_def ops_def by (simp add: list_all_iff)
qed

text \<open>
  Claim C7 as stated fails in three ways. (1) The done flag is not final: the caller can
  clear it through a reference to the channel, with \<open>SetDone(false)\<close> (or with the channel's
  own \<open>Play\<close>); the next setter then sends an update for the identifier of the channel
  that was done. Here the first channel of a fresh mixer completes, and after
  \<open>SetDone(false)\<close> its \<open>SetRate(2)\<close> sends one command, an update for identifier 1.
  (2) That channel became done without ever having been flagged stopping, so the step
  from stopping to done happened not once but never. (3) After the long session, when the
  identifier counter has wrapped, the newer of the two channels with identifier 1 is
  stopped and reaped, hence done; the next tick sends an update for the older one, which
  carries the same identifier 1.
\<close>

theorem done_flag_cleared_counterexample:
  "c_done (heap (run [(example_env, OpPlay (Some silence) 0 False),
                      (example_env, OpOnChannelEnded 1)] WebAudioMixer_new) 0)
   \<and> c_channelId (heap (run [(example_env, OpPlay (Some silence) 0 False),
                      (example_env, OpOnChannelEnded 1)] WebAudioMixer_new) 0) = 1
   \<and> \<not> c_stopping (heap (run [(example_env, OpPlay (Some silence) 0 False)] WebAudioMixer_new) 0)
   \<and> \<not> c_stopping (heap (run [(example_env, OpPlay (Some silence) 0 False),
                      (example_env, OpOnChannelEnded 1)] WebAudioMixer_new) 0)
   \<and> map (updates_channel 1)
        (new_commands
           (run [(example_env, OpPlay (Some silence) 0 False), (example_env, OpOnChannelEnded 1)]
              WebAudioMixer_new)
           (run [(example_env, ChSetDone 0 False), (example_env, ChSetRate 0 2)]
              (run [(example_env, OpPlay (Some silence) 0 False),
                    (example_env, OpOnChannelEnded 1)] WebAudioMixer_new))) = [True]
   \<and> c_done (heap (run (long_session @ [(example_env, ChStop (2 ^ 32)), (example_env, OpTick)])
                      WebAudioMixer_new) (2 ^ 32))
   \<and> c_channelId (heap (run (long_session @ [(example_env, ChStop (2 ^ 32)), (example_env, OpTick)])
                      WebAudioMixer_new) (2 ^ 32)) = 1
   \<and> map (updates_channel 1)
        (new_commands
           (run (long_session @ [(example_env, ChStop (2 ^ 32)), (example_env, OpTick)])
              WebAudioMixer_new)
           (run [(example_env, OpTick)]
              (run (long_session @ [(example_env, ChStop (2 ^ 32)), (example_env, OpTick)])
                 WebAudioMixer_new))) = [True]"
proof -
  define p where "p = fst (Play example_env (Some silence) 0 False WebAudioMixer_new)"
  define m1 where "m1 = OnChannelEnded 1 p"
  have r0: "run [(example_env, OpPlay (Some silence) 0 False)] WebAudioMixer_new = p"
    unfolding p_def by (simp add: step_def)
  have r1: "run [(example_env, OpPlay (Some silence) 0 False), (example_env, OpOnChannelEnded 1)]
              WebAudioMixer_new = m1"
    unfolding m1_def p_def by (simp add: step_def)
  have p: "m_channels p = [0]" "m_channelMap p = [1 \<mapsto> 0]" "held p = [0]"
      "c_channelId (heap p 0) = 1" "\<not> c_stopping (heap p 0)"
    unfolding p_def by (simp_all add: Play_silence_fields WebAudioMixer_new_def)
  have found: "FindChannel 1 p = Some 0" by (simp add: FindChannel_def weak_lock_def p)
  have m1: "c_done (heap m1 0)" "c_channelId (heap m1 0) = 1" "\<not> c_stopping (heap m1 0)"
      "held m1 = [0]"
    unfolding m1_def by (simp_all add: OnChannelEnded_found(3) [OF found] OnChannelEnded_fields p)
  have r2: "run [(example_env, ChSetDone 0 False), (example_env, ChSetRate 0 2)] m1
            = SetRate example_env 0 2 (SetDone 0 False m1)"
    by (simp add: step_def m1 SetDone_def)
  have c1: "map (updates_channel 1) (new_commands m1 (SetRate example_env 0 2 (SetDone 0 False m1)))
            = [True]"
    by (simp add: new_commands_def SetRate_def SetDone_def backend_UpdateChannel m1)
  define s where "s = run (churn 1 (2 ^ 32 - 1))
          (fst (Play example_env (Some silence) 0 False WebAudioMixer_new))"
  define f where "f = fst (Play example_env (Some silence) 0 False s)"
  define a :: nat where "a = 2 ^ 32"
  have "first_alone (2 ^ 32 - 1) s" unfolding s_def by (rule long_session_state)
  then have s: "m_channels s = [0]" "c_channelId (heap s 0) = 1"
      "\<not> c_stopping (heap s 0)" "\<not> c_done (heap s 0)" "allocated s = a" "m_nextChannelId s = 1"
    unfolding first_alone_def a_def by simp_all
  have a0: "a \<noteq> 0" "0 \<noteq> a" by (simp_all add: a_def)
  have f: "m_channels f = [0, a]"
      "c_channelId (heap f 0) = 1" "c_channelId (heap f a) = 1"
      "\<not> c_stopping (heap f 0)" "\<not> c_done (heap f 0)" "a \<in> set (held f)"
    unfolding f_def using a0 by (simp_all add: Play_silence_fields s)
  have run_f: "run long_session WebAudioMixer_new = f"
    unfolding run_long_session f_def s_def ..
  define g where "g = Tick example_env (Stop a f)"
  have run_g: "run (long_session @ [(example_env, ChStop a), (example_env, OpTick)])
         WebAudioMixer_new = g"
    unfolding run_append run_f g_def using f(6) by (simp add: step_def)
  have st: "m_channels (Stop a f) = [0, a]"
      "c_channelId (heap (Stop a f) 0) = 1" "c_channelId (heap (Stop a f) a) = 1"
      "\<not> c_stopping (heap (Stop a f) 0)" "c_stopping (heap (Stop a f) a)"
      "\<not> c_done (heap (Stop a f) 0)"
    using a0 by (simp_all add: Stop_def SetStopping_def f)
  have g: "m_channels g = [0]" "c_channelId (heap g 0) = 1" "\<not> c_stopping (heap g 0)"
      "\<not> c_done (heap g 0)" "c_done (heap g a)" "c_channelId (heap g a) = 1"
    unfolding g_def by (simp_all add: Tick_channels Tick_heap st)
  have c2: "map (updates_channel 1) (new_commands g (run [(example_env, OpTick)] g)) = [True]"
    by (simp add: step_def new_commands_def Tick_backend Tick_commands_def tick_command_def
        update_command_def Let_def g)
  have c2': "map (updates_channel 1) (new_commands g (run [(example_env, OpTick)] g)) = [True]"
    using c2 .
  show ?thesis
    unfolding a_def [symmetric] r0 r1 r2 run_g
    using p(5) m1(1,2,3) c1 g(5,6) c2' by blast
qed

subsection \<open>The cached curves\<close>

lemma adjust_cache_ok_cong:
  assumes "adjust_cache_ok m"
    and "m_settingSoundVolume m' = m_settingSoundVolume m"
    and "m_settingMusicVolume m' = m_settingMusicVolume m"
    and "m_adjustSoundVolume m' = m_adjustSoundVolume m"
    and "m_adjustMusicVolume m' = m_adjustMusicVolume m"
  shows "adjust_cache_ok m'"
  using assms by (simp add: adjust_cache_ok_def)

lemma adjust_cache_ok_UpdateAdjustedSound [simp]:
  "adjust_cache_ok m \<Longrightarrow> adjust_cache_ok (UpdateAdjustedSound env m)"
  by (auto simp: adjust_cache_ok_def)

lemma adjust_cache_ok_modify [simp]: "adjust_cache_ok (modify a f m) = adjust_cache_ok m"
  by (simp add: adjust_cache_ok_def)

lemma adjust_cache_ok_UpdateChannel [simp]:
  "adjust_cache_ok m \<Longrightarrow> adjust_cache_ok (UpdateChannel env a r m)"
  by (auto simp: UpdateChannel_def Let_def emit_def adjust_cache_ok_def UpdateAdjustedSound_def)

lemma adjust_cache_ok_channel_call:
  "adjust_cache_ok m \<Longrightarrow> adjust_cache_ok (channel_call env op m)"
  by (cases op)
     (simp_all add: SetGroup_def SetRate_def SetOffset_def SetLoop_def SetVolume_channel_def
        SetPan_def SetStopping_def SetDone_def SetDeleteOnDone_def Play_channel_def Stop_def
        UpdateOldVolume_def, simp add: adjust_cache_ok_def)

lemma Play_locked_cache:
  "m_settingSoundVolume (fst (Play_locked env source loop dod fmt fd chans frames m))
     = m_settingSoundVolume (UpdateAdjustedSound env m)"
  "m_settingMusicVolume (fst (Play_locked env source loop dod fmt fd chans frames m))
     = m_settingMusicVolume (UpdateAdjustedSound env m)"
  "m_adjustSoundVolume (fst (Play_locked env source loop dod fmt fd chans frames m))
     = m_adjustSoundVolume (UpdateAdjustedSound env m)"
  "m_adjustMusicVolume (fst (Play_locked env source loop dod fmt fd chans frames m))
     = m_adjustMusicVolume (UpdateAdjustedSound env m)"
  by (simp_all add: Play_locked_def Let_def make_shared_eq SetFormat_def Play_channel_def
      SetDeleteOnDone_def)

lemma adjust_cache_ok_Tick: "adjust_cache_ok m \<Longrightarrow> adjust_cache_ok (Tick env m)"
  by (rule adjust_cache_ok_cong [of "UpdateAdjustedSound env m"])
     (simp_all add: Tick_fields del: UpdateAdjustedSound_adjust)

lemma adjust_cache_ok_step: "adjust_cache_ok m \<Longrightarrow> adjust_cache_ok (step env op m)"
proof (cases "receiver op")
  case (Some a)
  assume "adjust_cache_ok m"
  with Some show ?thesis by (simp add: step_def adjust_cache_ok_channel_call)
next
  case None
  assume ok: "adjust_cache_ok m"
  show ?thesis
  proof (cases op)
    case (OpPlay source loop dod)
    have "adjust_cache_ok (fst (Play_locked env source loop dod fmt fd chans frames m))"
      for fmt fd chans frames
      by (rule adjust_cache_ok_cong [of "UpdateAdjustedSound env m"])
         (simp_all add: Play_locked_cache ok del: UpdateAdjustedSound_adjust)
    with OpPlay None ok show ?thesis
      by (auto simp: step_def Play_decoded split: option.splits)
  next
    case OpTick
    with None ok show ?thesis by (simp add: step_def adjust_cache_ok_Tick)
  next
    case (OpSetVolume v)
    have "adjust_cache_ok (m\<lparr>m_volume := v\<rparr>)" using ok by (simp add: adjust_cache_ok_def)
    with OpSetVolume None show ?thesis by (simp add: step_def SetVolume_def adjust_cache_ok_Tick)
  next
    case (OpOnChannelEnded i)
    with None ok show ?thesis
      by (simp add: step_def adjust_cache_ok_def OnChannelEnded_fields)
  next
    case OpClose
    with None ok show ?thesis by (simp add: step_def adjust_cache_ok_def Close_fields)
  next
    case (OpAddSource x)
    with None ok show ?thesis by (simp add: step_def adjust_cache_ok_def AddSource_fields)
  next
    case (SrcRelease x)
    with None ok show ?thesis by (simp add: step_def adjust_cache_ok_def release_source_fields)
  qed (use None in simp_all)
qed

lemma adjust_cache_ok_run: "adjust_cache_ok m \<Longrightarrow> adjust_cache_ok (run ops m)"
  by (induction ops arbitrary: m) (auto simp: adjust_cache_ok_step)

lemma adjust_cache_ok_reachable: "adjust_cache_ok (run ops WebAudioMixer_new)"
  by (rule adjust_cache_ok_run) (simp add: adjust_cache_ok_def WebAudioMixer_new_def)

end
